theory Spec2Isabelle
  imports Complex_Main "HOL-Library.Multiset"
begin

section \<open>The Platform backend: data model\<close>

text \<open>
  The server of \<^verbatim>\<open>backend_server.js\<close> maps each HTTP request to one SQL statement
  on a PostgreSQL store with four tables. The embedding keeps the tables as lists of
  rows (in table order), the \<^verbatim>\<open>SERIAL\<close> sequences as counters, and every handler
  as a function from the request and the store to the response and the new store.
  A column that the schema lets be \<^verbatim>\<open>NULL\<close> is an option; \<^verbatim>\<open>NOT NULL\<close> and primary-key
  columns are plain values. Timestamps are microseconds on the server clock; the
  value of \<^verbatim>\<open>NOW()\<close> / \<^verbatim>\<open>CURRENT_TIMESTAMP\<close> is an argument of each handler.

  A path parameter \<^verbatim>\<open>:id\<close> is the string of the URL. A text field of \<^verbatim>\<open>req.body\<close> is a
  \<open>string option\<close> (\<open>None\<close> for an absent or null field; a string is its UTF-8
  bytes), \<^verbatim>\<open>isBreaking\<close> is any JavaScript value, \<^verbatim>\<open>articleId\<close> an integer or absent, and
  \<^verbatim>\<open>amount\<close> a JavaScript number that the model does not look into. Every parameter of
  a statement is read by PostgreSQL at the type of its column; a parameter it refuses
  fails the statement before anything is written. Connectivity failures of the
  database are outside the model.
\<close>

type_synonym timestamp = int

typedecl js_number

record article_row =
  a_id :: int
  a_title :: string
  a_category :: string
  a_author :: "string option"
  a_date :: "timestamp option"
  a_image :: "string option"
  a_excerpt :: "string option"
  a_content :: "string option"
  a_views :: "int option"
  a_status :: "string option"
  a_is_breaking :: "bool option"
  a_sub_headline :: "string option"

record ad_row =
  d_id :: int
  d_client_name :: string
  d_email :: string
  d_plan :: string
  d_amount :: "js_number option"
  d_status :: "string option"
  d_date_submitted :: "timestamp option"
  d_receipt_image :: "string option"
  d_ad_image :: "string option"
  d_ad_content :: "string option"
  d_ad_url :: "string option"
  d_ad_headline :: "string option"
  d_ad_content_file :: "string option"

record comment_row =
  c_id :: int
  c_article_id :: "int option"
  c_author :: string
  c_email :: string
  c_content :: string
  c_date :: "timestamp option"

record support_row =
  m_id :: int
  m_name :: string
  m_email :: string
  m_subject :: "string option"
  m_message :: string
  m_date :: "timestamp option"
  m_status :: "string option"

record store =
  articles :: "article_row list"
  articles_id_seq :: int
  ads :: "ad_row list"
  ads_id_seq :: int
  comments :: "comment_row list"
  comments_id_seq :: int
  support_messages :: "support_row list"
  support_messages_id_seq :: int

text \<open>
  A JavaScript value as far as \<^verbatim>\<open>isBreaking\<close> needs it: \<open>JNum r\<close> is a number of value
  \<open>r\<close>, \<open>JObject\<close> any array or object.
\<close>

datatype jsval = JUndefined | JNull | JBool bool | JNum rat | JStr string | JObject

text \<open>
  \<^verbatim>\<open>req.body\<close>: one object for all handlers, each of which destructures the fields
  it wants and ignores the others. (\<open>image'\<close> is the field \<^verbatim>\<open>image\<close>.)
\<close>

record body =
  title :: "string option"
  subHeadline :: "string option"
  category :: "string option"
  author :: "string option"
  image' :: "string option"
  excerpt :: "string option"
  content :: "string option"
  status :: "string option"
  isBreaking :: jsval
  clientName :: "string option"
  email :: "string option"
  plan :: "string option"
  amount :: "js_number option"
  receiptImage :: "string option"
  adImage :: "string option"
  adContent :: "string option"
  adUrl :: "string option"
  adHeadline :: "string option"
  adContentFile :: "string option"
  articleId :: "int option"
  name :: "string option"
  subject :: "string option"
  message :: "string option"

text \<open>The objects built by \<^verbatim>\<open>result.rows.map(ad => ({...}))\<close> and its comment twin.\<close>

record ad_view =
  v_id :: int
  v_clientName :: string
  v_email :: string
  v_plan :: string
  v_amount :: "js_number option"
  v_status :: "string option"
  v_dateSubmitted :: "timestamp option"
  v_receiptImage :: "string option"
  v_adImage :: "string option"
  v_adContent :: "string option"
  v_adUrl :: "string option"
  v_adHeadline :: "string option"
  v_adContentFile :: "string option"

record comment_view =
  w_id :: int
  w_articleId :: "int option"
  w_author :: string
  w_email :: string
  w_content :: string
  w_date :: "timestamp option"

text \<open>
  The errors of a statement. The first four are PostgreSQL refusing a parameter or
  running out of sequence numbers, before any row is touched; the others are the
  constraints of the schema.
\<close>

datatype db_error =
    InvalidByteSequence
  | InvalidInteger
  | InvalidBoolean
  | SequenceExhausted string
  | NotNullViolation string
  | CheckViolation string
  | UniqueViolation string
  | ForeignKeyViolation string

datatype payload =
    Message string
  | DbError db_error
  | ArticleRow article_row
  | ArticleRows "article_row list"
  | AdRow ad_row
  | AdViews "ad_view list"
  | CommentRow comment_row
  | CommentViews "comment_view list"
  | SupportRows "support_row list"

record response =
  status_code :: nat
  json :: payload

section \<open>JavaScript values\<close>

text \<open>\<^verbatim>\<open>!v\<close> on a string-or-missing value: missing, null and the empty string are falsy.\<close>

definition truthy :: "string option \<Rightarrow> bool" where
  "truthy v = (case v of None \<Rightarrow> False | Some x \<Rightarrow> x \<noteq> [])"

text \<open>\<^verbatim>\<open>v || d\<close> on strings.\<close>

definition or_default :: "string option \<Rightarrow> string \<Rightarrow> string" where
  "or_default v d = (case v of None \<Rightarrow> d | Some x \<Rightarrow> if x = [] then d else x)"

text \<open>Truthiness of any value, and \<^verbatim>\<open>isBreaking || false\<close>.\<close>

definition js_truthy :: "jsval \<Rightarrow> bool" where
  "js_truthy v =
     (case v of
        JUndefined \<Rightarrow> False
      | JNull \<Rightarrow> False
      | JBool b \<Rightarrow> b
      | JNum r \<Rightarrow> r \<noteq> 0
      | JStr x \<Rightarrow> x \<noteq> []
      | JObject \<Rightarrow> True)"

definition or_false :: "jsval \<Rightarrow> jsval" where
  "or_false v = (if js_truthy v then v else JBool False)"

section \<open>Statement parameters\<close>

text \<open>
  The driver sends \<^verbatim>\<open>undefined\<close> and \<^verbatim>\<open>null\<close> as \<^verbatim>\<open>NULL\<close> and every other value as text
  (\<^verbatim>\<open>true\<close>, \<^verbatim>\<open>false\<close>, the digits of a number, a string as it is); PostgreSQL reads the
  text at the type of the column. A text value must not hold the byte 0.
\<close>

definition text_ok :: "string option \<Rightarrow> bool" where
  "text_ok v = (case v of None \<Rightarrow> True | Some x \<Rightarrow> CHR 0x00 \<notin> set x)"

text \<open>
  The boolean input of PostgreSQL: white space around the word is dropped, letters
  match in either case, and a word is accepted when it is a leading part of
  \<^verbatim>\<open>true\<close>, \<^verbatim>\<open>false\<close>, \<^verbatim>\<open>yes\<close> or \<^verbatim>\<open>no\<close>, or is \<^verbatim>\<open>on\<close>, \<^verbatim>\<open>of\<close>, \<^verbatim>\<open>off\<close>, \<^verbatim>\<open>1\<close> or \<^verbatim>\<open>0\<close>.
\<close>

definition is_space :: "char \<Rightarrow> bool" where
  "is_space c =
     (c = CHR 0x20 \<or> c = CHR 0x09 \<or> c = CHR 0x0A \<or> c = CHR 0x0B \<or> c = CHR 0x0C \<or>
      c = CHR 0x0D)"

definition trim :: "string \<Rightarrow> string" where
  "trim x = rev (dropWhile is_space (rev (dropWhile is_space x)))"

definition fold_case :: "char \<Rightarrow> char" where
  "fold_case c =
     (if c = CHR ''T'' then CHR ''t'' else if c = CHR ''R'' then CHR ''r''
      else if c = CHR ''U'' then CHR ''u'' else if c = CHR ''E'' then CHR ''e''
      else if c = CHR ''F'' then CHR ''f'' else if c = CHR ''A'' then CHR ''a''
      else if c = CHR ''L'' then CHR ''l'' else if c = CHR ''S'' then CHR ''s''
      else if c = CHR ''Y'' then CHR ''y'' else if c = CHR ''N'' then CHR ''n''
      else if c = CHR ''O'' then CHR ''o'' else c)"

definition leading_part :: "string \<Rightarrow> string \<Rightarrow> bool" where
  "leading_part w word = (w \<noteq> [] \<and> w = take (length w) word)"

definition boolin :: "string \<Rightarrow> bool option" where
  "boolin x =
     (let w = map fold_case (trim x)
      in if leading_part w ''true'' then Some True
         else if leading_part w ''false'' then Some False
         else if leading_part w ''yes'' then Some True
         else if leading_part w ''no'' then Some False
         else if w = ''on'' then Some True
         else if w = ''of'' \<or> w = ''off'' then Some False
         else if w = ''1'' then Some True
         else if w = ''0'' then Some False
         else None)"

text \<open>
  A value bound to a \<^verbatim>\<open>BOOLEAN\<close> column. The text of a number is \<^verbatim>\<open>1\<close> or \<^verbatim>\<open>0\<close> only for
  the numbers 1 and 0, and the text of an array or object is never a boolean word.
\<close>

definition boolean_param :: "jsval \<Rightarrow> db_error + bool option" where
  "boolean_param v =
     (case v of
        JUndefined \<Rightarrow> Inr None
      | JNull \<Rightarrow> Inr None
      | JBool b \<Rightarrow> Inr (Some b)
      | JNum r \<Rightarrow>
          if r = 1 then Inr (Some True) else if r = 0 then Inr (Some False)
          else Inl InvalidBoolean
      | JStr x \<Rightarrow>
          if CHR 0x00 \<in> set x then Inl InvalidByteSequence
          else (case boolin x of None \<Rightarrow> Inl InvalidBoolean | Some b \<Rightarrow> Inr (Some b))
      | JObject \<Rightarrow> Inl InvalidBoolean)"

text \<open>
  The string of a path parameter bound to an \<^verbatim>\<open>INTEGER\<close> column. The integer input of
  PostgreSQL is the argument \<open>int4in\<close> of the statements that take an id: \<open>int4in x\<close> is
  the number it reads from \<open>x\<close>, or \<open>None\<close> when it refuses \<open>x\<close> (not a number, or out of
  the range of \<^verbatim>\<open>INTEGER\<close>). Which spellings it reads depends on the version of the
  server; nothing below depends on them.
\<close>

definition integer_param :: "(string \<Rightarrow> int option) \<Rightarrow> string \<Rightarrow> db_error + int" where
  "integer_param int4in x =
     (if CHR 0x00 \<in> set x then Inl InvalidByteSequence
      else case int4in x of None \<Rightarrow> Inl InvalidInteger | Some i \<Rightarrow> Inr i)"

text \<open>The largest \<^verbatim>\<open>INTEGER\<close>, which is also where a \<^verbatim>\<open>SERIAL\<close> sequence ends.\<close>

definition int4_max :: int where
  "int4_max = 2147483647"

definition int4_min :: int where
  "int4_min = - 2147483648"

section \<open>The SQL statements\<close>

text \<open>
  \<^verbatim>\<open>ORDER BY col DESC\<close>: PostgreSQL sorts descending with \<^verbatim>\<open>NULL\<close> first. \<open>desc_le k1 k2\<close>
  says that key \<open>k1\<close> may stand before key \<open>k2\<close>. The order of rows with equal keys
  is left open by SQL; the model keeps table order, and no theorem depends on it.
\<close>

definition desc_le :: "timestamp option \<Rightarrow> timestamp option \<Rightarrow> bool" where
  "desc_le k1 k2 =
     (case k1 of None \<Rightarrow> True
      | Some x \<Rightarrow> (case k2 of None \<Rightarrow> False | Some y \<Rightarrow> y \<le> x))"

fun insert_desc :: "('a \<Rightarrow> timestamp option) \<Rightarrow> 'a \<Rightarrow> 'a list \<Rightarrow> 'a list" where
  "insert_desc key x [] = [x]"
| "insert_desc key x (y # ys) =
     (if desc_le (key x) (key y) then x # y # ys else y # insert_desc key x ys)"

definition order_by_desc :: "('a \<Rightarrow> timestamp option) \<Rightarrow> 'a list \<Rightarrow> 'a list" where
  "order_by_desc key xs = foldr (insert_desc key) xs []"

text \<open>The two \<^verbatim>\<open>CHECK (status IN (...))\<close> constraints; a \<^verbatim>\<open>NULL\<close> status passes a check.\<close>

definition articles_status_check :: "string option \<Rightarrow> bool" where
  "articles_status_check v =
     (case v of None \<Rightarrow> True
      | Some x \<Rightarrow> x = ''pending'' \<or> x = ''published'' \<or> x = ''rejected'')"

definition ads_status_check :: "string option \<Rightarrow> bool" where
  "ads_status_check v =
     (case v of None \<Rightarrow> True
      | Some x \<Rightarrow> x = ''pending'' \<or> x = ''active'' \<or> x = ''rejected'')"

text \<open>
  \<^verbatim>\<open>INSERT INTO articles (title, sub_headline, category, author, image, excerpt, content,
  status) VALUES ($1..$8) RETURNING *\<close>. The id is drawn from the sequence before the
  constraints are checked, so a row that a constraint refuses still uses up its
  number; \<^verbatim>\<open>date\<close>, \<^verbatim>\<open>views\<close> and \<^verbatim>\<open>is_breaking\<close> take their column defaults.
\<close>

definition insert_articles ::
  "timestamp \<Rightarrow> string option \<Rightarrow> string option \<Rightarrow> string option \<Rightarrow> string option \<Rightarrow>
   string option \<Rightarrow> string option \<Rightarrow> string option \<Rightarrow> string option \<Rightarrow> store \<Rightarrow>
   (db_error + article_row) \<times> store" where
  "insert_articles now p1 p2 p3 p4 p5 p6 p7 p8 s =
     (if \<not> list_all text_ok [p1, p2, p3, p4, p5, p6, p7, p8] then (Inl InvalidByteSequence, s)
      else if int4_max < articles_id_seq s then (Inl (SequenceExhausted ''articles_id_seq''), s)
      else
        (let new_id = articles_id_seq s;
             s1 = s\<lparr>articles_id_seq := new_id + 1\<rparr>
         in case p1 of
              None \<Rightarrow> (Inl (NotNullViolation ''title''), s1)
            | Some t \<Rightarrow>
                (case p3 of
                   None \<Rightarrow> (Inl (NotNullViolation ''category''), s1)
                 | Some c \<Rightarrow>
                     if articles_status_check p8 then
                       if new_id \<in> set (map a_id (articles s)) then
                         (Inl (UniqueViolation ''articles_pkey''), s1)
                       else
                         (let row = \<lparr>a_id = new_id, a_title = t, a_category = c,
                                     a_author = p4, a_date = Some now, a_image = p5,
                                     a_excerpt = p6, a_content = p7, a_views = Some 0,
                                     a_status = p8, a_is_breaking = Some False,
                                     a_sub_headline = p2\<rparr>
                          in (Inr row, s1\<lparr>articles := articles s @ [row]\<rparr>))
                     else (Inl (CheckViolation ''articles_status_check''), s1))))"

text \<open>\<^verbatim>\<open>SELECT * FROM articles WHERE status = 'published' OR status IS NULL ORDER BY date DESC\<close>\<close>

definition select_articles_published :: "store \<Rightarrow> article_row list" where
  "select_articles_published s =
     order_by_desc a_date
       (filter (\<lambda>a. a_status a = Some ''published'' \<or> a_status a = None) (articles s))"

text \<open>\<^verbatim>\<open>SELECT * FROM articles WHERE status = 'pending' ORDER BY date DESC\<close>\<close>

definition select_articles_pending :: "store \<Rightarrow> article_row list" where
  "select_articles_pending s =
     order_by_desc a_date (filter (\<lambda>a. a_status a = Some ''pending'') (articles s))"

text \<open>
  \<^verbatim>\<open>UPDATE articles SET status = 'published', is_breaking = $1, date = NOW()
  WHERE id = $2 RETURNING *\<close>: the updated rows, and the store.
\<close>

definition approve_row :: "bool option \<Rightarrow> timestamp \<Rightarrow> article_row \<Rightarrow> article_row" where
  "approve_row p1 now a =
     a\<lparr>a_status := Some ''published'', a_is_breaking := p1, a_date := Some now\<rparr>"

definition update_articles_approve ::
  "(string \<Rightarrow> int option) \<Rightarrow> timestamp \<Rightarrow> jsval \<Rightarrow> string \<Rightarrow> store \<Rightarrow>
   (db_error + article_row list) \<times> store" where
  "update_articles_approve int4in now p1 p2 s =
     (case boolean_param p1 of
        Inl err \<Rightarrow> (Inl err, s)
      | Inr flag \<Rightarrow>
          (case integer_param int4in p2 of
             Inl err \<Rightarrow> (Inl err, s)
           | Inr i \<Rightarrow>
               (Inr (map (approve_row flag now) (filter (\<lambda>a. a_id a = i) (articles s))),
                s\<lparr>articles := map (\<lambda>a. if a_id a = i then approve_row flag now a else a)
                     (articles s)\<rparr>)))"

text \<open>
  \<^verbatim>\<open>UPDATE articles SET title = $1, sub_headline = $2, category = $3, author = $4,
  image = $5, content = $6, is_breaking = $7 WHERE id = $8 RETURNING *\<close>. The
  \<^verbatim>\<open>NOT NULL\<close> constraints of \<^verbatim>\<open>title\<close> and \<^verbatim>\<open>category\<close> are checked on the rows the
  statement updates: with no such row nothing is checked.
\<close>

definition update_articles_fields ::
  "(string \<Rightarrow> int option) \<Rightarrow> string option \<Rightarrow> string option \<Rightarrow> string option \<Rightarrow>
   string option \<Rightarrow> string option \<Rightarrow> string option \<Rightarrow> jsval \<Rightarrow> string \<Rightarrow> store \<Rightarrow>
   (db_error + article_row list) \<times> store" where
  "update_articles_fields int4in p1 p2 p3 p4 p5 p6 p7 p8 s =
     (if \<not> list_all text_ok [p1, p2, p3, p4, p5, p6] then (Inl InvalidByteSequence, s)
      else case boolean_param p7 of
        Inl err \<Rightarrow> (Inl err, s)
      | Inr flag \<Rightarrow>
          (case integer_param int4in p8 of
             Inl err \<Rightarrow> (Inl err, s)
           | Inr i \<Rightarrow>
               if filter (\<lambda>a. a_id a = i) (articles s) = [] then (Inr [], s)
               else case p1 of
                 None \<Rightarrow> (Inl (NotNullViolation ''title''), s)
               | Some t \<Rightarrow>
                   (case p3 of
                      None \<Rightarrow> (Inl (NotNullViolation ''category''), s)
                    | Some c \<Rightarrow>
                        (let upd = (\<lambda>a. a\<lparr>a_title := t, a_sub_headline := p2,
                                           a_category := c, a_author := p4, a_image := p5,
                                           a_content := p6, a_is_breaking := flag\<rparr>)
                         in (Inr (map upd (filter (\<lambda>a. a_id a = i) (articles s))),
                             s\<lparr>articles := map (\<lambda>a. if a_id a = i then upd a else a)
                                  (articles s)\<rparr>)))))"

text \<open>
  \<^verbatim>\<open>DELETE FROM articles WHERE id = $1\<close>, with the cascade of
  \<^verbatim>\<open>article_id INTEGER REFERENCES articles(id) ON DELETE CASCADE\<close>: the comments that
  reference a deleted row go with it.
\<close>

definition delete_articles ::
  "(string \<Rightarrow> int option) \<Rightarrow> string \<Rightarrow> store \<Rightarrow> (db_error + unit) \<times> store" where
  "delete_articles int4in p1 s =
     (case integer_param int4in p1 of
        Inl err \<Rightarrow> (Inl err, s)
      | Inr i \<Rightarrow>
          (let deleted = filter (\<lambda>a. a_id a = i) (articles s)
           in (Inr (),
               s\<lparr>articles := filter (\<lambda>a. a_id a \<noteq> i) (articles s),
                 comments := filter (\<lambda>c. case c_article_id c of
                                             None \<Rightarrow> True
                                           | Some k \<Rightarrow> k \<notin> set (map a_id deleted))
                               (comments s)\<rparr>)))"

text \<open>
  \<^verbatim>\<open>INSERT INTO ads (client_name, email, plan, amount, receipt_image, ad_image,
  ad_content, ad_url, ad_headline, ad_content_file) VALUES ($1..$10) RETURNING *\<close>;
  \<^verbatim>\<open>status\<close> and \<^verbatim>\<open>date_submitted\<close> take their defaults. The amount is taken to be a
  number that the \<^verbatim>\<open>NUMERIC\<close> column reads; the row holds what the column made of it.
\<close>

definition insert_ads ::
  "timestamp \<Rightarrow> string option \<Rightarrow> string option \<Rightarrow> string option \<Rightarrow> js_number option \<Rightarrow>
   string option \<Rightarrow> string option \<Rightarrow> string option \<Rightarrow> string option \<Rightarrow> string option \<Rightarrow>
   string option \<Rightarrow> store \<Rightarrow> (db_error + ad_row) \<times> store" where
  "insert_ads now p1 p2 p3 p4 p5 p6 p7 p8 p9 p10 s =
     (if \<not> list_all text_ok [p1, p2, p3, p5, p6, p7, p8, p9, p10] then
        (Inl InvalidByteSequence, s)
      else if int4_max < ads_id_seq s then (Inl (SequenceExhausted ''ads_id_seq''), s)
      else
        (let new_id = ads_id_seq s;
             s1 = s\<lparr>ads_id_seq := new_id + 1\<rparr>
         in case p1 of
              None \<Rightarrow> (Inl (NotNullViolation ''client_name''), s1)
            | Some cn \<Rightarrow>
                (case p2 of
                   None \<Rightarrow> (Inl (NotNullViolation ''email''), s1)
                 | Some em \<Rightarrow>
                     (case p3 of
                        None \<Rightarrow> (Inl (NotNullViolation ''plan''), s1)
                      | Some pl \<Rightarrow>
                          if new_id \<in> set (map d_id (ads s)) then
                            (Inl (UniqueViolation ''ads_pkey''), s1)
                          else
                            (let row = \<lparr>d_id = new_id, d_client_name = cn, d_email = em,
                                        d_plan = pl, d_amount = p4,
                                        d_status = Some ''pending'',
                                        d_date_submitted = Some now, d_receipt_image = p5,
                                        d_ad_image = p6, d_ad_content = p7, d_ad_url = p8,
                                        d_ad_headline = p9, d_ad_content_file = p10\<rparr>
                             in (Inr row, s1\<lparr>ads := ads s @ [row]\<rparr>))))))"

text \<open>\<^verbatim>\<open>SELECT * FROM ads WHERE status = 'active'\<close> and
  \<^verbatim>\<open>SELECT * FROM ads ORDER BY date_submitted DESC\<close>\<close>

definition select_ads_active :: "store \<Rightarrow> ad_row list" where
  "select_ads_active s = filter (\<lambda>d. d_status d = Some ''active'') (ads s)"

definition select_ads_all :: "store \<Rightarrow> ad_row list" where
  "select_ads_all s = order_by_desc d_date_submitted (ads s)"

text \<open>\<^verbatim>\<open>UPDATE ads SET status = 'active' WHERE id = $1 RETURNING *\<close>\<close>

definition update_ads_approve ::
  "(string \<Rightarrow> int option) \<Rightarrow> string \<Rightarrow> store \<Rightarrow> (db_error + ad_row list) \<times> store" where
  "update_ads_approve int4in p1 s =
     (case integer_param int4in p1 of
        Inl err \<Rightarrow> (Inl err, s)
      | Inr i \<Rightarrow>
          (Inr (map (\<lambda>d. d\<lparr>d_status := Some ''active''\<rparr>) (filter (\<lambda>d. d_id d = i) (ads s))),
           s\<lparr>ads := map (\<lambda>d. if d_id d = i then d\<lparr>d_status := Some ''active''\<rparr> else d)
                (ads s)\<rparr>))"

text \<open>\<^verbatim>\<open>DELETE FROM ads WHERE id = $1\<close>\<close>

definition delete_ads ::
  "(string \<Rightarrow> int option) \<Rightarrow> string \<Rightarrow> store \<Rightarrow> (db_error + unit) \<times> store" where
  "delete_ads int4in p1 s =
     (case integer_param int4in p1 of
        Inl err \<Rightarrow> (Inl err, s)
      | Inr i \<Rightarrow> (Inr (), s\<lparr>ads := filter (\<lambda>d. d_id d \<noteq> i) (ads s)\<rparr>))"

text \<open>
  \<^verbatim>\<open>INSERT INTO comments (article_id, author, email, content) VALUES ($1..$4)
  RETURNING *\<close>. An \<^verbatim>\<open>articleId\<close> outside the range of \<^verbatim>\<open>INTEGER\<close> is refused as a
  parameter; the foreign key is checked on a non-null \<^verbatim>\<open>article_id\<close> only.
\<close>

definition insert_comments ::
  "timestamp \<Rightarrow> int option \<Rightarrow> string option \<Rightarrow> string option \<Rightarrow> string option \<Rightarrow> store \<Rightarrow>
   (db_error + comment_row) \<times> store" where
  "insert_comments now p1 p2 p3 p4 s =
     (if (case p1 of None \<Rightarrow> False | Some k \<Rightarrow> k < int4_min \<or> int4_max < k) then
        (Inl InvalidInteger, s)
      else if \<not> list_all text_ok [p2, p3, p4] then (Inl InvalidByteSequence, s)
      else if int4_max < comments_id_seq s then
        (Inl (SequenceExhausted ''comments_id_seq''), s)
      else
        (let new_id = comments_id_seq s;
             s1 = s\<lparr>comments_id_seq := new_id + 1\<rparr>
         in case p2 of
              None \<Rightarrow> (Inl (NotNullViolation ''author''), s1)
            | Some au \<Rightarrow>
                (case p3 of
                   None \<Rightarrow> (Inl (NotNullViolation ''email''), s1)
                 | Some em \<Rightarrow>
                     (case p4 of
                        None \<Rightarrow> (Inl (NotNullViolation ''content''), s1)
                      | Some co \<Rightarrow>
                          if new_id \<in> set (map c_id (comments s)) then
                            (Inl (UniqueViolation ''comments_pkey''), s1)
                          else if (case p1 of None \<Rightarrow> True
                                   | Some k \<Rightarrow> k \<in> set (map a_id (articles s))) then
                            (let row = \<lparr>c_id = new_id, c_article_id = p1, c_author = au,
                                        c_email = em, c_content = co, c_date = Some now\<rparr>
                             in (Inr row, s1\<lparr>comments := comments s @ [row]\<rparr>))
                          else
                            (Inl (ForeignKeyViolation ''comments_article_id_fkey''), s1)))))"

text \<open>\<^verbatim>\<open>SELECT * FROM comments WHERE article_id = $1 ORDER BY date DESC\<close>\<close>

definition select_comments ::
  "(string \<Rightarrow> int option) \<Rightarrow> string \<Rightarrow> store \<Rightarrow> db_error + comment_row list" where
  "select_comments int4in p1 s =
     (case integer_param int4in p1 of
        Inl err \<Rightarrow> Inl err
      | Inr i \<Rightarrow>
          Inr (order_by_desc c_date (filter (\<lambda>c. c_article_id c = Some i) (comments s))))"

text \<open>
  \<^verbatim>\<open>INSERT INTO support_messages (name, email, subject, message) VALUES ($1..$4)\<close>:
  no \<^verbatim>\<open>RETURNING\<close>, so the statement yields no row.
\<close>

definition insert_support_messages ::
  "timestamp \<Rightarrow> string option \<Rightarrow> string option \<Rightarrow> string option \<Rightarrow> string option \<Rightarrow> store \<Rightarrow>
   (db_error + unit) \<times> store" where
  "insert_support_messages now p1 p2 p3 p4 s =
     (if \<not> list_all text_ok [p1, p2, p3, p4] then (Inl InvalidByteSequence, s)
      else if int4_max < support_messages_id_seq s then
        (Inl (SequenceExhausted ''support_messages_id_seq''), s)
      else
        (let new_id = support_messages_id_seq s;
             s1 = s\<lparr>support_messages_id_seq := new_id + 1\<rparr>
         in case p1 of
              None \<Rightarrow> (Inl (NotNullViolation ''name''), s1)
            | Some nm \<Rightarrow>
                (case p2 of
                   None \<Rightarrow> (Inl (NotNullViolation ''email''), s1)
                 | Some em \<Rightarrow>
                     (case p4 of
                        None \<Rightarrow> (Inl (NotNullViolation ''message''), s1)
                      | Some msg \<Rightarrow>
                          if new_id \<in> set (map m_id (support_messages s)) then
                            (Inl (UniqueViolation ''support_messages_pkey''), s1)
                          else
                            (let row = \<lparr>m_id = new_id, m_name = nm, m_email = em,
                                        m_subject = p3, m_message = msg, m_date = Some now,
                                        m_status = Some ''unread''\<rparr>
                             in (Inr (),
                                 s1\<lparr>support_messages := support_messages s @ [row]\<rparr>))))))"

text \<open>\<^verbatim>\<open>SELECT * FROM support_messages ORDER BY date DESC\<close>\<close>

definition select_support_messages :: "store \<Rightarrow> support_row list" where
  "select_support_messages s = order_by_desc m_date (support_messages s)"

section \<open>The route handlers\<close>

text \<open>
  A handler wrapped in \<^verbatim>\<open>asyncHandler\<close> passes a failed query to the global error
  handler, which answers 500 with the error's message; the handlers with their own
  \<^verbatim>\<open>try/catch\<close> answer 500 or 400 as written. \<^verbatim>\<open>res.json\<close> without \<^verbatim>\<open>res.status\<close>
  answers 200. The argument \<open>id'\<close> of a handler is \<^verbatim>\<open>req.params.id\<close>.
\<close>

definition respond :: "nat \<Rightarrow> payload \<Rightarrow> response" where
  "respond c p = \<lparr>status_code = c, json = p\<rparr>"

text \<open>1. \<^verbatim>\<open>GET /api/articles\<close>\<close>

definition get_articles :: "store \<Rightarrow> response \<times> store" where
  "get_articles s = (respond 200 (ArticleRows (select_articles_published s)), s)"

text \<open>2. \<^verbatim>\<open>POST /api/articles\<close>\<close>

definition post_articles :: "timestamp \<Rightarrow> body \<Rightarrow> store \<Rightarrow> response \<times> store" where
  "post_articles now b s =
     (if \<not> truthy (title b) \<or> \<not> truthy (category b) \<or> \<not> truthy (content b) then
        (respond 400 (Message ''Title, category, and content are required''), s)
      else
        (let finalStatus = or_default (status b) ''pending''
         in case insert_articles now (title b) (Some (or_default (subHeadline b) ''''))
                   (category b) (Some (or_default (author b) ''Citizen Reporter''))
                   (image' b) (excerpt b) (content b) (Some finalStatus) s of
              (Inl err, s') \<Rightarrow> (respond 500 (DbError err), s')
            | (Inr row, s') \<Rightarrow> (respond 201 (ArticleRow row), s')))"

text \<open>3. \<^verbatim>\<open>GET /api/admin/pending-articles\<close>\<close>

definition get_pending_articles :: "store \<Rightarrow> response \<times> store" where
  "get_pending_articles s = (respond 200 (ArticleRows (select_articles_pending s)), s)"

text \<open>4. \<^verbatim>\<open>PATCH /api/admin/articles/:id/approve\<close>\<close>

definition approve_article ::
  "(string \<Rightarrow> int option) \<Rightarrow> timestamp \<Rightarrow> string \<Rightarrow> body \<Rightarrow> store \<Rightarrow> response \<times> store" where
  "approve_article int4in now id' b s =
     (case update_articles_approve int4in now (or_false (isBreaking b)) id' s of
        (Inl err, s') \<Rightarrow> (respond 500 (DbError err), s')
      | (Inr [], s') \<Rightarrow> (respond 404 (Message ''Article not found''), s')
      | (Inr (row # rest), s') \<Rightarrow> (respond 200 (ArticleRow row), s'))"

text \<open>5. \<^verbatim>\<open>PUT /api/articles/:id\<close>\<close>

definition put_article ::
  "(string \<Rightarrow> int option) \<Rightarrow> string \<Rightarrow> body \<Rightarrow> store \<Rightarrow> response \<times> store" where
  "put_article int4in id' b s =
     (case update_articles_fields int4in (title b) (subHeadline b) (category b) (author b)
             (image' b) (content b) (isBreaking b) id' s of
        (Inl err, s') \<Rightarrow> (respond 500 (DbError err), s')
      | (Inr [], s') \<Rightarrow> (respond 404 (Message ''Article not found''), s')
      | (Inr (row # rest), s') \<Rightarrow> (respond 200 (ArticleRow row), s'))"

text \<open>6. \<^verbatim>\<open>DELETE /api/articles/:id\<close>\<close>

definition delete_article ::
  "(string \<Rightarrow> int option) \<Rightarrow> string \<Rightarrow> store \<Rightarrow> response \<times> store" where
  "delete_article int4in id' s =
     (case delete_articles int4in id' s of
        (Inl err, s') \<Rightarrow> (respond 500 (DbError err), s')
      | (Inr u, s') \<Rightarrow> (respond 200 (Message ''Article deleted successfully''), s'))"

text \<open>7. \<^verbatim>\<open>POST /api/ads\<close>\<close>

definition post_ads :: "timestamp \<Rightarrow> body \<Rightarrow> store \<Rightarrow> response \<times> store" where
  "post_ads now b s =
     (if \<not> truthy (clientName b) \<or> \<not> truthy (email b) \<or> \<not> truthy (plan b) then
        (respond 400 (Message ''Client name, email, and plan are required''), s)
      else
        (case insert_ads now (clientName b) (email b) (plan b) (amount b) (receiptImage b)
                (adImage b) (adContent b) (adUrl b) (adHeadline b) (adContentFile b) s of
           (Inl err, s') \<Rightarrow> (respond 500 (DbError err), s')
         | (Inr row, s') \<Rightarrow> (respond 201 (AdRow row), s')))"

text \<open>8. \<^verbatim>\<open>GET /api/ads/active\<close> and 8b. \<^verbatim>\<open>GET /api/admin/ads\<close>\<close>

definition mapAd :: "ad_row \<Rightarrow> ad_view" where
  "mapAd ad =
     \<lparr>v_id = d_id ad, v_clientName = d_client_name ad, v_email = d_email ad,
      v_plan = d_plan ad, v_amount = d_amount ad, v_status = d_status ad,
      v_dateSubmitted = d_date_submitted ad, v_receiptImage = d_receipt_image ad,
      v_adImage = d_ad_image ad, v_adContent = d_ad_content ad, v_adUrl = d_ad_url ad,
      v_adHeadline = d_ad_headline ad, v_adContentFile = d_ad_content_file ad\<rparr>"

definition get_active_ads :: "store \<Rightarrow> response \<times> store" where
  "get_active_ads s = (respond 200 (AdViews (map mapAd (select_ads_active s))), s)"

definition get_admin_ads :: "store \<Rightarrow> response \<times> store" where
  "get_admin_ads s = (respond 200 (AdViews (map mapAd (select_ads_all s))), s)"

text \<open>9. \<^verbatim>\<open>PATCH /api/admin/ads/:id/approve\<close>\<close>

definition approve_ad ::
  "(string \<Rightarrow> int option) \<Rightarrow> string \<Rightarrow> store \<Rightarrow> response \<times> store" where
  "approve_ad int4in id' s =
     (case update_ads_approve int4in id' s of
        (Inl err, s') \<Rightarrow> (respond 500 (DbError err), s')
      | (Inr [], s') \<Rightarrow> (respond 404 (Message ''Ad not found''), s')
      | (Inr (row # rest), s') \<Rightarrow> (respond 200 (AdRow row), s'))"

text \<open>9b. \<^verbatim>\<open>DELETE /api/ads/:id\<close>\<close>

definition delete_ad ::
  "(string \<Rightarrow> int option) \<Rightarrow> string \<Rightarrow> store \<Rightarrow> response \<times> store" where
  "delete_ad int4in id' s =
     (case delete_ads int4in id' s of
        (Inl err, s') \<Rightarrow> (respond 500 (DbError err), s')
      | (Inr u, s') \<Rightarrow> (respond 200 (Message ''Ad deleted successfully''), s'))"

text \<open>10. \<^verbatim>\<open>POST /api/comments\<close>\<close>

definition post_comments :: "timestamp \<Rightarrow> body \<Rightarrow> store \<Rightarrow> response \<times> store" where
  "post_comments now b s =
     (case insert_comments now (articleId b) (author b) (email b) (content b) s of
        (Inl err, s') \<Rightarrow> (respond 400 (DbError err), s')
      | (Inr row, s') \<Rightarrow> (respond 201 (CommentRow row), s'))"

text \<open>11. \<^verbatim>\<open>GET /api/articles/:id/comments\<close>\<close>

definition mapComment :: "comment_row \<Rightarrow> comment_view" where
  "mapComment c =
     \<lparr>w_id = c_id c, w_articleId = c_article_id c, w_author = c_author c,
      w_email = c_email c, w_content = c_content c, w_date = c_date c\<rparr>"

definition get_comments ::
  "(string \<Rightarrow> int option) \<Rightarrow> string \<Rightarrow> store \<Rightarrow> response \<times> store" where
  "get_comments int4in id' s =
     (case select_comments int4in id' s of
        Inl err \<Rightarrow> (respond 500 (DbError err), s)
      | Inr rows \<Rightarrow> (respond 200 (CommentViews (map mapComment rows)), s))"

text \<open>12. \<^verbatim>\<open>POST /api/support\<close>\<close>

definition post_support :: "timestamp \<Rightarrow> body \<Rightarrow> store \<Rightarrow> response \<times> store" where
  "post_support now b s =
     (case insert_support_messages now (name b) (email b) (subject b) (message b) s of
        (Inl err, s') \<Rightarrow> (respond 400 (DbError err), s')
      | (Inr u, s') \<Rightarrow> (respond 201 (Message ''Support message sent''), s'))"

text \<open>13. \<^verbatim>\<open>GET /api/admin/support\<close>\<close>

definition get_support :: "store \<Rightarrow> response \<times> store" where
  "get_support s = (respond 200 (SupportRows (select_support_messages s)), s)"

section \<open>The API as a transition system\<close>

datatype api_call =
    GetArticles
  | PostArticles body
  | GetPendingArticles
  | ApproveArticle string body
  | PutArticle string body
  | DeleteArticle string
  | PostAds body
  | GetActiveAds
  | GetAdminAds
  | ApproveAd string
  | DeleteAd string
  | PostComments body
  | GetComments string
  | PostSupport body
  | GetSupport

text \<open>One request, served at server time \<open>now\<close>.\<close>

fun api_step ::
  "(string \<Rightarrow> int option) \<Rightarrow> timestamp \<times> api_call \<Rightarrow> store \<Rightarrow> response \<times> store" where
  "api_step int4in (now, GetArticles) s = get_articles s"
| "api_step int4in (now, PostArticles b) s = post_articles now b s"
| "api_step int4in (now, GetPendingArticles) s = get_pending_articles s"
| "api_step int4in (now, ApproveArticle id' b) s = approve_article int4in now id' b s"
| "api_step int4in (now, PutArticle id' b) s = put_article int4in id' b s"
| "api_step int4in (now, DeleteArticle id') s = delete_article int4in id' s"
| "api_step int4in (now, PostAds b) s = post_ads now b s"
| "api_step int4in (now, GetActiveAds) s = get_active_ads s"
| "api_step int4in (now, GetAdminAds) s = get_admin_ads s"
| "api_step int4in (now, ApproveAd id') s = approve_ad int4in id' s"
| "api_step int4in (now, DeleteAd id') s = delete_ad int4in id' s"
| "api_step int4in (now, PostComments b) s = post_comments now b s"
| "api_step int4in (now, GetComments id') s = get_comments int4in id' s"
| "api_step int4in (now, PostSupport b) s = post_support now b s"
| "api_step int4in (now, GetSupport) s = get_support s"

text \<open>A sequence of requests, served one after the other.\<close>

fun api_run ::
  "(string \<Rightarrow> int option) \<Rightarrow> (timestamp \<times> api_call) list \<Rightarrow> store \<Rightarrow> store" where
  "api_run int4in [] s = s"
| "api_run int4in (c # cs) s = api_run int4in cs (snd (api_step int4in c s))"

section \<open>Schema invariants and sample data\<close>

text \<open>
  The foreign key of \<^verbatim>\<open>comments.article_id\<close>: a comment with a non-null \<^verbatim>\<open>article_id\<close>
  references a stored article. PostgreSQL keeps this in every state of the store.
\<close>

definition comments_fk :: "store \<Rightarrow> bool" where
  "comments_fk s =
     list_all (\<lambda>c. case c_article_id c of
                      None \<Rightarrow> True
                    | Some k \<Rightarrow> k \<in> set (map a_id (articles s)))
       (comments s)"

text \<open>
  The sequences of \<^verbatim>\<open>articles.id\<close> and \<^verbatim>\<open>ads.id\<close> are ahead of every stored id, as
  they are when ids are only ever assigned by the store.
\<close>

definition seqs_ahead :: "store \<Rightarrow> bool" where
  "seqs_ahead s =
     (list_all (\<lambda>a. a_id a < articles_id_seq s) (articles s) \<and>
      list_all (\<lambda>d. d_id d < ads_id_seq s) (ads s))"

text \<open>
  An ad that \<^verbatim>\<open>POST /api/ads\<close> has created is pending, and approval makes it active:
  the store holds no ad of another status unless it was put there from outside.
\<close>

definition ads_ok :: "store \<Rightarrow> bool" where
  "ads_ok s =
     list_all (\<lambda>d. d_status d = Some ''pending'' \<or> d_status d = Some ''active'') (ads s)"

text \<open>The status of the article, or of the ad, with a given id (\<open>None\<close>: no such row).\<close>

definition article_status :: "int \<Rightarrow> store \<Rightarrow> string option option" where
  "article_status i s = map_option a_status (find (\<lambda>a. a_id a = i) (articles s))"

definition ad_status :: "int \<Rightarrow> store \<Rightarrow> string option option" where
  "ad_status i s = map_option d_status (find (\<lambda>d. d_id d = i) (ads s))"

text \<open>
  The decimal integers as PostgreSQL reads them: white space, an optional sign, digits,
  white space, and a value in the range of \<^verbatim>\<open>INTEGER\<close>. The examples below read path
  parameters with it.
\<close>

definition digit_of :: "char \<Rightarrow> nat option" where
  "digit_of =
     map_of [(CHR ''0'', 0), (CHR ''1'', 1), (CHR ''2'', 2), (CHR ''3'', 3), (CHR ''4'', 4),
             (CHR ''5'', 5), (CHR ''6'', 6), (CHR ''7'', 7), (CHR ''8'', 8), (CHR ''9'', 9)]"

fun digits_value :: "nat \<Rightarrow> string \<Rightarrow> nat option" where
  "digits_value acc [] = Some acc"
| "digits_value acc (c # cs) =
     (case digit_of c of None \<Rightarrow> None | Some d \<Rightarrow> digits_value (10 * acc + d) cs)"

definition decimal_int4in :: "string \<Rightarrow> int option" where
  "decimal_int4in x =
     (let w = trim x;
          ds = (if take 1 w = ''-'' \<or> take 1 w = ''+'' then drop 1 w else w)
      in if ds = [] then None
         else case digits_value 0 ds of
                None \<Rightarrow> None
              | Some n \<Rightarrow>
                  (let v = (if take 1 w = ''-'' then - int n else int n)
                   in if int4_min \<le> v \<and> v \<le> int4_max then Some v else None))"

definition empty_body :: body where
  "empty_body =
     \<lparr>title = None, subHeadline = None, category = None, author = None, image' = None,
      excerpt = None, content = None, status = None, isBreaking = JUndefined, clientName = None,
      email = None, plan = None, amount = None, receiptImage = None, adImage = None,
      adContent = None, adUrl = None, adHeadline = None, adContentFile = None,
      articleId = None, name = None, subject = None, message = None\<rparr>"

text \<open>The store after \<^verbatim>\<open>initDb\<close> on a fresh database.\<close>

definition empty_store :: store where
  "empty_store =
     \<lparr>articles = [], articles_id_seq = 1, ads = [], ads_id_seq = 1, comments = [],
      comments_id_seq = 1, support_messages = [], support_messages_id_seq = 1\<rparr>"

text \<open>A row whose \<^verbatim>\<open>status\<close> is \<^verbatim>\<open>NULL\<close>, which the \<^verbatim>\<open>CHECK\<close> constraint admits.\<close>

definition legacy_article :: article_row where
  "legacy_article =
     \<lparr>a_id = 1, a_title = ''Old story'', a_category = ''News'',
      a_author = Some ''Citizen Reporter'', a_date = Some 100, a_image = None,
      a_excerpt = None, a_content = Some ''Text'', a_views = Some 0, a_status = None,
      a_is_breaking = Some False, a_sub_headline = None\<rparr>"

definition legacy_store :: store where
  "legacy_store = empty_store\<lparr>articles := [legacy_article], articles_id_seq := 2\<rparr>"

definition article_one :: article_row where
  "article_one =
     \<lparr>a_id = 1, a_title = ''Flood'', a_category = ''News'',
      a_author = Some ''Citizen Reporter'', a_date = Some 100, a_image = None,
      a_excerpt = None, a_content = Some ''Water'', a_views = Some 0,
      a_status = Some ''pending'', a_is_breaking = Some False, a_sub_headline = Some ''''\<rparr>"

definition article_two :: article_row where
  "article_two =
     \<lparr>a_id = 2, a_title = ''Market'', a_category = ''Business'',
      a_author = Some ''Desk'', a_date = Some 200, a_image = None,
      a_excerpt = Some ''Prices'', a_content = Some ''Prices rise'', a_views = Some 7,
      a_status = Some ''published'', a_is_breaking = Some False, a_sub_headline = Some ''''\<rparr>"

definition comment_one :: comment_row where
  "comment_one =
     \<lparr>c_id = 1, c_article_id = Some 1, c_author = ''Ann'', c_email = ''ann@example.org'',
      c_content = ''Stay safe'', c_date = Some 150\<rparr>"

definition ad_one :: ad_row where
  "ad_one =
     \<lparr>d_id = 1, d_client_name = ''Acme'', d_email = ''ads@acme.example'', d_plan = ''weekly'',
      d_amount = None, d_status = Some ''pending'', d_date_submitted = Some 120,
      d_receipt_image = None, d_ad_image = None, d_ad_content = None, d_ad_url = None,
      d_ad_headline = None, d_ad_content_file = None\<rparr>"

definition demo_store :: store where
  "demo_store =
     \<lparr>articles = [article_one, article_two], articles_id_seq = 3, ads = [ad_one],
      ads_id_seq = 2, comments = [comment_one], comments_id_seq = 2,
      support_messages = [], support_messages_id_seq = 1\<rparr>"

text \<open>Request bodies. The first is the example of the specification.\<close>

definition article_submission :: body where
  "article_submission =
     empty_body\<lparr>title := Some ''T'', category := Some ''News'', content := Some ''C''\<rparr>"

definition archived_submission :: body where
  "archived_submission = article_submission\<lparr>status := Some ''archived''\<rparr>"

definition rejected_submission :: body where
  "rejected_submission = article_submission\<lparr>status := Some ''rejected''\<rparr>"

definition untitled_submission :: body where
  "untitled_submission = article_submission\<lparr>title := Some ''''\<rparr>"

definition article_update :: body where
  "article_update =
     empty_body\<lparr>title := Some ''Flood update'', category := Some ''News'',
       content := Some ''Water recedes'', isBreaking := JBool True\<rparr>"

definition update_without_title :: body where
  "update_without_title = article_update\<lparr>title := None\<rparr>"

definition ad_submission :: body where
  "ad_submission =
     empty_body\<lparr>clientName := Some ''Acme'', email := Some ''ads@acme.example'',
       plan := Some ''weekly''\<rparr>"

definition ad_without_plan :: body where
  "ad_without_plan = ad_submission\<lparr>plan := None\<rparr>"

definition ad_with_empty_plan :: body where
  "ad_with_empty_plan = ad_submission\<lparr>plan := Some ''''\<rparr>"

definition comment_submission :: body where
  "comment_submission =
     empty_body\<lparr>articleId := Some 1, author := Some ''Ann'', email := Some ''ann@example.org'',
       content := Some ''Stay safe''\<rparr>"

definition support_submission :: body where
  "support_submission =
     empty_body\<lparr>name := Some ''Bob'', email := Some ''bob@example.org'',
       message := Some ''Help''\<rparr>"

definition unreadable_flag :: body where
  "unreadable_flag = empty_body\<lparr>isBreaking := JStr ''maybe''\<rparr>"

definition breaking_flag :: body where
  "breaking_flag = empty_body\<lparr>isBreaking := JBool True\<rparr>"

definition orphan_comment :: body where
  "orphan_comment =
     empty_body\<lparr>author := Some ''Ann'', email := Some ''ann@example.org'',
       content := Some ''Stay safe''\<rparr>"

definition nul_title_submission :: body where
  "nul_title_submission = article_submission\<lparr>title := Some [CHR ''T'', CHR 0x00]\<rparr>"

definition nul_title_update :: body where
  "nul_title_update = article_update\<lparr>title := Some [CHR ''T'', CHR 0x00]\<rparr>"

section \<open>Sorting and list facts\<close>

lemma desc_le_total: "desc_le a b \<or> desc_le b a"
  by (auto simp: desc_le_def split: option.splits)

lemma desc_le_trans: "desc_le a b \<Longrightarrow> desc_le b c \<Longrightarrow> desc_le a c"
  by (auto simp: desc_le_def split: option.splits)

lemma mset_insert_desc: "mset (insert_desc key x xs) = add_mset x (mset xs)"
  by (induction xs) auto

lemma mset_order_by_desc: "mset (order_by_desc key xs) = mset xs"
  by (induction xs) (auto simp: order_by_desc_def mset_insert_desc)

lemma set_insert_desc: "set (insert_desc key x xs) = insert x (set xs)"
  by (induction xs) auto

lemma set_order_by_desc: "set (order_by_desc key xs) = set xs"
  by (induction xs) (auto simp: order_by_desc_def set_insert_desc)

lemma sorted_insert_desc:
  "sorted_wrt (\<lambda>a b. desc_le (key a) (key b)) xs \<Longrightarrow>
   sorted_wrt (\<lambda>a b. desc_le (key a) (key b)) (insert_desc key x xs)"
proof (induction xs)
  case Nil
  then show ?case by simp
next
  case (Cons y ys)
  show ?case
  proof (cases "desc_le (key x) (key y)")
    case True
    with Cons.prems show ?thesis
      by (auto intro: desc_le_trans)
  next
    case False
    then have "desc_le (key y) (key x)"
      using desc_le_total by blast
    with False Cons show ?thesis
      by (auto simp: set_insert_desc)
  qed
qed

lemma sorted_order_by_desc:
  "sorted_wrt (\<lambda>a b. desc_le (key a) (key b)) (order_by_desc key xs)"
proof (induction xs)
  case Nil
  show ?case by (simp add: order_by_desc_def)
next
  case (Cons x xs)
  then show ?case
    using sorted_insert_desc [of key "order_by_desc key xs" x]
    by (simp add: order_by_desc_def)
qed

lemmas sample_defs =
  empty_body_def empty_store_def legacy_article_def legacy_store_def article_one_def
  article_two_def comment_one_def ad_one_def demo_store_def article_submission_def
  archived_submission_def rejected_submission_def untitled_submission_def
  article_update_def update_without_title_def ad_submission_def ad_without_plan_def
  ad_with_empty_plan_def comment_submission_def support_submission_def
  unreadable_flag_def breaking_flag_def orphan_comment_def nul_title_submission_def
  nul_title_update_def

lemmas param_defs =
  text_ok_def int4_max_def int4_min_def boolean_param_def or_false_def js_truthy_def

lemma sample_ids:
  "integer_param decimal_int4in ''1'' = Inr 1"
  "integer_param decimal_int4in ''9'' = Inr 9"
  "integer_param decimal_int4in ''abc'' = Inl InvalidInteger"
  "integer_param decimal_int4in ''2147483648'' = Inl InvalidInteger"
  by (simp_all add: integer_param_def decimal_int4in_def digit_of_def trim_def is_space_def
      int4_min_def int4_max_def Let_def)

lemma sample_flags:
  "boolean_param (JStr ''maybe'') = Inl InvalidBoolean"
  "boolean_param (JStr ''t'') = Inr (Some True)"
  "boolean_param (JStr '' OFF '') = Inr (Some False)"
  "boolean_param (JStr ''o'') = Inl InvalidBoolean"
  by (simp_all add: boolean_param_def boolin_def leading_part_def trim_def is_space_def
      fold_case_def Let_def)


lemma filter_Cons_props: "filter P xs = y # ys \<Longrightarrow> y \<in> set xs \<and> P y"
proof -
  assume "filter P xs = y # ys"
  then have "y \<in> set (filter P xs)" by simp
  then show ?thesis by simp
qed

lemma filter_key_empty:
  "i \<notin> set (map g xs) \<Longrightarrow> filter (\<lambda>a. g a = i) xs = []"
  by (induction xs) auto

lemma filter_key_nonempty:
  "i \<in> set (map g xs) \<Longrightarrow> filter (\<lambda>a. g a = i) xs \<noteq> []"
  by (induction xs) auto

lemma map_upd_absent:
  "i \<notin> set (map g xs) \<Longrightarrow> map (\<lambda>a. if g a = i then f a else a) xs = xs"
  by (induction xs) auto

lemma filter_other_map_upd:
  assumes "\<And>a. g (f a) = g a"
  shows "filter (\<lambda>a. g a \<noteq> i) (map (\<lambda>a. if g a = i then f a else a) xs) =
         filter (\<lambda>a. g a \<noteq> i) xs"
  by (induction xs) (auto simp: assms)

lemma map_upd_ball:
  assumes "\<And>a. g (f a) = g a" "\<And>a. Q (f a)"
  shows "\<forall>a' \<in> set (map (\<lambda>a. if g a = i then f a else a) xs). g a' = i \<longrightarrow> Q a'"
  by (induction xs) (auto simp: assms)

lemma map_upd_mem:
  "a \<in> set xs \<Longrightarrow> g a = i \<Longrightarrow> f a \<in> set (map (\<lambda>a. if g a = i then f a else a) xs)"
  by (induction xs) auto


lemma map_key_map_upd:
  assumes "\<And>a. g (f a) = g a"
  shows "map g (map (\<lambda>a. if g a = i then f a else a) xs) = map g xs"
  by (induction xs) (auto simp: assms)

lemma find_append_fresh:
  "g row \<noteq> i \<Longrightarrow> find (\<lambda>a. g a = i) (xs @ [row]) = find (\<lambda>a. g a = i) xs"
  by (induction xs) auto

lemma find_map_upd:
  assumes "\<And>a. g (f a) = g a"
  shows "find (\<lambda>a. g a = i) (map (\<lambda>a. if g a = j then f a else a) xs) =
         map_option (\<lambda>a. if g a = j then f a else a) (find (\<lambda>a. g a = i) xs)"
  by (induction xs) (auto simp: assms)

lemma find_filter_other:
  "find (\<lambda>a. g a = i) (filter (\<lambda>a. g a \<noteq> j) xs) =
     (if i = j then None else find (\<lambda>a. g a = i) xs)"
  by (induction xs) auto

lemma find_Some_key: "find (\<lambda>a. g a = i) xs = Some a \<Longrightarrow> a \<in> set xs \<and> g a = i"
  by (induction xs) (auto split: if_splits)

lemma track_map_upd:
  assumes "\<And>a. g (f a) = g a" and "\<And>a. h (f a) = h a \<or> h (f a) = v"
  shows "map_option h (find (\<lambda>a. g a = i) (map (\<lambda>a. if g a = j then f a else a) xs)) =
           map_option h (find (\<lambda>a. g a = i) xs) \<or>
         map_option h (find (\<lambda>a. g a = i) (map (\<lambda>a. if g a = j then f a else a) xs)) =
           Some v"
proof (cases "find (\<lambda>a. g a = i) xs")
  case None
  then show ?thesis by (simp add: find_map_upd assms(1))
next
  case (Some a)
  then show ?thesis
    using assms(2) [of a] by (auto simp: find_map_upd assms(1))
qed

lemma bound_map_upd:
  assumes "\<And>a. g (f a) = g a"
  shows "list_all (\<lambda>a. g a < (n::int)) (map (\<lambda>a. if g a = j then f a else a) xs) =
         list_all (\<lambda>a. g a < n) xs"
  by (induction xs) (auto simp: assms)

lemma bound_filter:
  "list_all (\<lambda>a. g a < (n::int)) xs \<Longrightarrow> list_all (\<lambda>a. g a < n) (filter P xs)"
  by (induction xs) auto

lemma bound_mono:
  "list_all (\<lambda>a. g a < (n::int)) xs \<Longrightarrow> n \<le> m \<Longrightarrow> list_all (\<lambda>a. g a < m) xs"
  by (induction xs) auto

lemma fk_list_iff:
  "list_all (\<lambda>c. case r c of None \<Rightarrow> True | Some k \<Rightarrow> k \<in> K) cs \<longleftrightarrow>
   (\<forall>c \<in> set cs. \<forall>k. r c = Some k \<longrightarrow> k \<in> K)"
  by (auto simp: list_all_iff split: option.splits)

lemma fk_list_mono:
  "list_all (\<lambda>c. case r c of None \<Rightarrow> True | Some k \<Rightarrow> k \<in> K) cs \<Longrightarrow> K \<subseteq> K' \<Longrightarrow>
   list_all (\<lambda>c. case r c of None \<Rightarrow> True | Some k \<Rightarrow> k \<in> K') cs"
  by (auto simp: fk_list_iff)

lemma cascade_filter:
  assumes "list_all (\<lambda>c. case r c of None \<Rightarrow> True | Some k \<Rightarrow> k \<in> set (map g xs)) cs"
  shows "filter (\<lambda>c. case r c of None \<Rightarrow> True
                     | Some k \<Rightarrow> k \<notin> set (map g (filter (\<lambda>a. g a = i) xs))) cs =
         filter (\<lambda>c. r c \<noteq> Some i) cs"
proof (rule filter_cong [OF refl])
  fix c assume "c \<in> set cs"
  with assms have in_xs: "\<And>k. r c = Some k \<Longrightarrow> k \<in> g ` set xs"
    by (auto simp: fk_list_iff)
  show "(case r c of None \<Rightarrow> True
         | Some k \<Rightarrow> k \<notin> set (map g (filter (\<lambda>a. g a = i) xs))) = (r c \<noteq> Some i)"
  proof (cases "r c")
    case None
    then show ?thesis by simp
  next
    case (Some k)
    with in_xs [OF Some] show ?thesis by auto
  qed
qed

lemma cascade_keeps_fk:
  assumes "list_all (\<lambda>c. case r c of None \<Rightarrow> True | Some k \<Rightarrow> k \<in> set (map g xs)) cs"
  shows "list_all (\<lambda>c. case r c of None \<Rightarrow> True
                      | Some k \<Rightarrow> k \<in> set (map g (filter (\<lambda>a. g a \<noteq> i) xs)))
           (filter (\<lambda>c. r c \<noteq> Some i) cs)"
  using assms by (auto simp: fk_list_iff)

lemma bound_member: "list_all (\<lambda>a. g a < (n::int)) xs \<Longrightarrow> a \<in> set xs \<Longrightarrow> g a < n"
  by (simp add: list_all_iff)

section \<open>What each handler does to the store\<close>

lemma text_ok_or_default:
  "CHR 0x00 \<notin> set d \<Longrightarrow> text_ok (Some (or_default v d)) = text_ok v"
  by (cases v) (simp_all add: text_ok_def or_default_def)

lemma boolean_param_flag:
  "boolean_param (JBool f) = Inr (Some f)"
  "boolean_param JUndefined = Inr None"
  "boolean_param JNull = Inr None"
  "boolean_param (or_false (JBool f)) = Inr (Some f)"
  "boolean_param (or_false JUndefined) = Inr (Some False)"
  "boolean_param (or_false JNull) = Inr (Some False)"
  by (simp_all add: boolean_param_def or_false_def js_truthy_def)

lemma snd_get_handlers:
  "snd (get_articles s) = s" "snd (get_pending_articles s) = s" "snd (get_active_ads s) = s"
  "snd (get_admin_ads s) = s" "snd (get_comments int4in x s) = s" "snd (get_support s) = s"
  by (simp_all add: get_articles_def get_pending_articles_def get_active_ads_def
      get_admin_ads_def get_comments_def get_support_def split: sum.splits)

lemma post_articles_frame:
  "ads (snd (post_articles now b s)) = ads s"
  "ads_id_seq (snd (post_articles now b s)) = ads_id_seq s"
  "comments (snd (post_articles now b s)) = comments s"
  by (simp_all add: post_articles_def insert_articles_def Let_def split: option.splits)

lemma post_articles_table:
  "(articles (snd (post_articles now b s)) = articles s \<and>
    (articles_id_seq (snd (post_articles now b s)) = articles_id_seq s \<or>
     articles_id_seq (snd (post_articles now b s)) = articles_id_seq s + 1)) \<or>
   (\<exists>row. articles (snd (post_articles now b s)) = articles s @ [row] \<and>
      a_id row = articles_id_seq s \<and>
      articles_id_seq (snd (post_articles now b s)) = articles_id_seq s + 1)"
  by (simp add: post_articles_def insert_articles_def Let_def split: option.splits)

lemma approve_article_frame:
  "articles_id_seq (snd (approve_article int4in now x b s)) = articles_id_seq s"
  "ads (snd (approve_article int4in now x b s)) = ads s"
  "ads_id_seq (snd (approve_article int4in now x b s)) = ads_id_seq s"
  "comments (snd (approve_article int4in now x b s)) = comments s"
  by (simp_all add: approve_article_def update_articles_approve_def
      split: sum.splits list.splits)

lemma approve_article_table:
  "articles (snd (approve_article int4in now x b s)) = articles s \<or>
   (\<exists>flag i. boolean_param (or_false (isBreaking b)) = Inr flag \<and>
      integer_param int4in x = Inr i \<and>
      articles (snd (approve_article int4in now x b s)) =
        map (\<lambda>a. if a_id a = i then approve_row flag now a else a) (articles s))"
  by (cases "boolean_param (or_false (isBreaking b))"; cases "integer_param int4in x")
    (simp_all add: approve_article_def update_articles_approve_def split: list.splits)

lemma update_articles_fields_store:
  "snd (update_articles_fields int4in p1 p2 p3 p4 p5 p6 p7 p8 s) = s \<or>
   (\<exists>t c flag i. p1 = Some t \<and> p3 = Some c \<and> boolean_param p7 = Inr flag \<and>
      integer_param int4in p8 = Inr i \<and>
      snd (update_articles_fields int4in p1 p2 p3 p4 p5 p6 p7 p8 s) =
        s\<lparr>articles :=
             map (\<lambda>a. if a_id a = i
                       then a\<lparr>a_title := t, a_sub_headline := p2, a_category := c,
                              a_author := p4, a_image := p5, a_content := p6,
                              a_is_breaking := flag\<rparr>
                       else a) (articles s)\<rparr>)"
  by (cases p1; cases p3; cases "boolean_param p7"; cases "integer_param int4in p8")
    (simp_all add: update_articles_fields_def)

lemma snd_put_article:
  "snd (put_article int4in x b s) =
     snd (update_articles_fields int4in (title b) (subHeadline b) (category b) (author b)
       (image' b) (content b) (isBreaking b) x s)"
  by (simp add: put_article_def split: prod.splits sum.splits list.splits)

lemma put_article_frame:
  "articles_id_seq (snd (put_article int4in x b s)) = articles_id_seq s"
  "ads (snd (put_article int4in x b s)) = ads s"
  "ads_id_seq (snd (put_article int4in x b s)) = ads_id_seq s"
  "comments (snd (put_article int4in x b s)) = comments s"
  using update_articles_fields_store [of int4in "title b" "subHeadline b" "category b"
      "author b" "image' b" "content b" "isBreaking b" x s]
  unfolding snd_put_article by auto

lemma put_article_table:
  "articles (snd (put_article int4in x b s)) = articles s \<or>
   (\<exists>f i. (\<forall>a. a_id (f a) = a_id a \<and> a_status (f a) = a_status a) \<and>
      articles (snd (put_article int4in x b s)) =
        map (\<lambda>a. if a_id a = i then f a else a) (articles s))"
proof (rule disjE [OF update_articles_fields_store [of int4in "title b" "subHeadline b"
      "category b" "author b" "image' b" "content b" "isBreaking b" x s]])
  assume "snd (update_articles_fields int4in (title b) (subHeadline b) (category b) (author b)
      (image' b) (content b) (isBreaking b) x s) = s"
  then show ?thesis by (simp add: snd_put_article)
next
  assume "\<exists>t c flag i. title b = Some t \<and> category b = Some c \<and>
      boolean_param (isBreaking b) = Inr flag \<and> integer_param int4in x = Inr i \<and>
      snd (update_articles_fields int4in (title b) (subHeadline b) (category b) (author b)
        (image' b) (content b) (isBreaking b) x s) =
        s\<lparr>articles :=
             map (\<lambda>a. if a_id a = i
                       then a\<lparr>a_title := t, a_sub_headline := subHeadline b, a_category := c,
                              a_author := author b, a_image := image' b,
                              a_content := content b, a_is_breaking := flag\<rparr>
                       else a) (articles s)\<rparr>"
  then obtain t c flag i where e:
      "snd (update_articles_fields int4in (title b) (subHeadline b) (category b) (author b)
        (image' b) (content b) (isBreaking b) x s) =
        s\<lparr>articles :=
             map (\<lambda>a. if a_id a = i
                       then a\<lparr>a_title := t, a_sub_headline := subHeadline b, a_category := c,
                              a_author := author b, a_image := image' b,
                              a_content := content b, a_is_breaking := flag\<rparr>
                       else a) (articles s)\<rparr>"
    by blast
  let ?f = "\<lambda>a. a\<lparr>a_title := t, a_sub_headline := subHeadline b, a_category := c,
      a_author := author b, a_image := image' b, a_content := content b,
      a_is_breaking := flag\<rparr>"
  show ?thesis
    by (rule disjI2, rule exI [of _ ?f], rule exI [of _ i]) (simp add: snd_put_article e)
qed

lemma delete_article_frame:
  "articles_id_seq (snd (delete_article int4in x s)) = articles_id_seq s"
  "ads (snd (delete_article int4in x s)) = ads s"
  "ads_id_seq (snd (delete_article int4in x s)) = ads_id_seq s"
  by (simp_all add: delete_article_def delete_articles_def Let_def split: sum.splits)

lemma delete_article_refused:
  "integer_param int4in x = Inl e \<Longrightarrow>
   delete_article int4in x s = (respond 500 (DbError e), s)"
  by (simp add: delete_article_def delete_articles_def)

lemma delete_article_parsed:
  "integer_param int4in x = Inr i \<Longrightarrow>
   delete_article int4in x s =
     (respond 200 (Message ''Article deleted successfully''),
      s\<lparr>articles := filter (\<lambda>a. a_id a \<noteq> i) (articles s),
        comments := filter (\<lambda>c. case c_article_id c of
                                    None \<Rightarrow> True
                                  | Some k \<Rightarrow>
                                      k \<notin> set (map a_id (filter (\<lambda>a. a_id a = i) (articles s))))
                      (comments s)\<rparr>)"
  by (simp add: delete_article_def delete_articles_def Let_def)

lemma delete_article_table:
  "articles (snd (delete_article int4in x s)) = articles s \<or>
   (\<exists>i. integer_param int4in x = Inr i \<and>
      articles (snd (delete_article int4in x s)) =
        filter (\<lambda>a. a_id a \<noteq> i) (articles s))"
  by (cases "integer_param int4in x")
    (simp_all add: delete_article_refused delete_article_parsed)

lemma post_ads_frame:
  "articles (snd (post_ads now b s)) = articles s"
  "articles_id_seq (snd (post_ads now b s)) = articles_id_seq s"
  "comments (snd (post_ads now b s)) = comments s"
  by (simp_all add: post_ads_def insert_ads_def Let_def split: option.splits)

lemma post_ads_table:
  "(ads (snd (post_ads now b s)) = ads s \<and>
    (ads_id_seq (snd (post_ads now b s)) = ads_id_seq s \<or>
     ads_id_seq (snd (post_ads now b s)) = ads_id_seq s + 1)) \<or>
   (\<exists>row. ads (snd (post_ads now b s)) = ads s @ [row] \<and> d_id row = ads_id_seq s \<and>
      d_status row = Some ''pending'' \<and>
      ads_id_seq (snd (post_ads now b s)) = ads_id_seq s + 1)"
  by (simp add: post_ads_def insert_ads_def Let_def split: option.splits)

lemma approve_ad_frame:
  "articles (snd (approve_ad int4in x s)) = articles s"
  "articles_id_seq (snd (approve_ad int4in x s)) = articles_id_seq s"
  "ads_id_seq (snd (approve_ad int4in x s)) = ads_id_seq s"
  "comments (snd (approve_ad int4in x s)) = comments s"
  by (simp_all add: approve_ad_def update_ads_approve_def split: sum.splits list.splits)

lemma approve_ad_table:
  "ads (snd (approve_ad int4in x s)) = ads s \<or>
   (\<exists>i. integer_param int4in x = Inr i \<and>
      ads (snd (approve_ad int4in x s)) =
        map (\<lambda>d. if d_id d = i then d\<lparr>d_status := Some ''active''\<rparr> else d) (ads s))"
  by (cases "integer_param int4in x")
    (simp_all add: approve_ad_def update_ads_approve_def split: list.splits)

lemma delete_ad_frame:
  "articles (snd (delete_ad int4in x s)) = articles s"
  "articles_id_seq (snd (delete_ad int4in x s)) = articles_id_seq s"
  "ads_id_seq (snd (delete_ad int4in x s)) = ads_id_seq s"
  "comments (snd (delete_ad int4in x s)) = comments s"
  by (simp_all add: delete_ad_def delete_ads_def split: sum.splits)

lemma delete_ad_table:
  "ads (snd (delete_ad int4in x s)) = ads s \<or>
   (\<exists>i. integer_param int4in x = Inr i \<and>
      ads (snd (delete_ad int4in x s)) = filter (\<lambda>d. d_id d \<noteq> i) (ads s))"
  by (cases "integer_param int4in x") (simp_all add: delete_ad_def delete_ads_def)

lemma post_comments_frame:
  "articles (snd (post_comments now b s)) = articles s"
  "articles_id_seq (snd (post_comments now b s)) = articles_id_seq s"
  "ads (snd (post_comments now b s)) = ads s"
  "ads_id_seq (snd (post_comments now b s)) = ads_id_seq s"
  by (simp_all add: post_comments_def insert_comments_def Let_def split: option.splits)

lemma post_comments_table:
  "comments (snd (post_comments now b s)) = comments s \<or>
   (\<exists>row. comments (snd (post_comments now b s)) = comments s @ [row] \<and>
      (case c_article_id row of None \<Rightarrow> True
       | Some k \<Rightarrow> k \<in> set (map a_id (articles s))))"
  by (simp add: post_comments_def insert_comments_def Let_def split: option.splits)

lemma post_support_frame:
  "articles (snd (post_support now b s)) = articles s"
  "articles_id_seq (snd (post_support now b s)) = articles_id_seq s"
  "ads (snd (post_support now b s)) = ads s"
  "ads_id_seq (snd (post_support now b s)) = ads_id_seq s"
  "comments (snd (post_support now b s)) = comments s"
  by (simp_all add: post_support_def insert_support_messages_def Let_def split: option.splits)

section \<open>Facts about the handlers\<close>

lemma approve_row_simps:
  "a_id (approve_row p now a) = a_id a"
  "a_status (approve_row p now a) = Some ''published''"
  "a_is_breaking (approve_row p now a) = p"
  "a_date (approve_row p now a) = Some now"
  by (simp_all add: approve_row_def)

lemma approve_article_refused_flag:
  "boolean_param (or_false (isBreaking b)) = Inl e \<Longrightarrow>
   approve_article int4in now x b s = (respond 500 (DbError e), s)"
  by (simp add: approve_article_def update_articles_approve_def)

lemma approve_article_refused_id:
  "boolean_param (or_false (isBreaking b)) = Inr flag \<Longrightarrow> integer_param int4in x = Inl e \<Longrightarrow>
   approve_article int4in now x b s = (respond 500 (DbError e), s)"
  by (simp add: approve_article_def update_articles_approve_def)

lemma approve_article_missing:
  "boolean_param (or_false (isBreaking b)) = Inr flag \<Longrightarrow> integer_param int4in x = Inr i \<Longrightarrow>
   i \<notin> set (map a_id (articles s)) \<Longrightarrow>
   approve_article int4in now x b s = (respond 404 (Message ''Article not found''), s)"
  by (simp add: approve_article_def update_articles_approve_def filter_key_empty map_upd_absent)

lemma approve_article_found:
  assumes "boolean_param (or_false (isBreaking b)) = Inr flag"
    and "integer_param int4in x = Inr i"
    and "filter (\<lambda>a. a_id a = i) (articles s) = a # rest"
  shows "approve_article int4in now x b s =
     (respond 200 (ArticleRow (approve_row flag now a)),
      s\<lparr>articles := map (\<lambda>a. if a_id a = i then approve_row flag now a else a)
           (articles s)\<rparr>)"
  using assms by (simp add: approve_article_def update_articles_approve_def)

lemma truthy_Some: "truthy v \<Longrightarrow> \<exists>x. v = Some x \<and> x \<noteq> []"
  by (cases v) (simp_all add: truthy_def)

lemma or_default_truthy: "truthy v \<Longrightarrow> Some (or_default v d) = v"
  by (cases v) (simp_all add: truthy_def or_default_def)

lemma or_default_falsy: "\<not> truthy v \<Longrightarrow> or_default v d = d"
  by (cases v) (simp_all add: truthy_def or_default_def)

lemma post_articles_invalid:
  "\<not> truthy (title b) \<or> \<not> truthy (category b) \<or> \<not> truthy (content b) \<Longrightarrow>
   post_articles now b s =
     (respond 400 (Message ''Title, category, and content are required''), s)"
  by (simp add: post_articles_def)

lemma post_articles_params:
  "list_all text_ok [title b, Some (or_default (subHeadline b) []), category b,
     Some (or_default (author b) ''Citizen Reporter''), image' b, excerpt b, content b,
     Some (or_default (status b) ''pending'')] =
   list_all text_ok [title b, subHeadline b, category b, author b, image' b, excerpt b,
     content b, status b]"
  by (simp add: text_ok_or_default)

lemma post_articles_created:
  assumes "truthy (title b)" "truthy (category b)" "truthy (content b)"
    and "articles_status_check (Some (or_default (status b) ''pending''))"
    and "articles_id_seq s \<notin> set (map a_id (articles s))"
    and "list_all text_ok [title b, subHeadline b, category b, author b, image' b, excerpt b,
      content b, status b]"
    and "articles_id_seq s \<le> int4_max"
  shows "\<exists>row. post_articles now b s =
      (respond 201 (ArticleRow row),
       s\<lparr>articles_id_seq := articles_id_seq s + 1, articles := articles s @ [row]\<rparr>) \<and>
      a_id row = articles_id_seq s \<and> Some (a_title row) = title b \<and>
      Some (a_category row) = category b \<and> a_content row = content b \<and>
      a_status row = Some (or_default (status b) ''pending'')"
proof -
  obtain t where t: "title b = Some t" using truthy_Some [OF assms(1)] by blast
  obtain c where c: "category b = Some c" using truthy_Some [OF assms(2)] by blast
  define row where "row =
     \<lparr>a_id = articles_id_seq s, a_title = t, a_category = c,
      a_author = Some (or_default (author b) ''Citizen Reporter''), a_date = Some now,
      a_image = image' b, a_excerpt = excerpt b, a_content = content b, a_views = Some 0,
      a_status = Some (or_default (status b) ''pending''), a_is_breaking = Some False,
      a_sub_headline = Some (or_default (subHeadline b) '''')\<rparr>"
  have "post_articles now b s =
      (respond 201 (ArticleRow row),
       s\<lparr>articles_id_seq := articles_id_seq s + 1, articles := articles s @ [row]\<rparr>)"
    using assms
    by (simp add: post_articles_def insert_articles_def Let_def t c row_def text_ok_or_default)
  moreover have "a_id row = articles_id_seq s" "Some (a_title row) = title b"
    "Some (a_category row) = category b" "a_content row = content b"
    "a_status row = Some (or_default (status b) ''pending'')"
    by (simp_all add: row_def t c)
  ultimately show ?thesis by blast
qed

lemma post_articles_unreadable:
  assumes "truthy (title b)" "truthy (category b)" "truthy (content b)"
    and "\<not> list_all text_ok [title b, subHeadline b, category b, author b, image' b,
      excerpt b, content b, status b]"
  shows "post_articles now b s = (respond 500 (DbError InvalidByteSequence), s)"
  using assms
  by (simp add: post_articles_def insert_articles_def Let_def text_ok_or_default)

lemma post_articles_exhausted:
  assumes "truthy (title b)" "truthy (category b)" "truthy (content b)"
    and "list_all text_ok [title b, subHeadline b, category b, author b, image' b, excerpt b,
      content b, status b]"
    and "int4_max < articles_id_seq s"
  shows "post_articles now b s =
      (respond 500 (DbError (SequenceExhausted ''articles_id_seq'')), s)"
  using assms
  by (simp add: post_articles_def insert_articles_def Let_def text_ok_or_default)

lemma post_articles_refused:
  assumes "truthy (title b)" "truthy (category b)" "truthy (content b)"
    and "\<not> articles_status_check (Some (or_default (status b) ''pending''))"
    and "list_all text_ok [title b, subHeadline b, category b, author b, image' b, excerpt b,
      content b, status b]"
    and "articles_id_seq s \<le> int4_max"
  shows "post_articles now b s =
      (respond 500 (DbError (CheckViolation ''articles_status_check'')),
       s\<lparr>articles_id_seq := articles_id_seq s + 1\<rparr>)"
proof -
  obtain t where t: "title b = Some t" using truthy_Some [OF assms(1)] by blast
  obtain c where c: "category b = Some c" using truthy_Some [OF assms(2)] by blast
  show ?thesis
    using assms
    by (simp add: post_articles_def insert_articles_def Let_def t c text_ok_or_default)
qed

lemma status_supplied_check:
  "articles_status_check (Some (or_default v ''pending'')) \<longleftrightarrow>
   \<not> truthy v \<or> v = Some ''pending'' \<or> v = Some ''published'' \<or> v = Some ''rejected''"
  by (cases v) (auto simp: articles_status_check_def or_default_def truthy_def)

lemma post_ads_invalid:
  "\<not> truthy (clientName b) \<or> \<not> truthy (email b) \<or> \<not> truthy (plan b) \<Longrightarrow>
   post_ads now b s =
     (respond 400 (Message ''Client name, email, and plan are required''), s)"
  by (simp add: post_ads_def)

lemma map_upd_idem:
  assumes "\<And>a. g (f a) = g a" "\<And>a. f (f a) = f a"
  shows "map (\<lambda>a. if g a = i then f a else a) (map (\<lambda>a. if g a = i then f a else a) xs) =
         map (\<lambda>a. if g a = i then f a else a) xs"
  by (induction xs) (auto simp: assms)

lemma filter_key_map_upd:
  assumes "\<And>a. g (f a) = g a"
  shows "filter (\<lambda>a. g a = i) (map (\<lambda>a. if g a = i then f a else a) xs) =
         map f (filter (\<lambda>a. g a = i) xs)"
  by (induction xs) (auto simp: assms)

lemma update_ads_approve_twice:
  "update_ads_approve int4in x (snd (update_ads_approve int4in x s)) =
     update_ads_approve int4in x s"
  by (cases "integer_param int4in x")
    (simp_all add: update_ads_approve_def map_upd_idem filter_key_map_upd)

lemma snd_approve_ad:
  "snd (approve_ad int4in x s) = snd (update_ads_approve int4in x s)"
  by (simp add: approve_ad_def split: prod.splits sum.splits list.splits)

lemma approve_ad_found:
  assumes "integer_param int4in x = Inr i"
    and "filter (\<lambda>d. d_id d = i) (ads s) = d # rest"
  shows "approve_ad int4in x s =
     (respond 200 (AdRow (d\<lparr>d_status := Some ''active''\<rparr>)),
      s\<lparr>ads := map (\<lambda>d. if d_id d = i then d\<lparr>d_status := Some ''active''\<rparr> else d)
           (ads s)\<rparr>)"
  using assms by (simp add: approve_ad_def update_ads_approve_def)

lemma put_article_refused:
  assumes "\<not> list_all text_ok [title b, subHeadline b, category b, author b, image' b,
      content b] \<or>
    (\<exists>e. boolean_param (isBreaking b) = Inl e) \<or> (\<exists>e. integer_param int4in x = Inl e)"
  shows "status_code (fst (put_article int4in x b s)) = 500 \<and>
     snd (put_article int4in x b s) = s"
  using assms
  by (cases "boolean_param (isBreaking b)"; cases "integer_param int4in x")
    (auto simp: put_article_def update_articles_fields_def respond_def)

lemma put_article_missing:
  assumes "list_all text_ok [title b, subHeadline b, category b, author b, image' b,
      content b]"
    and "boolean_param (isBreaking b) = Inr flag" and "integer_param int4in x = Inr i"
    and "i \<notin> set (map a_id (articles s))"
  shows "put_article int4in x b s = (respond 404 (Message ''Article not found''), s)"
  using assms by (simp add: put_article_def update_articles_fields_def filter_key_empty)

lemma put_article_found:
  assumes "list_all text_ok [title b, subHeadline b, category b, author b, image' b,
      content b]"
    and "boolean_param (isBreaking b) = Inr flag" and "integer_param int4in x = Inr i"
    and "filter (\<lambda>a. a_id a = i) (articles s) = a # rest"
    and "title b = Some t" and "category b = Some c"
  shows "put_article int4in x b s =
     (respond 200 (ArticleRow (a\<lparr>a_title := t, a_sub_headline := subHeadline b,
        a_category := c, a_author := author b, a_image := image' b, a_content := content b,
        a_is_breaking := flag\<rparr>)),
      s\<lparr>articles :=
           map (\<lambda>a. if a_id a = i
                     then a\<lparr>a_title := t, a_sub_headline := subHeadline b, a_category := c,
                            a_author := author b, a_image := image' b, a_content := content b,
                            a_is_breaking := flag\<rparr>
                     else a) (articles s)\<rparr>)"
  using assms by (simp add: put_article_def update_articles_fields_def)

lemma put_article_not_null:
  assumes "list_all text_ok [title b, subHeadline b, category b, author b, image' b,
      content b]"
    and "boolean_param (isBreaking b) = Inr flag" and "integer_param int4in x = Inr i"
    and "filter (\<lambda>a. a_id a = i) (articles s) \<noteq> []"
    and "title b = None \<or> category b = None"
  shows "status_code (fst (put_article int4in x b s)) = 500 \<and>
     snd (put_article int4in x b s) = s"
proof (cases "title b")
  case None
  with assms(1-4) show ?thesis
    by (simp add: put_article_def update_articles_fields_def respond_def)
next
  case (Some t)
  with assms have "category b = None" by simp
  with assms(1-4) Some show ?thesis
    by (simp add: put_article_def update_articles_fields_def respond_def)
qed

lemma post_articles_201:
  "(status_code (fst (post_articles now b s)) = 201 \<longrightarrow>
      (\<exists>row. json (fst (post_articles now b s)) = ArticleRow row \<and>
         articles (snd (post_articles now b s)) = articles s @ [row])) \<and>
   (status_code (fst (post_articles now b s)) \<noteq> 201 \<longrightarrow>
      articles (snd (post_articles now b s)) = articles s)"
  by (simp add: post_articles_def insert_articles_def respond_def Let_def split: option.splits)

lemma post_ads_201:
  "(status_code (fst (post_ads now b s)) = 201 \<longrightarrow>
      (\<exists>row. json (fst (post_ads now b s)) = AdRow row \<and>
         ads (snd (post_ads now b s)) = ads s @ [row])) \<and>
   (status_code (fst (post_ads now b s)) \<noteq> 201 \<longrightarrow>
      ads (snd (post_ads now b s)) = ads s)"
  by (simp add: post_ads_def insert_ads_def respond_def Let_def split: option.splits)

lemma post_comments_201:
  "(status_code (fst (post_comments now b s)) = 201 \<longrightarrow>
      (\<exists>row. json (fst (post_comments now b s)) = CommentRow row \<and>
         comments (snd (post_comments now b s)) = comments s @ [row])) \<and>
   (status_code (fst (post_comments now b s)) \<noteq> 201 \<longrightarrow>
      comments (snd (post_comments now b s)) = comments s)"
  by (simp add: post_comments_def insert_comments_def respond_def Let_def split: option.splits)

lemma post_support_201:
  "(status_code (fst (post_support now b s)) = 201 \<longrightarrow>
      json (fst (post_support now b s)) = Message ''Support message sent'' \<and>
      (\<exists>row. support_messages (snd (post_support now b s)) = support_messages s @ [row] \<and>
         Some (m_name row) = name b \<and> Some (m_email row) = email b \<and>
         m_subject row = subject b \<and> Some (m_message row) = message b \<and>
         m_status row = Some ''unread'')) \<and>
   (status_code (fst (post_support now b s)) \<noteq> 201 \<longrightarrow>
      support_messages (snd (post_support now b s)) = support_messages s)"
  by (simp add: post_support_def insert_support_messages_def respond_def Let_def
      split: option.splits)

subsection \<open>The foreign key of comments is kept by every request\<close>

lemma comments_fk_grow:
  assumes "comments_fk s" and "comments s' = comments s"
    and "set (map a_id (articles s)) \<subseteq> set (map a_id (articles s'))"
  shows "comments_fk s'"
  using assms fk_list_mono [where r = c_article_id and cs = "comments s"]
  unfolding comments_fk_def by simp

lemma cascade_comments:
  assumes "comments_fk s" and "integer_param int4in x = Inr i"
  shows "comments (snd (delete_article int4in x s)) =
     filter (\<lambda>c. c_article_id c \<noteq> Some i) (comments s)"
  using cascade_filter [where r = c_article_id and g = a_id and xs = "articles s"
      and cs = "comments s" and i = i] assms
  by (simp add: delete_article_parsed comments_fk_def)

lemma comments_fk_delete_article:
  assumes "comments_fk s"
  shows "comments_fk (snd (delete_article int4in x s))"
proof (cases "integer_param int4in x")
  case (Inl e)
  with assms show ?thesis by (simp add: delete_article_refused)
next
  case (Inr i)
  have "comments (snd (delete_article int4in x s)) =
      filter (\<lambda>c. c_article_id c \<noteq> Some i) (comments s)"
    using assms Inr by (rule cascade_comments)
  moreover have "articles (snd (delete_article int4in x s)) =
      filter (\<lambda>a. a_id a \<noteq> i) (articles s)"
    by (simp add: delete_article_parsed [OF Inr])
  ultimately show ?thesis
    using cascade_keeps_fk [where r = c_article_id and g = a_id and xs = "articles s"
        and cs = "comments s" and i = i] assms
    by (simp add: comments_fk_def fk_list_iff)
qed

lemma comments_fk_post_articles:
  assumes "comments_fk s"
  shows "comments_fk (snd (post_articles now b s))"
proof (rule comments_fk_grow [OF assms])
  show "comments (snd (post_articles now b s)) = comments s"
    by (rule post_articles_frame)
  show "set (map a_id (articles s)) \<subseteq> set (map a_id (articles (snd (post_articles now b s))))"
    using post_articles_table [of now b s] by auto
qed

lemma comments_fk_approve_article:
  assumes "comments_fk s"
  shows "comments_fk (snd (approve_article int4in now x b s))"
proof (rule comments_fk_grow [OF assms])
  show "comments (snd (approve_article int4in now x b s)) = comments s"
    by (rule approve_article_frame)
  have "map a_id (articles (snd (approve_article int4in now x b s))) = map a_id (articles s)"
  proof (rule disjE [OF approve_article_table [of int4in now x b s]])
    assume "articles (snd (approve_article int4in now x b s)) = articles s"
    then show ?thesis by simp
  next
    assume "\<exists>flag i. boolean_param (or_false (isBreaking b)) = Inr flag \<and>
      integer_param int4in x = Inr i \<and>
      articles (snd (approve_article int4in now x b s)) =
        map (\<lambda>a. if a_id a = i then approve_row flag now a else a) (articles s)"
    then obtain flag i where e: "articles (snd (approve_article int4in now x b s)) =
        map (\<lambda>a. if a_id a = i then approve_row flag now a else a) (articles s)"
      by blast
    show ?thesis
      unfolding e by (rule map_key_map_upd) (rule approve_row_simps)
  qed
  then show "set (map a_id (articles s)) \<subseteq>
      set (map a_id (articles (snd (approve_article int4in now x b s))))"
    by simp
qed

lemma comments_fk_put_article:
  assumes "comments_fk s"
  shows "comments_fk (snd (put_article int4in x b s))"
proof (rule comments_fk_grow [OF assms])
  show "comments (snd (put_article int4in x b s)) = comments s"
    by (rule put_article_frame)
  have "map a_id (articles (snd (put_article int4in x b s))) = map a_id (articles s)"
  proof (rule disjE [OF put_article_table [of int4in x b s]])
    assume "articles (snd (put_article int4in x b s)) = articles s"
    then show ?thesis by simp
  next
    assume "\<exists>f i. (\<forall>a. a_id (f a) = a_id a \<and> a_status (f a) = a_status a) \<and>
      articles (snd (put_article int4in x b s)) =
        map (\<lambda>a. if a_id a = i then f a else a) (articles s)"
    then obtain f i where f: "\<And>a. a_id (f a) = a_id a"
      and e: "articles (snd (put_article int4in x b s)) =
        map (\<lambda>a. if a_id a = i then f a else a) (articles s)"
      by blast
    show ?thesis
      unfolding e by (rule map_key_map_upd) (rule f)
  qed
  then show "set (map a_id (articles s)) \<subseteq> set (map a_id (articles (snd (put_article int4in x b s))))"
    by simp
qed

lemma comments_fk_post_comments:
  assumes "comments_fk s"
  shows "comments_fk (snd (post_comments now b s))"
proof (rule disjE [OF post_comments_table [of now b s]])
  assume "comments (snd (post_comments now b s)) = comments s"
  with assms show ?thesis
    by (simp add: comments_fk_def fk_list_iff post_comments_frame)
next
  assume "\<exists>row. comments (snd (post_comments now b s)) = comments s @ [row] \<and>
      (case c_article_id row of None \<Rightarrow> True
       | Some k \<Rightarrow> k \<in> set (map a_id (articles s)))"
  then obtain row where "comments (snd (post_comments now b s)) = comments s @ [row]"
    and "case c_article_id row of None \<Rightarrow> True | Some k \<Rightarrow> k \<in> set (map a_id (articles s))"
    by blast
  with assms show ?thesis
    by (simp add: comments_fk_def fk_list_iff post_comments_frame split: option.splits)
qed

lemma comments_fk_same_tables:
  "comments_fk s \<Longrightarrow> articles s' = articles s \<Longrightarrow> comments s' = comments s \<Longrightarrow>
   comments_fk s'"
  by (simp add: comments_fk_def fk_list_iff)

lemma comments_fk_step:
  assumes "comments_fk s"
  shows "comments_fk (snd (api_step int4in (now, c) s))"
proof (cases c)
  case (PostArticles b)
  then show ?thesis by (simp add: comments_fk_post_articles assms)
next
  case (ApproveArticle i b)
  then show ?thesis by (simp add: comments_fk_approve_article assms)
next
  case (PutArticle i b)
  then show ?thesis by (simp add: comments_fk_put_article assms)
next
  case (DeleteArticle i)
  then show ?thesis by (simp add: comments_fk_delete_article assms)
next
  case (PostAds b)
  then show ?thesis
    using comments_fk_same_tables [OF assms, of "snd (post_ads now b s)"]
    by (simp add: post_ads_frame)
next
  case (ApproveAd i)
  then show ?thesis
    using comments_fk_same_tables [OF assms, of "snd (approve_ad int4in i s)"]
    by (simp add: approve_ad_frame)
next
  case (DeleteAd i)
  then show ?thesis
    using comments_fk_same_tables [OF assms, of "snd (delete_ad int4in i s)"]
    by (simp add: delete_ad_frame)
next
  case (PostComments b)
  then show ?thesis by (simp add: comments_fk_post_comments assms)
next
  case (PostSupport b)
  then show ?thesis
    using comments_fk_same_tables [OF assms, of "snd (post_support now b s)"]
    by (simp add: post_support_frame)
qed (simp_all add: snd_get_handlers assms)

lemma comments_fk_run: "comments_fk s \<Longrightarrow> comments_fk (api_run int4in cs s)"
proof (induction cs arbitrary: s)
  case Nil
  then show ?case by simp
next
  case (Cons c cs)
  obtain now call where c: "c = (now, call)" by (cases c)
  from Cons.prems have "comments_fk (snd (api_step int4in c s))"
    unfolding c by (rule comments_fk_step)
  then show ?case by (simp add: Cons.IH)
qed

subsection \<open>How a request changes the status of an article or an ad\<close>

lemma article_status_same:
  "articles s' = articles s \<Longrightarrow> article_status i s' = article_status i s"
  by (simp add: article_status_def)

lemma article_status_below_seq:
  assumes "seqs_ahead s" and "article_status i s = Some st"
  shows "i < articles_id_seq s"
proof (cases "find (\<lambda>a. a_id a = i) (articles s)")
  case None
  with assms(2) show ?thesis by (simp add: article_status_def)
next
  case (Some a)
  then have a: "a \<in> set (articles s) \<and> a_id a = i"
    by (rule find_Some_key)
  from assms(1) have "list_all (\<lambda>a. a_id a < articles_id_seq s) (articles s)"
    by (simp add: seqs_ahead_def)
  then have "a_id a < articles_id_seq s"
    by (rule bound_member [where g = a_id and xs = "articles s"]) (simp add: a)
  with a show ?thesis by simp
qed

lemma ad_status_below_seq:
  assumes "seqs_ahead s" and "ad_status i s = Some st"
  shows "i < ads_id_seq s"
proof (cases "find (\<lambda>d. d_id d = i) (ads s)")
  case None
  with assms(2) show ?thesis by (simp add: ad_status_def)
next
  case (Some d)
  then have d: "d \<in> set (ads s) \<and> d_id d = i"
    by (rule find_Some_key)
  from assms(1) have "list_all (\<lambda>d. d_id d < ads_id_seq s) (ads s)"
    by (simp add: seqs_ahead_def)
  then have "d_id d < ads_id_seq s"
    by (rule bound_member [where g = d_id and xs = "ads s"]) (simp add: d)
  with d show ?thesis by simp
qed

lemma post_articles_status:
  assumes "i < articles_id_seq s"
  shows "i < articles_id_seq (snd (post_articles now b s)) \<and>
     article_status i (snd (post_articles now b s)) = article_status i s"
proof (rule disjE [OF post_articles_table [of now b s]])
  assume "articles (snd (post_articles now b s)) = articles s \<and>
    (articles_id_seq (snd (post_articles now b s)) = articles_id_seq s \<or>
     articles_id_seq (snd (post_articles now b s)) = articles_id_seq s + 1)"
  with assms show ?thesis
    by (auto simp: article_status_def)
next
  assume "\<exists>row. articles (snd (post_articles now b s)) = articles s @ [row] \<and>
      a_id row = articles_id_seq s \<and>
      articles_id_seq (snd (post_articles now b s)) = articles_id_seq s + 1"
  then obtain row where row: "articles (snd (post_articles now b s)) = articles s @ [row]"
    "a_id row = articles_id_seq s"
    "articles_id_seq (snd (post_articles now b s)) = articles_id_seq s + 1"
    by blast
  from assms row(2) have "a_id row \<noteq> i" by simp
  then have "find (\<lambda>a. a_id a = i) (articles s @ [row]) = find (\<lambda>a. a_id a = i) (articles s)"
    by (rule find_append_fresh)
  with assms row show ?thesis
    by (simp add: article_status_def)
qed

lemma approve_article_status:
  "article_status i (snd (approve_article int4in now x b s)) = article_status i s \<or>
   article_status i (snd (approve_article int4in now x b s)) = Some (Some ''published'')"
proof (rule disjE [OF approve_article_table [of int4in now x b s]])
  assume "articles (snd (approve_article int4in now x b s)) = articles s"
  then show ?thesis by (simp add: article_status_def)
next
  assume "\<exists>flag j. boolean_param (or_false (isBreaking b)) = Inr flag \<and>
      integer_param int4in x = Inr j \<and>
      articles (snd (approve_article int4in now x b s)) =
        map (\<lambda>a. if a_id a = j then approve_row flag now a else a) (articles s)"
  then obtain flag j where e: "articles (snd (approve_article int4in now x b s)) =
        map (\<lambda>a. if a_id a = j then approve_row flag now a else a) (articles s)"
    by blast
  show ?thesis
    using track_map_upd [where g = a_id and h = a_status
        and f = "approve_row flag now" and v = "Some ''published''"
        and i = i and j = j and xs = "articles s"]
    by (simp add: article_status_def e approve_row_simps)
qed

lemma put_article_status:
  "article_status i (snd (put_article int4in x b s)) = article_status i s"
proof (rule disjE [OF put_article_table [of int4in x b s]])
  assume "articles (snd (put_article int4in x b s)) = articles s"
  then show ?thesis by (rule article_status_same)
next
  assume "\<exists>f j. (\<forall>a. a_id (f a) = a_id a \<and> a_status (f a) = a_status a) \<and>
      articles (snd (put_article int4in x b s)) =
        map (\<lambda>a. if a_id a = j then f a else a) (articles s)"
  then obtain f j where f: "\<And>a. a_id (f a) = a_id a" "\<And>a. a_status (f a) = a_status a"
    and e: "articles (snd (put_article int4in x b s)) =
        map (\<lambda>a. if a_id a = j then f a else a) (articles s)"
    by blast
  have "map_option a_status (find (\<lambda>a. a_id a = i)
          (map (\<lambda>a. if a_id a = j then f a else a) (articles s))) =
        map_option a_status (find (\<lambda>a. a_id a = i) (articles s))"
    by (cases "find (\<lambda>a. a_id a = i) (articles s)")
      (simp_all add: find_map_upd [where g = a_id and f = f, OF f(1)] f(2))
  then show ?thesis
    by (simp add: article_status_def e)
qed

lemma delete_article_status:
  "article_status i (snd (delete_article int4in x s)) = None \<or>
   article_status i (snd (delete_article int4in x s)) = article_status i s"
proof (rule disjE [OF delete_article_table [of int4in x s]])
  assume "articles (snd (delete_article int4in x s)) = articles s"
  then show ?thesis by (simp add: article_status_def)
next
  assume "\<exists>j. integer_param int4in x = Inr j \<and>
      articles (snd (delete_article int4in x s)) =
        filter (\<lambda>a. a_id a \<noteq> j) (articles s)"
  then obtain j where e: "articles (snd (delete_article int4in x s)) =
        filter (\<lambda>a. a_id a \<noteq> j) (articles s)"
    by blast
  show ?thesis
    by (simp add: article_status_def e find_filter_other [where g = a_id])
qed

lemma api_step_article_status:
  assumes "i < articles_id_seq s"
  shows "i < articles_id_seq (snd (api_step int4in (now, c) s)) \<and>
     (article_status i (snd (api_step int4in (now, c) s)) = None \<or>
      article_status i (snd (api_step int4in (now, c) s)) = article_status i s \<or>
      article_status i (snd (api_step int4in (now, c) s)) = Some (Some ''published''))"
proof (cases c)
  case (PostArticles b)
  then show ?thesis using post_articles_status [OF assms, of now b] by simp
next
  case (ApproveArticle j b)
  then show ?thesis
    using approve_article_status [of i int4in now j b s] assms
    by (auto simp: approve_article_frame)
next
  case (PutArticle j b)
  then show ?thesis
    using assms by (simp add: put_article_status put_article_frame)
next
  case (DeleteArticle j)
  then show ?thesis
    using delete_article_status [of i int4in j s] assms
    by (auto simp: delete_article_frame)
next
  case (PostAds b)
  then show ?thesis
    using assms by (simp add: article_status_def post_ads_frame)
next
  case (ApproveAd j)
  then show ?thesis
    using assms by (simp add: article_status_def approve_ad_frame)
next
  case (DeleteAd j)
  then show ?thesis
    using assms by (simp add: article_status_def delete_ad_frame)
next
  case (PostComments b)
  then show ?thesis
    using assms by (simp add: article_status_def post_comments_frame)
next
  case (PostSupport b)
  then show ?thesis
    using assms by (simp add: article_status_def post_support_frame)
qed (simp_all add: snd_get_handlers assms)

lemma post_ads_status:
  assumes "i < ads_id_seq s"
  shows "i < ads_id_seq (snd (post_ads now b s)) \<and>
     ad_status i (snd (post_ads now b s)) = ad_status i s"
proof (rule disjE [OF post_ads_table [of now b s]])
  assume "ads (snd (post_ads now b s)) = ads s \<and>
    (ads_id_seq (snd (post_ads now b s)) = ads_id_seq s \<or>
     ads_id_seq (snd (post_ads now b s)) = ads_id_seq s + 1)"
  with assms show ?thesis
    by (auto simp: ad_status_def)
next
  assume "\<exists>row. ads (snd (post_ads now b s)) = ads s @ [row] \<and> d_id row = ads_id_seq s \<and>
      d_status row = Some ''pending'' \<and>
      ads_id_seq (snd (post_ads now b s)) = ads_id_seq s + 1"
  then obtain row where row: "ads (snd (post_ads now b s)) = ads s @ [row]"
    "d_id row = ads_id_seq s" "ads_id_seq (snd (post_ads now b s)) = ads_id_seq s + 1"
    by blast
  from assms row(2) have "d_id row \<noteq> i" by simp
  then have "find (\<lambda>d. d_id d = i) (ads s @ [row]) = find (\<lambda>d. d_id d = i) (ads s)"
    by (rule find_append_fresh)
  with assms row show ?thesis
    by (simp add: ad_status_def)
qed

lemma approve_ad_status:
  "ad_status i (snd (approve_ad int4in x s)) = ad_status i s \<or>
   ad_status i (snd (approve_ad int4in x s)) = Some (Some ''active'')"
proof (rule disjE [OF approve_ad_table [of int4in x s]])
  assume "ads (snd (approve_ad int4in x s)) = ads s"
  then show ?thesis by (simp add: ad_status_def)
next
  assume "\<exists>j. integer_param int4in x = Inr j \<and>
      ads (snd (approve_ad int4in x s)) =
        map (\<lambda>d. if d_id d = j then d\<lparr>d_status := Some ''active''\<rparr> else d) (ads s)"
  then obtain j where e: "ads (snd (approve_ad int4in x s)) =
        map (\<lambda>d. if d_id d = j then d\<lparr>d_status := Some ''active''\<rparr> else d) (ads s)"
    by blast
  show ?thesis
    using track_map_upd [where g = d_id and h = d_status
        and f = "\<lambda>d. d\<lparr>d_status := Some ''active''\<rparr>" and v = "Some ''active''"
        and i = i and j = j and xs = "ads s"]
    by (simp add: ad_status_def e)
qed

lemma delete_ad_status:
  "ad_status i (snd (delete_ad int4in x s)) = None \<or>
   ad_status i (snd (delete_ad int4in x s)) = ad_status i s"
proof (rule disjE [OF delete_ad_table [of int4in x s]])
  assume "ads (snd (delete_ad int4in x s)) = ads s"
  then show ?thesis by (simp add: ad_status_def)
next
  assume "\<exists>j. integer_param int4in x = Inr j \<and>
      ads (snd (delete_ad int4in x s)) = filter (\<lambda>d. d_id d \<noteq> j) (ads s)"
  then obtain j where e: "ads (snd (delete_ad int4in x s)) =
        filter (\<lambda>d. d_id d \<noteq> j) (ads s)"
    by blast
  show ?thesis
    by (simp add: ad_status_def e find_filter_other [where g = d_id])
qed

lemma api_step_ad_status:
  assumes "i < ads_id_seq s"
  shows "i < ads_id_seq (snd (api_step int4in (now, c) s)) \<and>
     (ad_status i (snd (api_step int4in (now, c) s)) = None \<or>
      ad_status i (snd (api_step int4in (now, c) s)) = ad_status i s \<or>
      ad_status i (snd (api_step int4in (now, c) s)) = Some (Some ''active''))"
proof (cases c)
  case (PostArticles b)
  then show ?thesis
    using assms by (simp add: ad_status_def post_articles_frame)
next
  case (ApproveArticle j b)
  then show ?thesis
    using assms by (simp add: ad_status_def approve_article_frame)
next
  case (PutArticle j b)
  then show ?thesis
    using assms by (simp add: ad_status_def put_article_frame)
next
  case (DeleteArticle j)
  then show ?thesis
    using assms by (simp add: ad_status_def delete_article_frame)
next
  case (PostAds b)
  then show ?thesis using post_ads_status [OF assms, of now b] by simp
next
  case (ApproveAd j)
  then show ?thesis
    using approve_ad_status [of i int4in j s] assms by (auto simp: approve_ad_frame)
next
  case (DeleteAd j)
  then show ?thesis
    using delete_ad_status [of i int4in j s] assms by (auto simp: delete_ad_frame)
next
  case (PostComments b)
  then show ?thesis
    using assms by (simp add: ad_status_def post_comments_frame)
next
  case (PostSupport b)
  then show ?thesis
    using assms by (simp add: ad_status_def post_support_frame)
qed (simp_all add: snd_get_handlers assms)

lemma seqs_ahead_same:
  "seqs_ahead s \<Longrightarrow> articles s' = articles s \<Longrightarrow> articles_id_seq s' = articles_id_seq s \<Longrightarrow>
   ads s' = ads s \<Longrightarrow> ads_id_seq s' = ads_id_seq s \<Longrightarrow> seqs_ahead s'"
  by (simp add: seqs_ahead_def)

lemma seqs_ahead_post_articles:
  assumes "seqs_ahead s"
  shows "seqs_ahead (snd (post_articles now b s))"
proof (rule disjE [OF post_articles_table [of now b s]])
  assume h: "articles (snd (post_articles now b s)) = articles s \<and>
    (articles_id_seq (snd (post_articles now b s)) = articles_id_seq s \<or>
     articles_id_seq (snd (post_articles now b s)) = articles_id_seq s + 1)"
  then have "articles_id_seq s \<le> articles_id_seq (snd (post_articles now b s))"
    by auto
  with assms h show ?thesis
    using bound_mono [where g = a_id and xs = "articles s" and n = "articles_id_seq s"
        and m = "articles_id_seq (snd (post_articles now b s))"]
    by (simp add: seqs_ahead_def post_articles_frame)
next
  assume "\<exists>row. articles (snd (post_articles now b s)) = articles s @ [row] \<and>
      a_id row = articles_id_seq s \<and>
      articles_id_seq (snd (post_articles now b s)) = articles_id_seq s + 1"
  then obtain row where row: "articles (snd (post_articles now b s)) = articles s @ [row]"
    "a_id row = articles_id_seq s"
    "articles_id_seq (snd (post_articles now b s)) = articles_id_seq s + 1"
    by blast
  with assms show ?thesis
    using bound_mono [where g = a_id and xs = "articles s" and n = "articles_id_seq s"
        and m = "articles_id_seq s + 1"]
    by (simp add: seqs_ahead_def post_articles_frame)
qed

lemma seqs_ahead_post_ads:
  assumes "seqs_ahead s"
  shows "seqs_ahead (snd (post_ads now b s))"
proof (rule disjE [OF post_ads_table [of now b s]])
  assume h: "ads (snd (post_ads now b s)) = ads s \<and>
    (ads_id_seq (snd (post_ads now b s)) = ads_id_seq s \<or>
     ads_id_seq (snd (post_ads now b s)) = ads_id_seq s + 1)"
  then have "ads_id_seq s \<le> ads_id_seq (snd (post_ads now b s))"
    by auto
  with assms h show ?thesis
    using bound_mono [where g = d_id and xs = "ads s" and n = "ads_id_seq s"
        and m = "ads_id_seq (snd (post_ads now b s))"]
    by (simp add: seqs_ahead_def post_ads_frame)
next
  assume "\<exists>row. ads (snd (post_ads now b s)) = ads s @ [row] \<and> d_id row = ads_id_seq s \<and>
      d_status row = Some ''pending'' \<and>
      ads_id_seq (snd (post_ads now b s)) = ads_id_seq s + 1"
  then obtain row where row: "ads (snd (post_ads now b s)) = ads s @ [row]"
    "d_id row = ads_id_seq s" "ads_id_seq (snd (post_ads now b s)) = ads_id_seq s + 1"
    by blast
  with assms show ?thesis
    using bound_mono [where g = d_id and xs = "ads s" and n = "ads_id_seq s"
        and m = "ads_id_seq s + 1"]
    by (simp add: seqs_ahead_def post_ads_frame)
qed

lemma seqs_ahead_put_article:
  assumes "seqs_ahead s"
  shows "seqs_ahead (snd (put_article int4in x b s))"
proof (rule disjE [OF put_article_table [of int4in x b s]])
  assume "articles (snd (put_article int4in x b s)) = articles s"
  with assms show ?thesis
    by (simp add: seqs_ahead_def put_article_frame)
next
  assume "\<exists>f j. (\<forall>a. a_id (f a) = a_id a \<and> a_status (f a) = a_status a) \<and>
      articles (snd (put_article int4in x b s)) =
        map (\<lambda>a. if a_id a = j then f a else a) (articles s)"
  then obtain f j where f: "\<And>a. a_id (f a) = a_id a"
    and e: "articles (snd (put_article int4in x b s)) =
        map (\<lambda>a. if a_id a = j then f a else a) (articles s)"
    by blast
  from assms show ?thesis
    by (simp add: seqs_ahead_def put_article_frame e
        bound_map_upd [where g = a_id and f = f, OF f])
qed

lemma seqs_ahead_approve_article:
  assumes "seqs_ahead s"
  shows "seqs_ahead (snd (approve_article int4in now x b s))"
proof (rule disjE [OF approve_article_table [of int4in now x b s]])
  assume "articles (snd (approve_article int4in now x b s)) = articles s"
  with assms show ?thesis
    by (simp add: seqs_ahead_def approve_article_frame)
next
  assume "\<exists>flag j. boolean_param (or_false (isBreaking b)) = Inr flag \<and>
      integer_param int4in x = Inr j \<and>
      articles (snd (approve_article int4in now x b s)) =
        map (\<lambda>a. if a_id a = j then approve_row flag now a else a) (articles s)"
  then obtain flag j where e: "articles (snd (approve_article int4in now x b s)) =
        map (\<lambda>a. if a_id a = j then approve_row flag now a else a) (articles s)"
    by blast
  from assms show ?thesis
    by (simp add: seqs_ahead_def approve_article_frame e
        bound_map_upd [where g = a_id, OF approve_row_simps(1)])
qed

lemma seqs_ahead_delete_article:
  assumes "seqs_ahead s"
  shows "seqs_ahead (snd (delete_article int4in x s))"
proof (rule disjE [OF delete_article_table [of int4in x s]])
  assume "articles (snd (delete_article int4in x s)) = articles s"
  with assms show ?thesis
    by (simp add: seqs_ahead_def delete_article_frame)
next
  assume "\<exists>j. integer_param int4in x = Inr j \<and>
      articles (snd (delete_article int4in x s)) =
        filter (\<lambda>a. a_id a \<noteq> j) (articles s)"
  then obtain j where e: "articles (snd (delete_article int4in x s)) =
        filter (\<lambda>a. a_id a \<noteq> j) (articles s)"
    by blast
  from assms show ?thesis
    by (simp add: seqs_ahead_def delete_article_frame e bound_filter)
qed

lemma seqs_ahead_approve_ad:
  assumes "seqs_ahead s"
  shows "seqs_ahead (snd (approve_ad int4in x s))"
proof (rule disjE [OF approve_ad_table [of int4in x s]])
  assume "ads (snd (approve_ad int4in x s)) = ads s"
  with assms show ?thesis
    by (simp add: seqs_ahead_def approve_ad_frame)
next
  assume "\<exists>j. integer_param int4in x = Inr j \<and>
      ads (snd (approve_ad int4in x s)) =
        map (\<lambda>d. if d_id d = j then d\<lparr>d_status := Some ''active''\<rparr> else d) (ads s)"
  then obtain j where e: "ads (snd (approve_ad int4in x s)) =
        map (\<lambda>d. if d_id d = j then d\<lparr>d_status := Some ''active''\<rparr> else d) (ads s)"
    by blast
  from assms show ?thesis
    using bound_map_upd [where g = d_id and f = "\<lambda>d. d\<lparr>d_status := Some ''active''\<rparr>"
        and j = j and xs = "ads s" and n = "ads_id_seq s"]
    by (simp add: seqs_ahead_def approve_ad_frame e)
qed

lemma seqs_ahead_delete_ad:
  assumes "seqs_ahead s"
  shows "seqs_ahead (snd (delete_ad int4in x s))"
proof (rule disjE [OF delete_ad_table [of int4in x s]])
  assume "ads (snd (delete_ad int4in x s)) = ads s"
  with assms show ?thesis
    by (simp add: seqs_ahead_def delete_ad_frame)
next
  assume "\<exists>j. integer_param int4in x = Inr j \<and>
      ads (snd (delete_ad int4in x s)) = filter (\<lambda>d. d_id d \<noteq> j) (ads s)"
  then obtain j where e: "ads (snd (delete_ad int4in x s)) =
        filter (\<lambda>d. d_id d \<noteq> j) (ads s)"
    by blast
  from assms show ?thesis
    by (simp add: seqs_ahead_def delete_ad_frame e bound_filter)
qed

lemma seqs_ahead_step:
  assumes "seqs_ahead s"
  shows "seqs_ahead (snd (api_step int4in (now, c) s))"
proof (cases c)
  case (PostArticles b)
  then show ?thesis by (simp add: seqs_ahead_post_articles assms)
next
  case (ApproveArticle j b)
  then show ?thesis by (simp add: seqs_ahead_approve_article assms)
next
  case (PutArticle j b)
  then show ?thesis by (simp add: seqs_ahead_put_article assms)
next
  case (DeleteArticle j)
  then show ?thesis by (simp add: seqs_ahead_delete_article assms)
next
  case (PostAds b)
  then show ?thesis by (simp add: seqs_ahead_post_ads assms)
next
  case (ApproveAd j)
  then show ?thesis by (simp add: seqs_ahead_approve_ad assms)
next
  case (DeleteAd j)
  then show ?thesis by (simp add: seqs_ahead_delete_ad assms)
next
  case (PostComments b)
  then show ?thesis
    using seqs_ahead_same [OF assms, of "snd (post_comments now b s)"]
    by (simp add: post_comments_frame)
next
  case (PostSupport b)
  then show ?thesis
    using seqs_ahead_same [OF assms, of "snd (post_support now b s)"]
    by (simp add: post_support_frame)
qed (simp_all add: snd_get_handlers assms)

lemma seqs_ahead_run: "seqs_ahead s \<Longrightarrow> seqs_ahead (api_run int4in cs s)"
proof (induction cs arbitrary: s)
  case Nil
  then show ?case by simp
next
  case (Cons c cs)
  obtain now call where c: "c = (now, call)" by (cases c)
  from Cons.prems have "seqs_ahead (snd (api_step int4in c s))"
    unfolding c by (rule seqs_ahead_step)
  then show ?case by (simp add: Cons.IH)
qed

lemma api_run_append: "api_run int4in (cs @ cs') s = api_run int4in cs' (api_run int4in cs s)"
  by (induction cs arbitrary: s) simp_all

lemma api_run_article_status:
  assumes "i < articles_id_seq s"
    and "article_status i s = None \<or> article_status i s = Some st \<or>
      article_status i s = Some (Some ''published'')"
  shows "article_status i (api_run int4in cs s) = None \<or> article_status i (api_run int4in cs s) = Some st \<or>
      article_status i (api_run int4in cs s) = Some (Some ''published'')"
  using assms
proof (induction cs arbitrary: s)
  case Nil
  then show ?case by simp
next
  case (Cons c cs)
  obtain now call where c: "c = (now, call)" by (cases c)
  let ?s' = "snd (api_step int4in (now, call) s)"
  from api_step_article_status [OF Cons.prems(1), where int4in = int4in and now = now and c = call] Cons.prems(2)
  have "i < articles_id_seq ?s'"
    and "article_status i ?s' = None \<or> article_status i ?s' = Some st \<or>
      article_status i ?s' = Some (Some ''published'')"
    by auto
  then have "article_status i (api_run int4in cs ?s') = None \<or>
      article_status i (api_run int4in cs ?s') = Some st \<or>
      article_status i (api_run int4in cs ?s') = Some (Some ''published'')"
    by (rule Cons.IH)
  then show ?case by (simp add: c)
qed

lemma api_run_ad_status:
  assumes "i < ads_id_seq s"
    and "ad_status i s = None \<or> ad_status i s = Some st \<or>
      ad_status i s = Some (Some ''active'')"
  shows "ad_status i (api_run int4in cs s) = None \<or> ad_status i (api_run int4in cs s) = Some st \<or>
      ad_status i (api_run int4in cs s) = Some (Some ''active'')"
  using assms
proof (induction cs arbitrary: s)
  case Nil
  then show ?case by simp
next
  case (Cons c cs)
  obtain now call where c: "c = (now, call)" by (cases c)
  let ?s' = "snd (api_step int4in (now, call) s)"
  from api_step_ad_status [OF Cons.prems(1), where int4in = int4in and now = now and c = call] Cons.prems(2)
  have "i < ads_id_seq ?s'"
    and "ad_status i ?s' = None \<or> ad_status i ?s' = Some st \<or>
      ad_status i ?s' = Some (Some ''active'')"
    by auto
  then have "ad_status i (api_run int4in cs ?s') = None \<or> ad_status i (api_run int4in cs ?s') = Some st \<or>
      ad_status i (api_run int4in cs ?s') = Some (Some ''active'')"
    by (rule Cons.IH)
  then show ?case by (simp add: c)
qed


subsection \<open>Every stored ad is pending or active\<close>

lemma list_all_map_upd:
  assumes "list_all Q xs" "\<And>a. Q (f a)"
  shows "list_all Q (map (\<lambda>a. if g a = i then f a else a) xs)"
  using assms(1) by (induction xs) (auto simp: assms(2))

lemma list_all_filter_keep: "list_all Q xs \<Longrightarrow> list_all Q (filter P xs)"
  by (induction xs) auto

lemma list_all_find: "list_all Q xs \<Longrightarrow> find P xs = Some y \<Longrightarrow> Q y"
  by (induction xs) (auto split: if_splits)

lemma ads_ok_status:
  assumes "ads_ok s" and "ad_status j s = Some st"
  shows "st = Some ''pending'' \<or> st = Some ''active''"
proof (cases "find (\<lambda>d. d_id d = j) (ads s)")
  case None
  with assms(2) show ?thesis by (simp add: ad_status_def)
next
  case (Some d)
  from assms(1) have "list_all (\<lambda>d. d_status d = Some ''pending'' \<or>
      d_status d = Some ''active'') (ads s)"
    by (simp add: ads_ok_def)
  then have "d_status d = Some ''pending'' \<or> d_status d = Some ''active''"
    using Some
    by (rule list_all_find [where Q = "\<lambda>d. d_status d = Some ''pending'' \<or>
        d_status d = Some ''active''" and P = "\<lambda>d. d_id d = j"])
  with assms(2) Some show ?thesis by (simp add: ad_status_def)
qed

lemma ads_ok_same: "ads_ok s \<Longrightarrow> ads s' = ads s \<Longrightarrow> ads_ok s'"
  by (simp add: ads_ok_def)

lemma ads_ok_post_ads:
  assumes "ads_ok s"
  shows "ads_ok (snd (post_ads now b s))"
proof (rule disjE [OF post_ads_table [of now b s]])
  assume "ads (snd (post_ads now b s)) = ads s \<and>
    (ads_id_seq (snd (post_ads now b s)) = ads_id_seq s \<or>
     ads_id_seq (snd (post_ads now b s)) = ads_id_seq s + 1)"
  with assms show ?thesis by (simp add: ads_ok_def)
next
  assume "\<exists>row. ads (snd (post_ads now b s)) = ads s @ [row] \<and> d_id row = ads_id_seq s \<and>
      d_status row = Some ''pending'' \<and>
      ads_id_seq (snd (post_ads now b s)) = ads_id_seq s + 1"
  then obtain row where "ads (snd (post_ads now b s)) = ads s @ [row]"
    and "d_status row = Some ''pending''"
    by blast
  with assms show ?thesis by (simp add: ads_ok_def)
qed

lemma ads_ok_approve_ad:
  assumes "ads_ok s"
  shows "ads_ok (snd (approve_ad int4in x s))"
proof (rule disjE [OF approve_ad_table [of int4in x s]])
  assume "ads (snd (approve_ad int4in x s)) = ads s"
  with assms show ?thesis by (simp add: ads_ok_def)
next
  assume "\<exists>j. integer_param int4in x = Inr j \<and>
      ads (snd (approve_ad int4in x s)) =
        map (\<lambda>d. if d_id d = j then d\<lparr>d_status := Some ''active''\<rparr> else d) (ads s)"
  then obtain j where e: "ads (snd (approve_ad int4in x s)) =
        map (\<lambda>d. if d_id d = j then d\<lparr>d_status := Some ''active''\<rparr> else d) (ads s)"
    by blast
  from assms have "list_all (\<lambda>d. d_status d = Some ''pending'' \<or>
      d_status d = Some ''active'') (ads s)"
    by (simp add: ads_ok_def)
  then have "list_all (\<lambda>d. d_status d = Some ''pending'' \<or> d_status d = Some ''active'')
      (map (\<lambda>d. if d_id d = j then d\<lparr>d_status := Some ''active''\<rparr> else d) (ads s))"
    by (rule list_all_map_upd [where g = d_id and f = "\<lambda>d. d\<lparr>d_status := Some ''active''\<rparr>"
        and Q = "\<lambda>d. d_status d = Some ''pending'' \<or> d_status d = Some ''active''"]) simp
  then show ?thesis by (simp add: ads_ok_def e)
qed

lemma ads_ok_delete_ad:
  assumes "ads_ok s"
  shows "ads_ok (snd (delete_ad int4in x s))"
proof (rule disjE [OF delete_ad_table [of int4in x s]])
  assume "ads (snd (delete_ad int4in x s)) = ads s"
  with assms show ?thesis by (simp add: ads_ok_def)
next
  assume "\<exists>j. integer_param int4in x = Inr j \<and>
      ads (snd (delete_ad int4in x s)) = filter (\<lambda>d. d_id d \<noteq> j) (ads s)"
  then obtain j where e: "ads (snd (delete_ad int4in x s)) =
        filter (\<lambda>d. d_id d \<noteq> j) (ads s)"
    by blast
  from assms show ?thesis
    by (simp add: ads_ok_def e list_all_filter_keep)
qed

lemma ads_ok_step:
  assumes "ads_ok s"
  shows "ads_ok (snd (api_step int4in (now, c) s))"
proof (cases c)
  case (PostArticles b)
  then show ?thesis
    using ads_ok_same [OF assms, of "snd (post_articles now b s)"]
    by (simp add: post_articles_frame)
next
  case (ApproveArticle j b)
  then show ?thesis
    using ads_ok_same [OF assms, of "snd (approve_article int4in now j b s)"]
    by (simp add: approve_article_frame)
next
  case (PutArticle j b)
  then show ?thesis
    using ads_ok_same [OF assms, of "snd (put_article int4in j b s)"]
    by (simp add: put_article_frame)
next
  case (DeleteArticle j)
  then show ?thesis
    using ads_ok_same [OF assms, of "snd (delete_article int4in j s)"]
    by (simp add: delete_article_frame)
next
  case (PostAds b)
  then show ?thesis by (simp add: ads_ok_post_ads assms)
next
  case (ApproveAd j)
  then show ?thesis by (simp add: ads_ok_approve_ad assms)
next
  case (DeleteAd j)
  then show ?thesis by (simp add: ads_ok_delete_ad assms)
next
  case (PostComments b)
  then show ?thesis
    using ads_ok_same [OF assms, of "snd (post_comments now b s)"]
    by (simp add: post_comments_frame)
next
  case (PostSupport b)
  then show ?thesis
    using ads_ok_same [OF assms, of "snd (post_support now b s)"]
    by (simp add: post_support_frame)
qed (simp_all add: snd_get_handlers assms)

lemma ads_ok_run: "ads_ok s \<Longrightarrow> ads_ok (api_run int4in cs s)"
proof (induction cs arbitrary: s)
  case Nil
  then show ?case by simp
next
  case (Cons c cs)
  obtain now call where c: "c = (now, call)" by (cases c)
  from Cons.prems have "ads_ok (snd (api_step int4in c s))"
    unfolding c by (rule ads_ok_step)
  then show ?case by (simp add: Cons.IH)
qed

section \<open>The claims\<close>

subsection \<open>C1\<close>

text \<open>
  \<^bold>\<open>Claim C1\<close> (as amended). For every store state, \<^verbatim>\<open>GET /api/articles\<close> answers 200 with
  exactly the articles whose status is \<^verbatim>\<open>'published'\<close> or \<^verbatim>\<open>NULL\<close> (each as often as it is
  stored), ordered by \<^verbatim>\<open>date\<close> descending, rows without a date first; the store is
  unchanged. No article with status \<^verbatim>\<open>'pending'\<close> or \<^verbatim>\<open>'rejected'\<close> is listed. The claim
  as written also excludes articles with no status; the query's \<^verbatim>\<open>OR status IS NULL\<close>
  includes them, as the evaluation on a one-row store after the theorem shows.
\<close>

theorem get_articles_lists_published_or_null:
  "\<exists>rows. get_articles s = (respond 200 (ArticleRows rows), s) \<and>
     mset rows =
       mset (filter (\<lambda>a. a_status a = Some ''published'' \<or> a_status a = None) (articles s)) \<and>
     sorted_wrt (\<lambda>a b. desc_le (a_date a) (a_date b)) rows"
proof -
  let ?rows = "select_articles_published s"
  have "get_articles s = (respond 200 (ArticleRows ?rows), s)"
    by (simp add: get_articles_def)
  moreover have "mset ?rows =
      mset (filter (\<lambda>a. a_status a = Some ''published'' \<or> a_status a = None) (articles s))"
    by (simp add: select_articles_published_def mset_order_by_desc)
  moreover have "sorted_wrt (\<lambda>a b. desc_le (a_date a) (a_date b)) ?rows"
    by (simp add: select_articles_published_def sorted_order_by_desc)
  ultimately show ?thesis by blast
qed

theorem get_articles_lists_published_or_null_witness:
  "get_articles demo_store = (respond 200 (ArticleRows [article_two]), demo_store) \<and>
   (\<exists>rows. get_articles demo_store = (respond 200 (ArticleRows rows), demo_store) \<and>
     mset rows =
       mset (filter (\<lambda>a. a_status a = Some ''published'' \<or> a_status a = None)
              (articles demo_store)) \<and>
     sorted_wrt (\<lambda>a b. desc_le (a_date a) (a_date b)) rows)"
proof
  show "get_articles demo_store = (respond 200 (ArticleRows [article_two]), demo_store)"
    by (simp add: get_articles_def select_articles_published_def order_by_desc_def sample_defs)
  show "\<exists>rows. get_articles demo_store = (respond 200 (ArticleRows rows), demo_store) \<and>
     mset rows =
       mset (filter (\<lambda>a. a_status a = Some ''published'' \<or> a_status a = None)
              (articles demo_store)) \<and>
     sorted_wrt (\<lambda>a b. desc_le (a_date a) (a_date b)) rows"
    by (rule get_articles_lists_published_or_null)
qed

theorem get_articles_lists_null_status:
  "get_articles legacy_store = (respond 200 (ArticleRows [legacy_article]), legacy_store) \<and>
   a_status legacy_article = None \<and> articles_status_check (a_status legacy_article)"
  by (simp add: get_articles_def select_articles_published_def order_by_desc_def
      articles_status_check_def sample_defs)

subsection \<open>C2\<close>

text \<open>
  \<^bold>\<open>Claim C2\<close> (as amended). Let PostgreSQL read the path parameter as the integer \<open>i\<close> and
  the value of \<^verbatim>\<open>isBreaking || false\<close> as the flag \<open>flag\<close>; the flag is the request's
  \<^verbatim>\<open>isBreaking\<close> when that is a boolean, and false when it is absent or null (the last two
  lines of the theorem). If \<open>i\<close> is the id of a stored article,
  \<^verbatim>\<open>PATCH /api/admin/articles/:id/approve\<close> answers 200 with the article updated: status
  \<^verbatim>\<open>'published'\<close>, \<^verbatim>\<open>is_breaking\<close> the flag, \<^verbatim>\<open>date\<close> the time of the approval, all other
  columns kept. The returned row is stored, and the next \<^verbatim>\<open>GET /api/articles\<close> lists it.
  Every stored row with id \<open>i\<close> has the three new values; articles with another id and
  the other tables are unchanged. If \<open>i\<close> is the id of no stored article the answer is
  404 and the store is unchanged. The claim as written promises 404 for every id of no
  article. A path parameter that is not an integer of the column's range (\<^verbatim>\<open>abc\<close>,
  \<^verbatim>\<open>2147483648\<close>) names no article either, but it fails the statement, and so does an
  \<^verbatim>\<open>isBreaking\<close> that is no boolean word: the answer is 500 and the store is unchanged
  (the evaluations after the theorem).
\<close>

theorem approve_article_publishes_or_fails:
  "(integer_param int4in x = Inr i \<and> boolean_param (or_false (isBreaking b)) = Inr flag \<and>
    i \<in> set (map a_id (articles s)) \<longrightarrow>
      (\<exists>a row. a \<in> set (articles s) \<and> a_id a = i \<and>
         row = a\<lparr>a_status := Some ''published'', a_is_breaking := flag,
                 a_date := Some now\<rparr> \<and>
         fst (approve_article int4in now x b s) = respond 200 (ArticleRow row) \<and>
         row \<in> set (articles (snd (approve_article int4in now x b s))) \<and>
         (\<exists>rows. fst (get_articles (snd (approve_article int4in now x b s))) =
                    respond 200 (ArticleRows rows) \<and> row \<in> set rows)) \<and>
      (\<forall>a' \<in> set (articles (snd (approve_article int4in now x b s))).
         a_id a' = i \<longrightarrow>
           a_status a' = Some ''published'' \<and> a_is_breaking a' = flag \<and>
           a_date a' = Some now) \<and>
      filter (\<lambda>a. a_id a \<noteq> i) (articles (snd (approve_article int4in now x b s))) =
        filter (\<lambda>a. a_id a \<noteq> i) (articles s) \<and>
      (snd (approve_article int4in now x b s))\<lparr>articles := articles s\<rparr> = s) \<and>
   (integer_param int4in x = Inr i \<and> boolean_param (or_false (isBreaking b)) = Inr flag \<and>
    i \<notin> set (map a_id (articles s)) \<longrightarrow>
      approve_article int4in now x b s = (respond 404 (Message ''Article not found''), s)) \<and>
   (integer_param int4in x = Inl e \<or> boolean_param (or_false (isBreaking b)) = Inl e' \<longrightarrow>
      status_code (fst (approve_article int4in now x b s)) = 500 \<and>
      snd (approve_article int4in now x b s) = s) \<and>
   (isBreaking b = JBool f \<longrightarrow> boolean_param (or_false (isBreaking b)) = Inr (Some f)) \<and>
   (isBreaking b = JUndefined \<or> isBreaking b = JNull \<longrightarrow>
      boolean_param (or_false (isBreaking b)) = Inr (Some False))"
proof (intro conjI impI)
  assume h: "integer_param int4in x = Inr i \<and>
    boolean_param (or_false (isBreaking b)) = Inr flag \<and> i \<in> set (map a_id (articles s))"
  then have ip: "integer_param int4in x = Inr i"
    and bp: "boolean_param (or_false (isBreaking b)) = Inr flag"
    and ex: "i \<in> set (map a_id (articles s))"
    by simp_all
  let ?f = "approve_row flag now"
  let ?s' = "s\<lparr>articles := map (\<lambda>a. if a_id a = i then ?f a else a) (articles s)\<rparr>"
  obtain a rest where fl: "filter (\<lambda>a. a_id a = i) (articles s) = a # rest"
    using filter_key_nonempty [OF ex] by (cases "filter (\<lambda>a. a_id a = i) (articles s)") simp_all
  have a: "a \<in> set (articles s)" "a_id a = i"
    using filter_Cons_props [OF fl] by simp_all
  have res: "approve_article int4in now x b s = (respond 200 (ArticleRow (?f a)), ?s')"
    by (rule approve_article_found [OF bp ip fl])
  have in_store: "?f a \<in> set (articles ?s')"
    using map_upd_mem [of a "articles s" a_id i ?f] a by simp
  have "?f a \<in> set (select_articles_published ?s')"
    using in_store by (simp add: select_articles_published_def set_order_by_desc approve_row_simps)
  moreover have "fst (get_articles ?s') = respond 200 (ArticleRows (select_articles_published ?s'))"
    by (simp add: get_articles_def)
  ultimately have listed:
    "\<exists>rows. fst (get_articles ?s') = respond 200 (ArticleRows rows) \<and> ?f a \<in> set rows"
    by blast
  show "\<exists>a row. a \<in> set (articles s) \<and> a_id a = i \<and>
         row = a\<lparr>a_status := Some ''published'', a_is_breaking := flag,
                 a_date := Some now\<rparr> \<and>
         fst (approve_article int4in now x b s) = respond 200 (ArticleRow row) \<and>
         row \<in> set (articles (snd (approve_article int4in now x b s))) \<and>
         (\<exists>rows. fst (get_articles (snd (approve_article int4in now x b s))) =
                    respond 200 (ArticleRows rows) \<and> row \<in> set rows)"
  proof (rule exI [of _ a], rule exI [of _ "?f a"], intro conjI)
    show "a \<in> set (articles s)" by fact
    show "a_id a = i" by fact
    show "?f a = a\<lparr>a_status := Some ''published'', a_is_breaking := flag,
        a_date := Some now\<rparr>"
      by (simp add: approve_row_def)
    show "fst (approve_article int4in now x b s) = respond 200 (ArticleRow (?f a))"
      by (simp add: res)
    show "?f a \<in> set (articles (snd (approve_article int4in now x b s)))"
      unfolding res snd_conv by (rule in_store)
    show "\<exists>rows. fst (get_articles (snd (approve_article int4in now x b s))) =
        respond 200 (ArticleRows rows) \<and> ?f a \<in> set rows"
      unfolding res snd_conv by (rule listed)
  qed
  have "\<forall>a' \<in> set (map (\<lambda>a. if a_id a = i then ?f a else a) (articles s)).
         a_id a' = i \<longrightarrow>
           a_status a' = Some ''published'' \<and> a_is_breaking a' = flag \<and>
           a_date a' = Some now"
    by (rule map_upd_ball) (simp_all add: approve_row_simps)
  then show "\<forall>a' \<in> set (articles (snd (approve_article int4in now x b s))).
         a_id a' = i \<longrightarrow>
           a_status a' = Some ''published'' \<and> a_is_breaking a' = flag \<and>
           a_date a' = Some now"
    unfolding res snd_conv by simp
  show "filter (\<lambda>a. a_id a \<noteq> i) (articles (snd (approve_article int4in now x b s))) =
        filter (\<lambda>a. a_id a \<noteq> i) (articles s)"
    unfolding res snd_conv by (simp add: filter_other_map_upd approve_row_simps)
  show "(snd (approve_article int4in now x b s))\<lparr>articles := articles s\<rparr> = s"
    unfolding res by simp
next
  assume "integer_param int4in x = Inr i \<and>
    boolean_param (or_false (isBreaking b)) = Inr flag \<and> i \<notin> set (map a_id (articles s))"
  then show "approve_article int4in now x b s =
      (respond 404 (Message ''Article not found''), s)"
    by (simp add: approve_article_missing)
next
  assume h: "integer_param int4in x = Inl e \<or>
    boolean_param (or_false (isBreaking b)) = Inl e'"
  have "\<exists>err. approve_article int4in now x b s = (respond 500 (DbError err), s)"
  proof (cases "boolean_param (or_false (isBreaking b))")
    case (Inl err)
    then show ?thesis using approve_article_refused_flag by blast
  next
    case (Inr fl)
    with h have "integer_param int4in x = Inl e" by simp
    with Inr show ?thesis using approve_article_refused_id by blast
  qed
  then obtain err where r: "approve_article int4in now x b s = (respond 500 (DbError err), s)"
    by blast
  show "status_code (fst (approve_article int4in now x b s)) = 500"
    by (simp add: r respond_def)
  show "snd (approve_article int4in now x b s) = s"
    by (simp add: r)
next
  assume "isBreaking b = JBool f"
  then show "boolean_param (or_false (isBreaking b)) = Inr (Some f)"
    by (simp add: boolean_param_flag)
next
  assume "isBreaking b = JUndefined \<or> isBreaking b = JNull"
  then show "boolean_param (or_false (isBreaking b)) = Inr (Some False)"
    by (auto simp: boolean_param_flag)
qed

theorem approve_article_publishes_or_fails_witness:
  "integer_param decimal_int4in ''1'' = Inr 1 \<and>
   isBreaking breaking_flag = JBool True \<and>
   boolean_param (or_false (isBreaking breaking_flag)) = Inr (Some True) \<and>
   1 \<in> set (map a_id (articles demo_store)) \<and>
   (\<exists>a row. a \<in> set (articles demo_store) \<and> a_id a = 1 \<and>
      row = a\<lparr>a_status := Some ''published'', a_is_breaking := Some True,
              a_date := Some 300\<rparr> \<and>
      fst (approve_article decimal_int4in 300 ''1'' breaking_flag demo_store) =
        respond 200 (ArticleRow row) \<and>
      row \<in> set (articles (snd (approve_article decimal_int4in 300 ''1'' breaking_flag
        demo_store))) \<and>
      (\<exists>rows. fst (get_articles (snd (approve_article decimal_int4in 300 ''1'' breaking_flag
                 demo_store))) = respond 200 (ArticleRows rows) \<and> row \<in> set rows)) \<and>
   approve_article decimal_int4in 300 ''1'' breaking_flag demo_store =
     (respond 200 (ArticleRow (article_one\<lparr>a_status := Some ''published'',
        a_is_breaking := Some True, a_date := Some 300\<rparr>)),
      demo_store\<lparr>articles := [article_one\<lparr>a_status := Some ''published'',
        a_is_breaking := Some True, a_date := Some 300\<rparr>, article_two]\<rparr>) \<and>
   fst (approve_article decimal_int4in 300 ''1'' empty_body demo_store) =
     respond 200 (ArticleRow (article_one\<lparr>a_status := Some ''published'',
        a_is_breaking := Some False, a_date := Some 300\<rparr>)) \<and>
   integer_param decimal_int4in ''9'' = Inr 9 \<and>
   9 \<notin> set (map a_id (articles demo_store)) \<and>
   approve_article decimal_int4in 300 ''9'' breaking_flag demo_store =
     (respond 404 (Message ''Article not found''), demo_store) \<and>
   boolean_param (or_false (isBreaking unreadable_flag)) = Inl InvalidBoolean \<and>
   status_code (fst (approve_article decimal_int4in 300 ''1'' unreadable_flag demo_store)) =
     500 \<and>
   snd (approve_article decimal_int4in 300 ''1'' unreadable_flag demo_store) = demo_store"
proof -
  have h1: "integer_param decimal_int4in ''1'' = Inr 1"
    "isBreaking breaking_flag = JBool True"
    "1 \<in> set (map a_id (articles demo_store))"
    by (simp_all add: sample_ids sample_defs)
  have h9: "integer_param decimal_int4in ''9'' = Inr 9"
    "9 \<notin> set (map a_id (articles demo_store))"
    by (simp_all add: sample_ids sample_defs)
  have hu: "boolean_param (or_false (isBreaking unreadable_flag)) = Inl InvalidBoolean"
    by (simp add: sample_flags or_false_def js_truthy_def sample_defs)
  note t1 = approve_article_publishes_or_fails [where int4in = decimal_int4in and x = "''1''"
      and i = 1 and s = demo_store and b = breaking_flag and now = 300 and flag = "Some True"
      and f = True]
  note t9 = approve_article_publishes_or_fails [where int4in = decimal_int4in and x = "''9''"
      and i = 9 and s = demo_store and b = breaking_flag and now = 300 and flag = "Some True"
      and f = True]
  note tu = approve_article_publishes_or_fails [where int4in = decimal_int4in and x = "''1''"
      and s = demo_store and b = unreadable_flag and now = 300 and e' = InvalidBoolean]
  have bp: "boolean_param (or_false (isBreaking breaking_flag)) = Inr (Some True)"
    using t1 h1(2) by blast
  have c1: "\<exists>a row. a \<in> set (articles demo_store) \<and> a_id a = 1 \<and>
      row = a\<lparr>a_status := Some ''published'', a_is_breaking := Some True,
              a_date := Some 300\<rparr> \<and>
      fst (approve_article decimal_int4in 300 ''1'' breaking_flag demo_store) =
        respond 200 (ArticleRow row) \<and>
      row \<in> set (articles (snd (approve_article decimal_int4in 300 ''1'' breaking_flag
        demo_store))) \<and>
      (\<exists>rows. fst (get_articles (snd (approve_article decimal_int4in 300 ''1'' breaking_flag
                 demo_store))) = respond 200 (ArticleRows rows) \<and> row \<in> set rows)"
    using t1 h1 bp by blast
  have c2: "approve_article decimal_int4in 300 ''1'' breaking_flag demo_store =
     (respond 200 (ArticleRow (article_one\<lparr>a_status := Some ''published'',
        a_is_breaking := Some True, a_date := Some 300\<rparr>)),
      demo_store\<lparr>articles := [article_one\<lparr>a_status := Some ''published'',
        a_is_breaking := Some True, a_date := Some 300\<rparr>, article_two]\<rparr>)"
    by (simp add: approve_article_def update_articles_approve_def approve_row_def sample_ids
        param_defs sample_defs)
  have c3: "fst (approve_article decimal_int4in 300 ''1'' empty_body demo_store) =
     respond 200 (ArticleRow (article_one\<lparr>a_status := Some ''published'',
        a_is_breaking := Some False, a_date := Some 300\<rparr>))"
    by (simp add: approve_article_def update_articles_approve_def approve_row_def sample_ids
        param_defs sample_defs)
  have c9: "approve_article decimal_int4in 300 ''9'' breaking_flag demo_store =
     (respond 404 (Message ''Article not found''), demo_store)"
    using t9 h9 bp by blast
  have cu: "status_code (fst (approve_article decimal_int4in 300 ''1'' unreadable_flag
      demo_store)) = 500"
    "snd (approve_article decimal_int4in 300 ''1'' unreadable_flag demo_store) = demo_store"
    using tu hu by blast+
  from h1 bp c1 c2 c3 h9 c9 hu cu show ?thesis by blast
qed

theorem approve_article_unreadable_id:
  "integer_param decimal_int4in ''abc'' = Inl InvalidInteger \<and>
   approve_article decimal_int4in 300 ''abc'' empty_body demo_store =
     (respond 500 (DbError InvalidInteger), demo_store) \<and>
   integer_param decimal_int4in ''2147483648'' = Inl InvalidInteger \<and>
   approve_article decimal_int4in 300 ''2147483648'' empty_body demo_store =
     (respond 500 (DbError InvalidInteger), demo_store)"
  by (simp add: approve_article_def update_articles_approve_def sample_ids param_defs
      sample_defs)

subsection \<open>C3\<close>

text \<open>
  \<^bold>\<open>Claim C3\<close> (as amended). Take a store state, that is, one in which the foreign key of
  \<^verbatim>\<open>comments.article_id\<close> holds. If PostgreSQL reads the path parameter as the integer
  \<open>i\<close>, \<^verbatim>\<open>DELETE /api/articles/:id\<close> answers 200, removes the articles with id \<open>i\<close> and,
  by the cascade, every comment whose \<^verbatim>\<open>article_id\<close> is \<open>i\<close>, keeping all other comments;
  \<^verbatim>\<open>GET /api/articles/:id/comments\<close> with that parameter then answers 200 with the empty
  sequence. A path parameter that is not read as an integer fails both requests with
  500 and leaves the store unchanged. The foreign key holds again after every sequence
  of requests: a comment that has an \<^verbatim>\<open>article_id\<close> references a stored article. The
  claim as written says more, that no reachable state holds a comment whose parent
  article is absent. The column \<^verbatim>\<open>article_id\<close> admits \<^verbatim>\<open>NULL\<close> and \<^verbatim>\<open>POST /api/comments\<close>
  does not ask for an \<^verbatim>\<open>articleId\<close>, so on the empty store a comment with no article at
  all is stored with 201 (the last evaluation below).
\<close>

theorem delete_article_cascades_or_fails:
  assumes "comments_fk s"
  shows "(integer_param int4in x = Inr i \<longrightarrow>
       fst (delete_article int4in x s) =
         respond 200 (Message ''Article deleted successfully'') \<and>
       articles (snd (delete_article int4in x s)) =
         filter (\<lambda>a. a_id a \<noteq> i) (articles s) \<and>
       comments (snd (delete_article int4in x s)) =
         filter (\<lambda>c. c_article_id c \<noteq> Some i) (comments s) \<and>
       get_comments int4in x (snd (delete_article int4in x s)) =
         (respond 200 (CommentViews []), snd (delete_article int4in x s))) \<and>
     (integer_param int4in x = Inl e \<longrightarrow>
       delete_article int4in x s = (respond 500 (DbError e), s) \<and>
       get_comments int4in x s = (respond 500 (DbError e), s)) \<and>
     comments_fk (api_run int4in cs s)"
proof (intro conjI impI)
  assume ip: "integer_param int4in x = Inr i"
  have c: "comments (snd (delete_article int4in x s)) =
      filter (\<lambda>c. c_article_id c \<noteq> Some i) (comments s)"
    using assms ip by (rule cascade_comments)
  show "fst (delete_article int4in x s) =
      respond 200 (Message ''Article deleted successfully'')"
    by (simp add: delete_article_parsed [OF ip])
  show "articles (snd (delete_article int4in x s)) =
      filter (\<lambda>a. a_id a \<noteq> i) (articles s)"
    by (simp add: delete_article_parsed [OF ip])
  show "comments (snd (delete_article int4in x s)) =
      filter (\<lambda>c. c_article_id c \<noteq> Some i) (comments s)"
    by (rule c)
  have "select_comments int4in x (snd (delete_article int4in x s)) = Inr []"
    by (simp add: select_comments_def ip c order_by_desc_def)
  then show "get_comments int4in x (snd (delete_article int4in x s)) =
      (respond 200 (CommentViews []), snd (delete_article int4in x s))"
    by (simp add: get_comments_def)
next
  assume ip: "integer_param int4in x = Inl e"
  show "delete_article int4in x s = (respond 500 (DbError e), s)"
    using ip by (rule delete_article_refused)
  show "get_comments int4in x s = (respond 500 (DbError e), s)"
    by (simp add: get_comments_def select_comments_def ip)
next
  show "comments_fk (api_run int4in cs s)"
    using assms by (rule comments_fk_run)
qed

theorem delete_article_cascades_or_fails_witness:
  "comments_fk empty_store \<and> comments_fk demo_store \<and>
   integer_param decimal_int4in ''1'' = Inr 1 \<and>
   comments demo_store = [comment_one] \<and> c_article_id comment_one = Some 1 \<and>
   get_comments decimal_int4in ''1'' demo_store =
     (respond 200 (CommentViews [mapComment comment_one]), demo_store) \<and>
   fst (delete_article decimal_int4in ''1'' demo_store) =
     respond 200 (Message ''Article deleted successfully'') \<and>
   comments (snd (delete_article decimal_int4in ''1'' demo_store)) = [] \<and>
   articles (snd (delete_article decimal_int4in ''1'' demo_store)) = [article_two] \<and>
   get_comments decimal_int4in ''1'' (snd (delete_article decimal_int4in ''1'' demo_store)) =
     (respond 200 (CommentViews []), snd (delete_article decimal_int4in ''1'' demo_store)) \<and>
   integer_param decimal_int4in ''abc'' = Inl InvalidInteger \<and>
   delete_article decimal_int4in ''abc'' demo_store =
     (respond 500 (DbError InvalidInteger), demo_store) \<and>
   get_comments decimal_int4in ''abc'' demo_store =
     (respond 500 (DbError InvalidInteger), demo_store) \<and>
   comments_fk (api_run decimal_int4in
     [(300, PostComments comment_submission), (400, DeleteArticle ''1'')] demo_store)"
proof -
  have h: "comments_fk demo_store"
    by (simp add: comments_fk_def sample_defs)
  have h0: "comments_fk empty_store"
    by (simp add: comments_fk_def sample_defs)
  have p1: "integer_param decimal_int4in ''1'' = Inr 1"
    and pa: "integer_param decimal_int4in ''abc'' = Inl InvalidInteger"
    by (simp_all add: sample_ids)
  note t = delete_article_cascades_or_fails [OF h, where int4in = decimal_int4in
      and x = "''1''" and i = 1
      and cs = "[(300, PostComments comment_submission), (400, DeleteArticle ''1'')]"]
  note ta = delete_article_cascades_or_fails [OF h, where int4in = decimal_int4in
      and x = "''abc''" and e = InvalidInteger]
  have c0: "comments demo_store = [comment_one]" "c_article_id comment_one = Some 1"
    by (simp_all add: sample_defs)
  have g0: "get_comments decimal_int4in ''1'' demo_store =
     (respond 200 (CommentViews [mapComment comment_one]), demo_store)"
    by (simp add: get_comments_def select_comments_def sample_ids order_by_desc_def
        demo_store_def comment_one_def)
  have r: "fst (delete_article decimal_int4in ''1'' demo_store) =
     respond 200 (Message ''Article deleted successfully'')"
    using t p1 by blast
  have "comments (snd (delete_article decimal_int4in ''1'' demo_store)) =
      filter (\<lambda>c. c_article_id c \<noteq> Some 1) (comments demo_store)"
    using t p1 by blast
  then have c1: "comments (snd (delete_article decimal_int4in ''1'' demo_store)) = []"
    by (simp add: sample_defs)
  have "articles (snd (delete_article decimal_int4in ''1'' demo_store)) =
      filter (\<lambda>a. a_id a \<noteq> 1) (articles demo_store)"
    using t p1 by blast
  then have c2: "articles (snd (delete_article decimal_int4in ''1'' demo_store)) =
      [article_two]"
    by (simp add: sample_defs)
  have c3: "get_comments decimal_int4in ''1''
      (snd (delete_article decimal_int4in ''1'' demo_store)) =
     (respond 200 (CommentViews []), snd (delete_article decimal_int4in ''1'' demo_store))"
    using t p1 by blast
  have c4: "comments_fk (api_run decimal_int4in
      [(300, PostComments comment_submission), (400, DeleteArticle ''1'')] demo_store)"
    using t by blast
  have c5: "delete_article decimal_int4in ''abc'' demo_store =
     (respond 500 (DbError InvalidInteger), demo_store)"
    "get_comments decimal_int4in ''abc'' demo_store =
     (respond 500 (DbError InvalidInteger), demo_store)"
    using ta pa by blast+
  from h0 h p1 c0 g0 r c1 c2 c3 pa c5 c4 show ?thesis by blast
qed

theorem comment_without_article:
  "articleId orphan_comment = None \<and>
   post_comments 10 orphan_comment empty_store =
     (respond 201 (CommentRow \<lparr>c_id = 1, c_article_id = None, c_author = ''Ann'',
        c_email = ''ann@example.org'', c_content = ''Stay safe'', c_date = Some 10\<rparr>),
      empty_store\<lparr>comments_id_seq := 2,
        comments := [\<lparr>c_id = 1, c_article_id = None, c_author = ''Ann'',
          c_email = ''ann@example.org'', c_content = ''Stay safe'', c_date = Some 10\<rparr>]\<rparr>) \<and>
   articles (api_run decimal_int4in [(10, PostComments orphan_comment)] empty_store) = [] \<and>
   map c_article_id
     (comments (api_run decimal_int4in [(10, PostComments orphan_comment)] empty_store)) =
     [None]"
  by (simp add: post_comments_def insert_comments_def Let_def param_defs sample_defs)

subsection \<open>C4\<close>

text \<open>
  \<^bold>\<open>Claim C4\<close> (as amended). Take a \<^verbatim>\<open>POST /api/articles\<close> request whose title, category
  and content are non-empty strings. If none of its text fields holds the byte 0, and
  the id sequence is within the range of \<^verbatim>\<open>INTEGER\<close> and yields an unused id, then: when
  the request's status is absent or empty, the answer is 201 with the created article,
  stored with status \<^verbatim>\<open>'pending'\<close>; when it is \<^verbatim>\<open>'pending'\<close>, \<^verbatim>\<open>'published'\<close> or
  \<^verbatim>\<open>'rejected'\<close>, the answer is 201 and that status is stored. Any other supplied status
  fails the \<^verbatim>\<open>CHECK\<close> constraint of the column: the answer is 500 and no article is
  created (the last evaluation below runs the request with status \<^verbatim>\<open>'archived'\<close>). A
  text field that holds the byte 0, and a sequence that has run past the largest
  \<^verbatim>\<open>INTEGER\<close>, are answered 500 as well, with the store unchanged. A request whose title,
  category or content is missing or empty is answered 400 and leaves the store
  unchanged.
\<close>

theorem post_articles_stores_checked_status:
  "(truthy (title b) \<and> truthy (category b) \<and> truthy (content b) \<and>
    list_all text_ok [title b, subHeadline b, category b, author b, image' b, excerpt b,
      content b, status b] \<and>
    articles_id_seq s \<le> int4_max \<and>
    articles_id_seq s \<notin> set (map a_id (articles s)) \<and>
    (\<not> truthy (status b) \<or> status b = Some ''pending'' \<or> status b = Some ''published'' \<or>
     status b = Some ''rejected'') \<longrightarrow>
      (\<exists>row. post_articles now b s =
          (respond 201 (ArticleRow row),
           s\<lparr>articles_id_seq := articles_id_seq s + 1, articles := articles s @ [row]\<rparr>) \<and>
         a_id row = articles_id_seq s \<and> Some (a_title row) = title b \<and>
         Some (a_category row) = category b \<and> a_content row = content b \<and>
         (if truthy (status b) then a_status row = status b
          else a_status row = Some ''pending''))) \<and>
   (truthy (title b) \<and> truthy (category b) \<and> truthy (content b) \<and>
    list_all text_ok [title b, subHeadline b, category b, author b, image' b, excerpt b,
      content b, status b] \<and>
    articles_id_seq s \<le> int4_max \<and> truthy (status b) \<and>
    status b \<noteq> Some ''pending'' \<and> status b \<noteq> Some ''published'' \<and>
    status b \<noteq> Some ''rejected'' \<longrightarrow>
      fst (post_articles now b s) =
        respond 500 (DbError (CheckViolation ''articles_status_check'')) \<and>
      articles (snd (post_articles now b s)) = articles s) \<and>
   (truthy (title b) \<and> truthy (category b) \<and> truthy (content b) \<and>
    \<not> list_all text_ok [title b, subHeadline b, category b, author b, image' b, excerpt b,
      content b, status b] \<longrightarrow>
      post_articles now b s = (respond 500 (DbError InvalidByteSequence), s)) \<and>
   (truthy (title b) \<and> truthy (category b) \<and> truthy (content b) \<and>
    list_all text_ok [title b, subHeadline b, category b, author b, image' b, excerpt b,
      content b, status b] \<and>
    int4_max < articles_id_seq s \<longrightarrow>
      post_articles now b s =
        (respond 500 (DbError (SequenceExhausted ''articles_id_seq'')), s)) \<and>
   (\<not> truthy (title b) \<or> \<not> truthy (category b) \<or> \<not> truthy (content b) \<longrightarrow>
      post_articles now b s =
        (respond 400 (Message ''Title, category, and content are required''), s))"
proof (intro conjI impI)
  assume h: "truthy (title b) \<and> truthy (category b) \<and> truthy (content b) \<and>
    list_all text_ok [title b, subHeadline b, category b, author b, image' b, excerpt b,
      content b, status b] \<and>
    articles_id_seq s \<le> int4_max \<and>
    articles_id_seq s \<notin> set (map a_id (articles s)) \<and>
    (\<not> truthy (status b) \<or> status b = Some ''pending'' \<or> status b = Some ''published'' \<or>
     status b = Some ''rejected'')"
  then have chk: "articles_status_check (Some (or_default (status b) ''pending''))"
    by (simp add: status_supplied_check)
  from h have tr: "truthy (title b)" "truthy (category b)" "truthy (content b)"
    and fresh: "articles_id_seq s \<notin> set (map a_id (articles s))"
    and tx: "list_all text_ok [title b, subHeadline b, category b, author b, image' b,
      excerpt b, content b, status b]"
    and sq: "articles_id_seq s \<le> int4_max"
    by blast+
  obtain row where row: "post_articles now b s =
      (respond 201 (ArticleRow row),
       s\<lparr>articles_id_seq := articles_id_seq s + 1, articles := articles s @ [row]\<rparr>)"
      "a_id row = articles_id_seq s" "Some (a_title row) = title b"
      "Some (a_category row) = category b" "a_content row = content b"
      "a_status row = Some (or_default (status b) ''pending'')"
    using post_articles_created [OF tr chk fresh tx sq, of now] by blast
  have "if truthy (status b) then a_status row = status b else a_status row = Some ''pending''"
    using row(6) by (simp add: or_default_truthy or_default_falsy)
  with row show "\<exists>row. post_articles now b s =
          (respond 201 (ArticleRow row),
           s\<lparr>articles_id_seq := articles_id_seq s + 1, articles := articles s @ [row]\<rparr>) \<and>
         a_id row = articles_id_seq s \<and> Some (a_title row) = title b \<and>
         Some (a_category row) = category b \<and> a_content row = content b \<and>
         (if truthy (status b) then a_status row = status b
          else a_status row = Some ''pending'')"
    by blast
next
  assume h: "truthy (title b) \<and> truthy (category b) \<and> truthy (content b) \<and>
    list_all text_ok [title b, subHeadline b, category b, author b, image' b, excerpt b,
      content b, status b] \<and>
    articles_id_seq s \<le> int4_max \<and> truthy (status b) \<and>
    status b \<noteq> Some ''pending'' \<and> status b \<noteq> Some ''published'' \<and>
    status b \<noteq> Some ''rejected''"
  then have chk: "\<not> articles_status_check (Some (or_default (status b) ''pending''))"
    by (simp add: status_supplied_check)
  from h have tr: "truthy (title b)" "truthy (category b)" "truthy (content b)"
    and tx: "list_all text_ok [title b, subHeadline b, category b, author b, image' b,
      excerpt b, content b, status b]"
    and sq: "articles_id_seq s \<le> int4_max"
    by blast+
  have res: "post_articles now b s =
      (respond 500 (DbError (CheckViolation ''articles_status_check'')),
       s\<lparr>articles_id_seq := articles_id_seq s + 1\<rparr>)"
    by (rule post_articles_refused [OF tr chk tx sq])
  show "fst (post_articles now b s) =
        respond 500 (DbError (CheckViolation ''articles_status_check''))"
    by (simp add: res)
  show "articles (snd (post_articles now b s)) = articles s"
    by (simp add: res)
next
  assume h: "truthy (title b) \<and> truthy (category b) \<and> truthy (content b) \<and>
    \<not> list_all text_ok [title b, subHeadline b, category b, author b, image' b, excerpt b,
      content b, status b]"
  then have tr: "truthy (title b)" "truthy (category b)" "truthy (content b)"
    and tx: "\<not> list_all text_ok [title b, subHeadline b, category b, author b, image' b,
      excerpt b, content b, status b]"
    by blast+
  show "post_articles now b s = (respond 500 (DbError InvalidByteSequence), s)"
    by (rule post_articles_unreadable [OF tr tx])
next
  assume h: "truthy (title b) \<and> truthy (category b) \<and> truthy (content b) \<and>
    list_all text_ok [title b, subHeadline b, category b, author b, image' b, excerpt b,
      content b, status b] \<and>
    int4_max < articles_id_seq s"
  then have tr: "truthy (title b)" "truthy (category b)" "truthy (content b)"
    and tx: "list_all text_ok [title b, subHeadline b, category b, author b, image' b,
      excerpt b, content b, status b]"
    and sq: "int4_max < articles_id_seq s"
    by blast+
  show "post_articles now b s =
      (respond 500 (DbError (SequenceExhausted ''articles_id_seq'')), s)"
    by (rule post_articles_exhausted [OF tr tx sq])
next
  assume "\<not> truthy (title b) \<or> \<not> truthy (category b) \<or> \<not> truthy (content b)"
  then show "post_articles now b s =
        (respond 400 (Message ''Title, category, and content are required''), s)"
    by (rule post_articles_invalid)
qed

theorem post_articles_stores_checked_status_witness:
  "truthy (title article_submission) \<and> truthy (category article_submission) \<and>
   truthy (content article_submission) \<and> \<not> truthy (status article_submission) \<and>
   list_all text_ok [title article_submission, subHeadline article_submission,
     category article_submission, author article_submission, image' article_submission,
     excerpt article_submission, content article_submission, status article_submission] \<and>
   articles_id_seq empty_store \<le> int4_max \<and>
   articles_id_seq empty_store \<notin> set (map a_id (articles empty_store)) \<and>
   (\<exists>row. post_articles 1000 article_submission empty_store =
       (respond 201 (ArticleRow row),
        empty_store\<lparr>articles_id_seq := articles_id_seq empty_store + 1,
          articles := articles empty_store @ [row]\<rparr>) \<and>
      a_id row = articles_id_seq empty_store \<and>
      Some (a_title row) = title article_submission \<and>
      Some (a_category row) = category article_submission \<and>
      a_content row = content article_submission \<and>
      a_status row = Some ''pending'') \<and>
   truthy (status rejected_submission) \<and>
   (\<exists>row. fst (post_articles 1000 rejected_submission empty_store) =
       respond 201 (ArticleRow row) \<and> a_status row = Some ''rejected'') \<and>
   truthy (status archived_submission) \<and>
   fst (post_articles 1000 archived_submission empty_store) =
     respond 500 (DbError (CheckViolation ''articles_status_check'')) \<and>
   truthy (title nul_title_submission) \<and> \<not> text_ok (title nul_title_submission) \<and>
   post_articles 1000 nul_title_submission empty_store =
     (respond 500 (DbError InvalidByteSequence), empty_store) \<and>
   int4_max < articles_id_seq (empty_store\<lparr>articles_id_seq := 2147483648\<rparr>) \<and>
   post_articles 1000 article_submission (empty_store\<lparr>articles_id_seq := 2147483648\<rparr>) =
     (respond 500 (DbError (SequenceExhausted ''articles_id_seq'')),
      empty_store\<lparr>articles_id_seq := 2147483648\<rparr>) \<and>
   \<not> truthy (title untitled_submission) \<and>
   post_articles 1000 untitled_submission empty_store =
     (respond 400 (Message ''Title, category, and content are required''), empty_store)"
proof -
  have h0: "articles_id_seq empty_store \<le> int4_max"
    "articles_id_seq empty_store \<notin> set (map a_id (articles empty_store))"
    by (simp_all add: int4_max_def sample_defs)
  have h1: "truthy (title article_submission)" "truthy (category article_submission)"
    "truthy (content article_submission)" "\<not> truthy (status article_submission)"
    "list_all text_ok [title article_submission, subHeadline article_submission,
      category article_submission, author article_submission, image' article_submission,
      excerpt article_submission, content article_submission, status article_submission]"
    by (simp_all add: truthy_def text_ok_def sample_defs)
  have h2: "truthy (title rejected_submission)" "truthy (category rejected_submission)"
    "truthy (content rejected_submission)" "truthy (status rejected_submission)"
    "status rejected_submission = Some ''rejected''"
    "list_all text_ok [title rejected_submission, subHeadline rejected_submission,
      category rejected_submission, author rejected_submission, image' rejected_submission,
      excerpt rejected_submission, content rejected_submission, status rejected_submission]"
    by (simp_all add: truthy_def text_ok_def sample_defs)
  have h3: "truthy (title archived_submission)" "truthy (category archived_submission)"
    "truthy (content archived_submission)" "truthy (status archived_submission)"
    "status archived_submission \<noteq> Some ''pending''"
    "status archived_submission \<noteq> Some ''published''"
    "status archived_submission \<noteq> Some ''rejected''"
    "list_all text_ok [title archived_submission, subHeadline archived_submission,
      category archived_submission, author archived_submission, image' archived_submission,
      excerpt archived_submission, content archived_submission, status archived_submission]"
    by (simp_all add: truthy_def text_ok_def sample_defs)
  have h4: "\<not> truthy (title untitled_submission)"
    by (simp add: truthy_def sample_defs)
  have h5: "truthy (title nul_title_submission)" "truthy (category nul_title_submission)"
    "truthy (content nul_title_submission)" "\<not> text_ok (title nul_title_submission)"
    by (simp_all add: truthy_def text_ok_def sample_defs)
  then have h5': "\<not> list_all text_ok [title nul_title_submission,
      subHeadline nul_title_submission, category nul_title_submission,
      author nul_title_submission, image' nul_title_submission,
      excerpt nul_title_submission, content nul_title_submission,
      status nul_title_submission]"
    by simp
  have h6: "int4_max < articles_id_seq (empty_store\<lparr>articles_id_seq := 2147483648\<rparr>)"
    by (simp add: int4_max_def)
  note t1 = post_articles_stores_checked_status [where b = article_submission and s = empty_store and now = 1000]
  note t2 = post_articles_stores_checked_status [where b = rejected_submission and s = empty_store and now = 1000]
  note t3 = post_articles_stores_checked_status [where b = archived_submission and s = empty_store and now = 1000]
  note t4 = post_articles_stores_checked_status [where b = untitled_submission and s = empty_store and now = 1000]
  note t5 = post_articles_stores_checked_status [where b = nul_title_submission and s = empty_store and now = 1000]
  note t6 = post_articles_stores_checked_status [where b = article_submission
      and s = "empty_store\<lparr>articles_id_seq := 2147483648\<rparr>" and now = 1000]
  have c1: "\<exists>row. post_articles 1000 article_submission empty_store =
       (respond 201 (ArticleRow row),
        empty_store\<lparr>articles_id_seq := articles_id_seq empty_store + 1,
          articles := articles empty_store @ [row]\<rparr>) \<and>
      a_id row = articles_id_seq empty_store \<and>
      Some (a_title row) = title article_submission \<and>
      Some (a_category row) = category article_submission \<and>
      a_content row = content article_submission \<and>
      a_status row = Some ''pending''"
    using t1 h1 h0 by simp
  have "\<exists>row. post_articles 1000 rejected_submission empty_store =
       (respond 201 (ArticleRow row),
        empty_store\<lparr>articles_id_seq := articles_id_seq empty_store + 1,
          articles := articles empty_store @ [row]\<rparr>) \<and>
      a_status row = status rejected_submission"
    using t2 h2 h0 by auto
  then have c2: "\<exists>row. fst (post_articles 1000 rejected_submission empty_store) =
       respond 201 (ArticleRow row) \<and> a_status row = Some ''rejected''"
    using h2(5) by auto
  have c3: "fst (post_articles 1000 archived_submission empty_store) =
     respond 500 (DbError (CheckViolation ''articles_status_check''))"
    using t3 h3 h0 by blast
  have c4: "post_articles 1000 untitled_submission empty_store =
     (respond 400 (Message ''Title, category, and content are required''), empty_store)"
    using t4 h4 by blast
  have c5: "post_articles 1000 nul_title_submission empty_store =
     (respond 500 (DbError InvalidByteSequence), empty_store)"
    using t5 h5(1-3) h5' by blast
  have c6: "post_articles 1000 article_submission
      (empty_store\<lparr>articles_id_seq := 2147483648\<rparr>) =
     (respond 500 (DbError (SequenceExhausted ''articles_id_seq'')),
      empty_store\<lparr>articles_id_seq := 2147483648\<rparr>)"
    using t6 h1 h6 by blast
  from h1 h0 c1 h2(4) c2 h3(4) c3 h5(1,4) c5 h6 c6 h4 c4 show ?thesis by blast
qed

theorem post_articles_refuses_unknown_status:
  "truthy (title archived_submission) \<and> truthy (category archived_submission) \<and>
   truthy (content archived_submission) \<and> status archived_submission = Some ''archived'' \<and>
   post_articles 1000 archived_submission empty_store =
     (respond 500 (DbError (CheckViolation ''articles_status_check'')),
      empty_store\<lparr>articles_id_seq := 2\<rparr>) \<and>
   articles (empty_store\<lparr>articles_id_seq := 2\<rparr>) = []"
  by (simp add: post_articles_def insert_articles_def articles_status_check_def truthy_def
      or_default_def param_defs sample_defs)

subsection \<open>C5\<close>

text \<open>
  \<^bold>\<open>Claim C5\<close> (as amended). Let PostgreSQL read the path parameter as the integer \<open>i\<close> and
  the request's \<^verbatim>\<open>isBreaking\<close> as \<open>flag\<close> (the boolean itself, \<^verbatim>\<open>NULL\<close> when it is absent or
  null: the last two lines of the theorem), and let none of the six text fields hold
  the byte 0. For \<open>i\<close> the id of a stored article and a body that has a title and a
  category, \<^verbatim>\<open>PUT /api/articles/:id\<close> overwrites \<^verbatim>\<open>title\<close>, \<^verbatim>\<open>sub_headline\<close>, \<^verbatim>\<open>category\<close>,
  \<^verbatim>\<open>author\<close>, \<^verbatim>\<open>image\<close>, \<^verbatim>\<open>content\<close> and \<^verbatim>\<open>is_breaking\<close> with the values of the body
  (\<^verbatim>\<open>NULL\<close> for an absent field), keeps \<^verbatim>\<open>id\<close>, \<^verbatim>\<open>date\<close>, \<^verbatim>\<open>excerpt\<close>, \<^verbatim>\<open>views\<close> and
  \<^verbatim>\<open>status\<close>, and answers 200 with the updated row; articles with another id and the
  other tables are unchanged. If the article exists and the body lacks the title or
  the category, the \<^verbatim>\<open>NOT NULL\<close> constraint refuses the update: the answer is 500 and the
  store is unchanged (the last evaluation below). For \<open>i\<close> the id of no stored article
  the answer is 404 and the store is unchanged. A path parameter that is not read as
  an integer, an \<^verbatim>\<open>isBreaking\<close> that is not read as a boolean and a text field that holds
  the byte 0 are answered 500, with the store unchanged, whether or not an article has
  that id.
\<close>

theorem put_article_overwrites_or_fails:
  "(integer_param int4in x = Inr i \<and> boolean_param (isBreaking b) = Inr flag \<and>
    list_all text_ok [title b, subHeadline b, category b, author b, image' b, content b] \<and>
    i \<in> set (map a_id (articles s)) \<and> title b = Some t \<and> category b = Some c \<longrightarrow>
      (\<exists>a row. a \<in> set (articles s) \<and> a_id a = i \<and>
         row = a\<lparr>a_title := t, a_sub_headline := subHeadline b, a_category := c,
                 a_author := author b, a_image := image' b, a_content := content b,
                 a_is_breaking := flag\<rparr> \<and>
         fst (put_article int4in x b s) = respond 200 (ArticleRow row) \<and>
         row \<in> set (articles (snd (put_article int4in x b s)))) \<and>
      (\<forall>a' \<in> set (articles (snd (put_article int4in x b s))).
         a_id a' = i \<longrightarrow>
           a_title a' = t \<and> a_sub_headline a' = subHeadline b \<and> a_category a' = c \<and>
           a_author a' = author b \<and> a_image a' = image' b \<and> a_content a' = content b \<and>
           a_is_breaking a' = flag) \<and>
      filter (\<lambda>a. a_id a \<noteq> i) (articles (snd (put_article int4in x b s))) =
        filter (\<lambda>a. a_id a \<noteq> i) (articles s) \<and>
      (snd (put_article int4in x b s))\<lparr>articles := articles s\<rparr> = s) \<and>
   (integer_param int4in x = Inr i \<and> boolean_param (isBreaking b) = Inr flag \<and>
    list_all text_ok [title b, subHeadline b, category b, author b, image' b, content b] \<and>
    i \<in> set (map a_id (articles s)) \<and> (title b = None \<or> category b = None) \<longrightarrow>
      status_code (fst (put_article int4in x b s)) = 500 \<and>
      snd (put_article int4in x b s) = s) \<and>
   (integer_param int4in x = Inr i \<and> boolean_param (isBreaking b) = Inr flag \<and>
    list_all text_ok [title b, subHeadline b, category b, author b, image' b, content b] \<and>
    i \<notin> set (map a_id (articles s)) \<longrightarrow>
      put_article int4in x b s = (respond 404 (Message ''Article not found''), s)) \<and>
   (integer_param int4in x = Inl e \<or> boolean_param (isBreaking b) = Inl e' \<or>
    \<not> list_all text_ok [title b, subHeadline b, category b, author b, image' b,
      content b] \<longrightarrow>
      status_code (fst (put_article int4in x b s)) = 500 \<and>
      snd (put_article int4in x b s) = s) \<and>
   (isBreaking b = JBool f \<longrightarrow> boolean_param (isBreaking b) = Inr (Some f)) \<and>
   (isBreaking b = JUndefined \<or> isBreaking b = JNull \<longrightarrow>
      boolean_param (isBreaking b) = Inr None)"
proof (intro conjI impI)
  assume h: "integer_param int4in x = Inr i \<and> boolean_param (isBreaking b) = Inr flag \<and>
    list_all text_ok [title b, subHeadline b, category b, author b, image' b, content b] \<and>
    i \<in> set (map a_id (articles s)) \<and> title b = Some t \<and> category b = Some c"
  let ?f = "\<lambda>a. a\<lparr>a_title := t, a_sub_headline := subHeadline b, a_category := c,
      a_author := author b, a_image := image' b, a_content := content b,
      a_is_breaking := flag\<rparr>"
  let ?xs' = "map (\<lambda>a. if a_id a = i then ?f a else a) (articles s)"
  from h have ip: "integer_param int4in x = Inr i"
    and bp: "boolean_param (isBreaking b) = Inr flag"
    and tx: "list_all text_ok [title b, subHeadline b, category b, author b, image' b,
      content b]"
    and ex: "i \<in> set (map a_id (articles s))"
    and tt: "title b = Some t" and cc: "category b = Some c"
    by blast+
  obtain a rest where fl: "filter (\<lambda>a. a_id a = i) (articles s) = a # rest"
    using filter_key_nonempty [OF ex] by (cases "filter (\<lambda>a. a_id a = i) (articles s)") simp_all
  have a: "a \<in> set (articles s)" "a_id a = i"
    using filter_Cons_props [OF fl] by simp_all
  have res: "put_article int4in x b s =
      (respond 200 (ArticleRow (?f a)), s\<lparr>articles := ?xs'\<rparr>)"
    by (rule put_article_found [OF tx bp ip fl tt cc])
  have r1: "fst (put_article int4in x b s) = respond 200 (ArticleRow (?f a))"
    unfolding res by (rule fst_conv)
  have r2: "articles (snd (put_article int4in x b s)) = ?xs'"
    unfolding res snd_conv by simp
  have in_store: "?f a \<in> set ?xs'"
    using a by (rule map_upd_mem [where g = a_id and f = ?f])
  show "\<exists>a row. a \<in> set (articles s) \<and> a_id a = i \<and>
         row = a\<lparr>a_title := t, a_sub_headline := subHeadline b, a_category := c,
                 a_author := author b, a_image := image' b, a_content := content b,
                 a_is_breaking := flag\<rparr> \<and>
         fst (put_article int4in x b s) = respond 200 (ArticleRow row) \<and>
         row \<in> set (articles (snd (put_article int4in x b s)))"
  proof (rule exI [of _ a], rule exI [of _ "?f a"], intro conjI)
    show "a \<in> set (articles s)" by fact
    show "a_id a = i" by fact
    show "?f a = ?f a" by (rule refl)
    show "fst (put_article int4in x b s) = respond 200 (ArticleRow (?f a))" by (rule r1)
    show "?f a \<in> set (articles (snd (put_article int4in x b s)))"
      unfolding r2 by (rule in_store)
  qed
  have idf: "\<And>a. a_id (?f a) = a_id a" by simp
  have qf: "\<And>a. a_title (?f a) = t \<and> a_sub_headline (?f a) = subHeadline b \<and>
      a_category (?f a) = c \<and> a_author (?f a) = author b \<and> a_image (?f a) = image' b \<and>
      a_content (?f a) = content b \<and> a_is_breaking (?f a) = flag"
    by simp
  show "\<forall>a' \<in> set (articles (snd (put_article int4in x b s))).
         a_id a' = i \<longrightarrow>
           a_title a' = t \<and> a_sub_headline a' = subHeadline b \<and> a_category a' = c \<and>
           a_author a' = author b \<and> a_image a' = image' b \<and> a_content a' = content b \<and>
           a_is_breaking a' = flag"
    unfolding r2
    by (rule map_upd_ball [where g = a_id and f = ?f and i = i and xs = "articles s"
        and Q = "\<lambda>a'. a_title a' = t \<and> a_sub_headline a' = subHeadline b \<and>
          a_category a' = c \<and> a_author a' = author b \<and> a_image a' = image' b \<and>
          a_content a' = content b \<and> a_is_breaking a' = flag", OF idf qf])
  show "filter (\<lambda>a. a_id a \<noteq> i) (articles (snd (put_article int4in x b s))) =
        filter (\<lambda>a. a_id a \<noteq> i) (articles s)"
    unfolding r2
    by (rule filter_other_map_upd [where g = a_id and f = ?f and i = i and xs = "articles s",
        OF idf])
  show "(snd (put_article int4in x b s))\<lparr>articles := articles s\<rparr> = s"
    unfolding res snd_conv by simp
next
  assume h: "integer_param int4in x = Inr i \<and> boolean_param (isBreaking b) = Inr flag \<and>
    list_all text_ok [title b, subHeadline b, category b, author b, image' b, content b] \<and>
    i \<in> set (map a_id (articles s)) \<and> (title b = None \<or> category b = None)"
  then have ip: "integer_param int4in x = Inr i"
    and bp: "boolean_param (isBreaking b) = Inr flag"
    and tx: "list_all text_ok [title b, subHeadline b, category b, author b, image' b,
      content b]"
    and nul: "title b = None \<or> category b = None"
    by simp_all
  from h have ne: "filter (\<lambda>a. a_id a = i) (articles s) \<noteq> []"
    by (simp add: filter_key_nonempty)
  show "status_code (fst (put_article int4in x b s)) = 500"
    using put_article_not_null [OF tx bp ip ne nul] by simp
  show "snd (put_article int4in x b s) = s"
    using put_article_not_null [OF tx bp ip ne nul] by simp
next
  assume h: "integer_param int4in x = Inr i \<and> boolean_param (isBreaking b) = Inr flag \<and>
    list_all text_ok [title b, subHeadline b, category b, author b, image' b, content b] \<and>
    i \<notin> set (map a_id (articles s))"
  then have ip: "integer_param int4in x = Inr i"
    and bp: "boolean_param (isBreaking b) = Inr flag"
    and tx: "list_all text_ok [title b, subHeadline b, category b, author b, image' b,
      content b]"
    and nx: "i \<notin> set (map a_id (articles s))"
    by blast+
  show "put_article int4in x b s = (respond 404 (Message ''Article not found''), s)"
    by (rule put_article_missing [OF tx bp ip nx])
next
  assume h: "integer_param int4in x = Inl e \<or> boolean_param (isBreaking b) = Inl e' \<or>
    \<not> list_all text_ok [title b, subHeadline b, category b, author b, image' b, content b]"
  then have r: "\<not> list_all text_ok [title b, subHeadline b, category b, author b, image' b,
      content b] \<or>
    (\<exists>e. boolean_param (isBreaking b) = Inl e) \<or> (\<exists>e. integer_param int4in x = Inl e)"
    by blast
  show "status_code (fst (put_article int4in x b s)) = 500"
    using put_article_refused [OF r] by simp
  show "snd (put_article int4in x b s) = s"
    using put_article_refused [OF r] by simp
next
  assume "isBreaking b = JBool f"
  then show "boolean_param (isBreaking b) = Inr (Some f)"
    by (simp add: boolean_param_flag)
next
  assume "isBreaking b = JUndefined \<or> isBreaking b = JNull"
  then show "boolean_param (isBreaking b) = Inr None"
    by (auto simp: boolean_param_flag)
qed

theorem put_article_overwrites_or_fails_witness:
  "integer_param decimal_int4in ''1'' = Inr 1 \<and>
   isBreaking article_update = JBool True \<and>
   boolean_param (isBreaking article_update) = Inr (Some True) \<and>
   list_all text_ok [title article_update, subHeadline article_update,
     category article_update, author article_update, image' article_update,
     content article_update] \<and>
   1 \<in> set (map a_id (articles demo_store)) \<and>
   title article_update = Some ''Flood update'' \<and> category article_update = Some ''News'' \<and>
   put_article decimal_int4in ''1'' article_update demo_store =
     (respond 200 (ArticleRow (article_one\<lparr>a_title := ''Flood update'',
        a_sub_headline := None, a_category := ''News'', a_author := None, a_image := None,
        a_content := Some ''Water recedes'', a_is_breaking := Some True\<rparr>)),
      demo_store\<lparr>articles := [article_one\<lparr>a_title := ''Flood update'',
        a_sub_headline := None, a_category := ''News'', a_author := None, a_image := None,
        a_content := Some ''Water recedes'', a_is_breaking := Some True\<rparr>, article_two]\<rparr>) \<and>
   (\<exists>a row. a \<in> set (articles demo_store) \<and> a_id a = 1 \<and>
      row = a\<lparr>a_title := ''Flood update'', a_sub_headline := subHeadline article_update,
              a_category := ''News'', a_author := author article_update,
              a_image := image' article_update, a_content := content article_update,
              a_is_breaking := Some True\<rparr> \<and>
      fst (put_article decimal_int4in ''1'' article_update demo_store) =
        respond 200 (ArticleRow row) \<and>
      row \<in> set (articles (snd (put_article decimal_int4in ''1'' article_update
        demo_store)))) \<and>
   title update_without_title = None \<and>
   status_code (fst (put_article decimal_int4in ''1'' update_without_title demo_store)) =
     500 \<and>
   snd (put_article decimal_int4in ''1'' update_without_title demo_store) = demo_store \<and>
   integer_param decimal_int4in ''9'' = Inr 9 \<and>
   9 \<notin> set (map a_id (articles demo_store)) \<and>
   put_article decimal_int4in ''9'' article_update demo_store =
     (respond 404 (Message ''Article not found''), demo_store) \<and>
   integer_param decimal_int4in ''abc'' = Inl InvalidInteger \<and>
   status_code (fst (put_article decimal_int4in ''abc'' article_update demo_store)) = 500 \<and>
   snd (put_article decimal_int4in ''abc'' article_update demo_store) = demo_store \<and>
   \<not> text_ok (title nul_title_update) \<and>
   status_code (fst (put_article decimal_int4in ''1'' nul_title_update demo_store)) = 500 \<and>
   snd (put_article decimal_int4in ''1'' nul_title_update demo_store) = demo_store"
proof -
  have p: "integer_param decimal_int4in ''1'' = Inr 1"
    "integer_param decimal_int4in ''9'' = Inr 9"
    "integer_param decimal_int4in ''abc'' = Inl InvalidInteger"
    by (simp_all add: sample_ids)
  have h1: "isBreaking article_update = JBool True"
    "list_all text_ok [title article_update, subHeadline article_update,
      category article_update, author article_update, image' article_update,
      content article_update]"
    "1 \<in> set (map a_id (articles demo_store))"
    "title article_update = Some ''Flood update''" "category article_update = Some ''News''"
    by (simp_all add: text_ok_def sample_defs)
  have h2: "title update_without_title = None"
    "isBreaking update_without_title = JBool True"
    "list_all text_ok [title update_without_title, subHeadline update_without_title,
      category update_without_title, author update_without_title,
      image' update_without_title, content update_without_title]"
    by (simp_all add: text_ok_def sample_defs)
  have h9: "9 \<notin> set (map a_id (articles demo_store))"
    by (simp add: sample_defs)
  have hn: "\<not> text_ok (title nul_title_update)"
    by (simp add: text_ok_def sample_defs)
  then have hn': "\<not> list_all text_ok [title nul_title_update, subHeadline nul_title_update,
      category nul_title_update, author nul_title_update, image' nul_title_update,
      content nul_title_update]"
    by simp
  note t1 = put_article_overwrites_or_fails [where int4in = decimal_int4in and x = "''1''"
      and i = 1 and s = demo_store and b = article_update and t = "''Flood update''"
      and c = "''News''" and flag = "Some True" and f = True]
  note t2 = put_article_overwrites_or_fails [where int4in = decimal_int4in and x = "''1''"
      and i = 1 and s = demo_store and b = update_without_title and flag = "Some True"
      and f = True]
  note t9 = put_article_overwrites_or_fails [where int4in = decimal_int4in and x = "''9''"
      and i = 9 and s = demo_store and b = article_update and flag = "Some True"]
  note ta = put_article_overwrites_or_fails [where int4in = decimal_int4in and x = "''abc''"
      and s = demo_store and b = article_update and e = InvalidInteger]
  note tn = put_article_overwrites_or_fails [where int4in = decimal_int4in and x = "''1''"
      and s = demo_store and b = nul_title_update]
  have bp: "boolean_param (isBreaking article_update) = Inr (Some True)"
    using t1 h1(1) by blast
  have bp2: "boolean_param (isBreaking update_without_title) = Inr (Some True)"
    using t2 h2(2) by blast
  have c0: "put_article decimal_int4in ''1'' article_update demo_store =
     (respond 200 (ArticleRow (article_one\<lparr>a_title := ''Flood update'',
        a_sub_headline := None, a_category := ''News'', a_author := None, a_image := None,
        a_content := Some ''Water recedes'', a_is_breaking := Some True\<rparr>)),
      demo_store\<lparr>articles := [article_one\<lparr>a_title := ''Flood update'',
        a_sub_headline := None, a_category := ''News'', a_author := None, a_image := None,
        a_content := Some ''Water recedes'', a_is_breaking := Some True\<rparr>, article_two]\<rparr>)"
    by (simp add: put_article_def update_articles_fields_def sample_ids param_defs sample_defs)
  have c1: "\<exists>a row. a \<in> set (articles demo_store) \<and> a_id a = 1 \<and>
      row = a\<lparr>a_title := ''Flood update'', a_sub_headline := subHeadline article_update,
              a_category := ''News'', a_author := author article_update,
              a_image := image' article_update, a_content := content article_update,
              a_is_breaking := Some True\<rparr> \<and>
      fst (put_article decimal_int4in ''1'' article_update demo_store) =
        respond 200 (ArticleRow row) \<and>
      row \<in> set (articles (snd (put_article decimal_int4in ''1'' article_update
        demo_store)))"
    using t1 p(1) bp h1 by blast
  have c2: "status_code (fst (put_article decimal_int4in ''1'' update_without_title
      demo_store)) = 500"
    "snd (put_article decimal_int4in ''1'' update_without_title demo_store) = demo_store"
    using t2 p(1) bp2 h2 h1(3) by blast+
  have c9: "put_article decimal_int4in ''9'' article_update demo_store =
     (respond 404 (Message ''Article not found''), demo_store)"
    using t9 p(2) bp h1(2) h9 by blast
  have ca: "status_code (fst (put_article decimal_int4in ''abc'' article_update
      demo_store)) = 500"
    "snd (put_article decimal_int4in ''abc'' article_update demo_store) = demo_store"
    using ta p(3) by blast+
  have cn: "status_code (fst (put_article decimal_int4in ''1'' nul_title_update
      demo_store)) = 500"
    "snd (put_article decimal_int4in ''1'' nul_title_update demo_store) = demo_store"
    using tn hn' by blast+
  from p h1 bp c0 c1 h2(1) c2 h9 c9 ca hn cn show ?thesis by blast
qed

theorem put_article_without_title_fails:
  "integer_param decimal_int4in ''1'' = Inr 1 \<and>
   1 \<in> set (map a_id (articles demo_store)) \<and>
   title update_without_title = None \<and>
   category update_without_title = Some ''News'' \<and>
   put_article decimal_int4in ''1'' update_without_title demo_store =
     (respond 500 (DbError (NotNullViolation ''title'')), demo_store)"
  by (simp add: put_article_def update_articles_fields_def sample_ids param_defs sample_defs)

subsection \<open>C6\<close>

text \<open>
  \<^bold>\<open>Claim C6\<close> (as amended). \<^verbatim>\<open>POST /api/articles\<close>, \<^verbatim>\<open>POST /api/ads\<close> and
  \<^verbatim>\<open>POST /api/comments\<close> answer 201 exactly when they store a new record, and the body of
  the 201 response is that record. \<^verbatim>\<open>POST /api/support\<close> answers 201 exactly when it
  stores a new message (with the request's name, email, subject and message, and status
  \<^verbatim>\<open>'unread'\<close>), but the body of its response is the confirmation
  \<^verbatim>\<open>{message: "Support message sent"}\<close>, not the stored record: its \<^verbatim>\<open>INSERT\<close> has no
  \<^verbatim>\<open>RETURNING\<close> clause.
\<close>

theorem create_responses:
  "(status_code (fst (post_articles now b s)) = 201 \<longrightarrow>
      (\<exists>row. json (fst (post_articles now b s)) = ArticleRow row \<and>
         articles (snd (post_articles now b s)) = articles s @ [row])) \<and>
   (status_code (fst (post_articles now b s)) \<noteq> 201 \<longrightarrow>
      articles (snd (post_articles now b s)) = articles s) \<and>
   (status_code (fst (post_ads now b s)) = 201 \<longrightarrow>
      (\<exists>row. json (fst (post_ads now b s)) = AdRow row \<and>
         ads (snd (post_ads now b s)) = ads s @ [row])) \<and>
   (status_code (fst (post_ads now b s)) \<noteq> 201 \<longrightarrow>
      ads (snd (post_ads now b s)) = ads s) \<and>
   (status_code (fst (post_comments now b s)) = 201 \<longrightarrow>
      (\<exists>row. json (fst (post_comments now b s)) = CommentRow row \<and>
         comments (snd (post_comments now b s)) = comments s @ [row])) \<and>
   (status_code (fst (post_comments now b s)) \<noteq> 201 \<longrightarrow>
      comments (snd (post_comments now b s)) = comments s) \<and>
   (status_code (fst (post_support now b s)) = 201 \<longrightarrow>
      json (fst (post_support now b s)) = Message ''Support message sent'' \<and>
      (\<exists>row. support_messages (snd (post_support now b s)) = support_messages s @ [row] \<and>
         Some (m_name row) = name b \<and> Some (m_email row) = email b \<and>
         m_subject row = subject b \<and> Some (m_message row) = message b \<and>
         m_status row = Some ''unread'')) \<and>
   (status_code (fst (post_support now b s)) \<noteq> 201 \<longrightarrow>
      support_messages (snd (post_support now b s)) = support_messages s)"
  using post_articles_201 [of now b s] post_ads_201 [of now b s] post_comments_201 [of now b s]
    post_support_201 [of now b s]
  by blast

theorem create_responses_witness:
  "status_code (fst (post_articles 1000 article_submission demo_store)) = 201 \<and>
   (\<exists>row. json (fst (post_articles 1000 article_submission demo_store)) = ArticleRow row \<and>
      articles (snd (post_articles 1000 article_submission demo_store)) =
        articles demo_store @ [row]) \<and>
   status_code (fst (post_ads 1000 ad_submission demo_store)) = 201 \<and>
   (\<exists>row. json (fst (post_ads 1000 ad_submission demo_store)) = AdRow row \<and>
      ads (snd (post_ads 1000 ad_submission demo_store)) = ads demo_store @ [row]) \<and>
   status_code (fst (post_comments 1000 comment_submission demo_store)) = 201 \<and>
   (\<exists>row. json (fst (post_comments 1000 comment_submission demo_store)) = CommentRow row \<and>
      comments (snd (post_comments 1000 comment_submission demo_store)) =
        comments demo_store @ [row]) \<and>
   status_code (fst (post_support 1000 support_submission demo_store)) = 201 \<and>
   json (fst (post_support 1000 support_submission demo_store)) =
     Message ''Support message sent'' \<and>
   status_code (fst (post_ads 1000 ad_without_plan demo_store)) \<noteq> 201 \<and>
   ads (snd (post_ads 1000 ad_without_plan demo_store)) = ads demo_store"
proof -
  have h1: "status_code (fst (post_articles 1000 article_submission demo_store)) = 201"
    by (simp add: post_articles_def insert_articles_def articles_status_check_def truthy_def
        or_default_def respond_def Let_def param_defs sample_defs)
  have h2: "status_code (fst (post_ads 1000 ad_submission demo_store)) = 201"
    by (simp add: post_ads_def insert_ads_def truthy_def respond_def Let_def param_defs sample_defs)
  have h3: "status_code (fst (post_comments 1000 comment_submission demo_store)) = 201"
    by (simp add: post_comments_def insert_comments_def respond_def Let_def param_defs sample_defs)
  have h4: "status_code (fst (post_support 1000 support_submission demo_store)) = 201"
    by (simp add: post_support_def insert_support_messages_def respond_def Let_def param_defs sample_defs)
  have h5: "status_code (fst (post_ads 1000 ad_without_plan demo_store)) \<noteq> 201"
    by (simp add: post_ads_def truthy_def respond_def param_defs sample_defs)
  note t1 = create_responses [where now = 1000 and b = article_submission and s = demo_store]
  note t2 = create_responses [where now = 1000 and b = ad_submission and s = demo_store]
  note t3 = create_responses [where now = 1000 and b = comment_submission and s = demo_store]
  note t4 = create_responses [where now = 1000 and b = support_submission and s = demo_store]
  note t5 = create_responses [where now = 1000 and b = ad_without_plan and s = demo_store]
  have c1: "\<exists>row. json (fst (post_articles 1000 article_submission demo_store)) = ArticleRow row \<and>
      articles (snd (post_articles 1000 article_submission demo_store)) =
        articles demo_store @ [row]"
    using t1 h1 by blast
  have c2: "\<exists>row. json (fst (post_ads 1000 ad_submission demo_store)) = AdRow row \<and>
      ads (snd (post_ads 1000 ad_submission demo_store)) = ads demo_store @ [row]"
    using t2 h2 by blast
  have c3: "\<exists>row. json (fst (post_comments 1000 comment_submission demo_store)) =
        CommentRow row \<and>
      comments (snd (post_comments 1000 comment_submission demo_store)) =
        comments demo_store @ [row]"
    using t3 h3 by blast
  have c4: "json (fst (post_support 1000 support_submission demo_store)) =
      Message ''Support message sent''"
    using t4 h4 by blast
  have c5: "ads (snd (post_ads 1000 ad_without_plan demo_store)) = ads demo_store"
    using t5 h5 by blast
  from h1 c1 h2 c2 h3 c3 h4 c4 h5 c5 show ?thesis by blast
qed

theorem post_support_answers_message:
  "post_support 1000 support_submission empty_store =
     (respond 201 (Message ''Support message sent''),
      empty_store\<lparr>support_messages_id_seq := 2,
        support_messages :=
          [\<lparr>m_id = 1, m_name = ''Bob'', m_email = ''bob@example.org'', m_subject = None,
            m_message = ''Help'', m_date = Some 1000, m_status = Some ''unread''\<rparr>]\<rparr>)"
  by (simp add: post_support_def insert_support_messages_def Let_def param_defs sample_defs)

subsection \<open>C7\<close>

text \<open>
  \<^bold>\<open>Claim C7\<close> (as amended). Start from a store whose id sequences are ahead of the stored
  ids and whose ads are pending or active; the empty store is one. Run any requests
  \<open>cs\<close>, then any requests \<open>cs'\<close>. An article that has status \<open>st\<close> after \<open>cs\<close> is, after
  \<open>cs'\<close>, deleted, or still has status \<open>st\<close>, or is published: the only change of an
  article's status is the one that approval makes, to \<^verbatim>\<open>'published'\<close>, and a published
  article keeps its status. An ad that exists after \<open>cs\<close> is pending or active, and
  after \<open>cs'\<close> it is deleted, or has the same status, or was pending and is now active:
  the only change of an ad's status is from pending to active, and an ad that has left
  \<^verbatim>\<open>'pending'\<close> keeps its status. No request sets
  \<^verbatim>\<open>'rejected'\<close> on a stored article or ad. For articles the claim as written says more,
  that the status changes only from \<^verbatim>\<open>'pending'\<close> and that an article which has left
  \<^verbatim>\<open>'pending'\<close> never changes again. \<^verbatim>\<open>POST /api/articles\<close> stores a status that the caller
  supplies, and approval does not look at the status it replaces: an article created
  as \<^verbatim>\<open>'rejected'\<close> becomes \<^verbatim>\<open>'published'\<close> (the last evaluation below).
\<close>

theorem status_changes_only_by_approval:
  assumes "seqs_ahead s" and "ads_ok s"
  shows "(article_status i (api_run int4in cs s) = Some st \<longrightarrow>
       article_status i (api_run int4in (cs @ cs') s) = None \<or>
       article_status i (api_run int4in (cs @ cs') s) = Some st \<or>
       article_status i (api_run int4in (cs @ cs') s) = Some (Some ''published'')) \<and>
     (ad_status j (api_run int4in cs s) = Some st' \<longrightarrow>
       (st' = Some ''pending'' \<or> st' = Some ''active'') \<and>
       (ad_status j (api_run int4in (cs @ cs') s) = None \<or>
        ad_status j (api_run int4in (cs @ cs') s) = Some st' \<or>
        st' = Some ''pending'' \<and>
        ad_status j (api_run int4in (cs @ cs') s) = Some (Some ''active'')))"
proof -
  have ahead: "seqs_ahead (api_run int4in cs s)"
    using assms(1) by (rule seqs_ahead_run)
  have ok: "ads_ok (api_run int4in cs s)"
    using assms(2) by (rule ads_ok_run)
  have art: "article_status i (api_run int4in (cs @ cs') s) = None \<or>
        article_status i (api_run int4in (cs @ cs') s) = Some st \<or>
        article_status i (api_run int4in (cs @ cs') s) = Some (Some ''published'')"
    if st: "article_status i (api_run int4in cs s) = Some st"
  proof -
    have "i < articles_id_seq (api_run int4in cs s)"
      using ahead st by (rule article_status_below_seq)
    moreover have "article_status i (api_run int4in cs s) = None \<or>
        article_status i (api_run int4in cs s) = Some st \<or>
        article_status i (api_run int4in cs s) = Some (Some ''published'')"
      using st by simp
    ultimately have "article_status i (api_run int4in cs' (api_run int4in cs s)) = None \<or>
        article_status i (api_run int4in cs' (api_run int4in cs s)) = Some st \<or>
        article_status i (api_run int4in cs' (api_run int4in cs s)) =
          Some (Some ''published'')"
      by (rule api_run_article_status)
    then show ?thesis by (simp add: api_run_append)
  qed
  have ad: "(st' = Some ''pending'' \<or> st' = Some ''active'') \<and>
       (ad_status j (api_run int4in (cs @ cs') s) = None \<or>
        ad_status j (api_run int4in (cs @ cs') s) = Some st' \<or>
        st' = Some ''pending'' \<and>
        ad_status j (api_run int4in (cs @ cs') s) = Some (Some ''active''))"
    if st: "ad_status j (api_run int4in cs s) = Some st'"
  proof -
    have range: "st' = Some ''pending'' \<or> st' = Some ''active''"
      using ok st by (rule ads_ok_status)
    have "j < ads_id_seq (api_run int4in cs s)"
      using ahead st by (rule ad_status_below_seq)
    moreover have "ad_status j (api_run int4in cs s) = None \<or>
        ad_status j (api_run int4in cs s) = Some st' \<or>
        ad_status j (api_run int4in cs s) = Some (Some ''active'')"
      using st by simp
    ultimately have "ad_status j (api_run int4in cs' (api_run int4in cs s)) = None \<or>
        ad_status j (api_run int4in cs' (api_run int4in cs s)) = Some st' \<or>
        ad_status j (api_run int4in cs' (api_run int4in cs s)) = Some (Some ''active'')"
      by (rule api_run_ad_status)
    then have "ad_status j (api_run int4in (cs @ cs') s) = None \<or>
        ad_status j (api_run int4in (cs @ cs') s) = Some st' \<or>
        ad_status j (api_run int4in (cs @ cs') s) = Some (Some ''active'')"
      by (simp add: api_run_append)
    with range show ?thesis by blast
  qed
  from art ad show ?thesis by blast
qed

theorem status_changes_only_by_approval_witness:
  "seqs_ahead empty_store \<and> ads_ok empty_store \<and>
   article_status 1 (api_run decimal_int4in [(10, PostArticles article_submission)]
     empty_store) = Some (Some ''pending'') \<and>
   (article_status 1 (api_run decimal_int4in ([(10, PostArticles article_submission)] @
        [(20, ApproveArticle ''1'' empty_body), (30, PutArticle ''1'' article_update)])
        empty_store) = None \<or>
    article_status 1 (api_run decimal_int4in ([(10, PostArticles article_submission)] @
        [(20, ApproveArticle ''1'' empty_body), (30, PutArticle ''1'' article_update)])
        empty_store) = Some (Some ''pending'') \<or>
    article_status 1 (api_run decimal_int4in ([(10, PostArticles article_submission)] @
        [(20, ApproveArticle ''1'' empty_body), (30, PutArticle ''1'' article_update)])
        empty_store) = Some (Some ''published'')) \<and>
   ad_status 1 (api_run decimal_int4in [(10, PostAds ad_submission)] empty_store) =
     Some (Some ''pending'') \<and>
   (ad_status 1 (api_run decimal_int4in ([(10, PostAds ad_submission)] @
        [(20, ApproveAd ''1'')]) empty_store) = None \<or>
    ad_status 1 (api_run decimal_int4in ([(10, PostAds ad_submission)] @
        [(20, ApproveAd ''1'')]) empty_store) = Some (Some ''pending'') \<or>
    ad_status 1 (api_run decimal_int4in ([(10, PostAds ad_submission)] @
        [(20, ApproveAd ''1'')]) empty_store) = Some (Some ''active'')) \<and>
   article_status 1 (api_run decimal_int4in [(10, PostArticles article_submission),
       (20, ApproveArticle ''1'' empty_body), (30, PutArticle ''1'' article_update)]
       empty_store) = Some (Some ''published'') \<and>
   ad_status 1 (api_run decimal_int4in [(10, PostAds ad_submission), (20, ApproveAd ''1'')]
     empty_store) = Some (Some ''active'')"
proof -
  have h: "seqs_ahead empty_store"
    by (simp add: seqs_ahead_def sample_defs)
  have k: "ads_ok empty_store"
    by (simp add: ads_ok_def sample_defs)
  have h1: "article_status 1 (api_run decimal_int4in [(10, PostArticles article_submission)]
      empty_store) = Some (Some ''pending'')"
    by (simp add: article_status_def post_articles_def insert_articles_def
        articles_status_check_def truthy_def or_default_def Let_def param_defs sample_defs)
  have h2: "ad_status 1 (api_run decimal_int4in [(10, PostAds ad_submission)] empty_store) =
     Some (Some ''pending'')"
    by (simp add: ad_status_def post_ads_def insert_ads_def truthy_def Let_def param_defs
        sample_defs)
  note t1 = status_changes_only_by_approval [OF h k, where int4in = decimal_int4in
      and i = 1 and st = "Some ''pending''"
      and cs = "[(10, PostArticles article_submission)]"
      and cs' = "[(20, ApproveArticle ''1'' empty_body), (30, PutArticle ''1'' article_update)]"]
  note t2 = status_changes_only_by_approval [OF h k, where int4in = decimal_int4in
      and j = 1 and st' = "Some ''pending''"
      and cs = "[(10, PostAds ad_submission)]" and cs' = "[(20, ApproveAd ''1'')]"]
  have e1: "article_status 1 (api_run decimal_int4in [(10, PostArticles article_submission),
       (20, ApproveArticle ''1'' empty_body), (30, PutArticle ''1'' article_update)]
       empty_store) = Some (Some ''published'')"
    by (simp add: article_status_def post_articles_def insert_articles_def
        articles_status_check_def truthy_def or_default_def Let_def approve_article_def
        update_articles_approve_def approve_row_def put_article_def
        update_articles_fields_def sample_ids param_defs sample_defs)
  have e2: "ad_status 1 (api_run decimal_int4in [(10, PostAds ad_submission),
       (20, ApproveAd ''1'')] empty_store) = Some (Some ''active'')"
    by (simp add: ad_status_def post_ads_def insert_ads_def truthy_def Let_def approve_ad_def
        update_ads_approve_def sample_ids param_defs sample_defs)
  from h k h1 h2 t1 t2 e1 e2 show ?thesis by blast
qed

theorem rejected_article_becomes_published:
  "article_status 1 (api_run decimal_int4in [(10, PostArticles rejected_submission)]
     empty_store) = Some (Some ''rejected'') \<and>
   article_status 1 (api_run decimal_int4in [(10, PostArticles rejected_submission),
       (20, ApproveArticle ''1'' empty_body)] empty_store) =
     Some (Some ''published'')"
  by (simp add: article_status_def post_articles_def insert_articles_def
      articles_status_check_def truthy_def or_default_def Let_def approve_article_def
      update_articles_approve_def approve_row_def sample_ids param_defs sample_defs)

subsection \<open>C8\<close>

text \<open>
  \<^bold>\<open>Claim C8\<close>. A \<^verbatim>\<open>POST /api/ads\<close> request in which \<^verbatim>\<open>clientName\<close>, \<^verbatim>\<open>email\<close> or \<^verbatim>\<open>plan\<close> is
  missing is answered 400 with the validation message, and the store is unchanged: no
  ad is created.
\<close>

theorem post_ads_missing_field_rejected:
  assumes "clientName b = None \<or> email b = None \<or> plan b = None"
  shows "post_ads now b s =
     (respond 400 (Message ''Client name, email, and plan are required''), s)"
proof (rule post_ads_invalid)
  from assms show "\<not> truthy (clientName b) \<or> \<not> truthy (email b) \<or> \<not> truthy (plan b)"
    by (auto simp: truthy_def)
qed

theorem post_ads_missing_field_rejected_witness:
  "plan ad_without_plan = None \<and>
   post_ads 1000 ad_without_plan demo_store =
     (respond 400 (Message ''Client name, email, and plan are required''), demo_store)"
proof -
  have h: "plan ad_without_plan = None"
    by (simp add: sample_defs)
  then have "clientName ad_without_plan = None \<or> email ad_without_plan = None \<or>
      plan ad_without_plan = None"
    by simp
  from post_ads_missing_field_rejected [OF this] h show ?thesis by simp
qed

subsection \<open>C9\<close>

text \<open>
  \<^bold>\<open>Claim C9\<close>. Approving an ad is idempotent: \<^verbatim>\<open>PATCH /api/admin/ads/:id/approve\<close> applied
  to the store that a first approval with the same path parameter left gives the same
  response and the same store as that first approval. When the parameter is read as
  the id of a stored ad, the second approval answers 200 with the ad, its status
  \<^verbatim>\<open>'active'\<close> and every other column as before the first approval.
\<close>

theorem approve_ad_idempotent:
  "approve_ad int4in x (snd (approve_ad int4in x s)) = approve_ad int4in x s \<and>
   (integer_param int4in x = Inr i \<and> i \<in> set (map d_id (ads s)) \<longrightarrow>
      (\<exists>d. d \<in> set (ads s) \<and> d_id d = i \<and>
         fst (approve_ad int4in x (snd (approve_ad int4in x s))) =
           respond 200 (AdRow (d\<lparr>d_status := Some ''active''\<rparr>))) \<and>
      ads (snd (approve_ad int4in x (snd (approve_ad int4in x s)))) =
        map (\<lambda>d. if d_id d = i then d\<lparr>d_status := Some ''active''\<rparr> else d) (ads s))"
proof -
  have "approve_ad int4in x (snd (approve_ad int4in x s)) =
        (case update_ads_approve int4in x (snd (update_ads_approve int4in x s)) of
           (Inl err, s') \<Rightarrow> (respond 500 (DbError err), s')
         | (Inr [], s') \<Rightarrow> (respond 404 (Message ''Ad not found''), s')
         | (Inr (row # rest), s') \<Rightarrow> (respond 200 (AdRow row), s'))"
    unfolding snd_approve_ad by (simp add: approve_ad_def)
  then have twice: "approve_ad int4in x (snd (approve_ad int4in x s)) = approve_ad int4in x s"
    by (simp add: update_ads_approve_twice approve_ad_def)
  have found: "(\<exists>d. d \<in> set (ads s) \<and> d_id d = i \<and>
         fst (approve_ad int4in x (snd (approve_ad int4in x s))) =
           respond 200 (AdRow (d\<lparr>d_status := Some ''active''\<rparr>))) \<and>
      ads (snd (approve_ad int4in x (snd (approve_ad int4in x s)))) =
        map (\<lambda>d. if d_id d = i then d\<lparr>d_status := Some ''active''\<rparr> else d) (ads s)"
    if h: "integer_param int4in x = Inr i \<and> i \<in> set (map d_id (ads s))"
  proof -
    from h have ip: "integer_param int4in x = Inr i" and ex: "i \<in> set (map d_id (ads s))"
      by simp_all
    obtain d rest where fl: "filter (\<lambda>d. d_id d = i) (ads s) = d # rest"
      using filter_key_nonempty [OF ex] by (cases "filter (\<lambda>d. d_id d = i) (ads s)") simp_all
    have d: "d \<in> set (ads s)" "d_id d = i"
      using filter_Cons_props [OF fl] by simp_all
    have once: "approve_ad int4in x s =
        (respond 200 (AdRow (d\<lparr>d_status := Some ''active''\<rparr>)),
         s\<lparr>ads := map (\<lambda>d. if d_id d = i then d\<lparr>d_status := Some ''active''\<rparr> else d)
              (ads s)\<rparr>)"
      by (rule approve_ad_found [OF ip fl])
    have "fst (approve_ad int4in x (snd (approve_ad int4in x s))) =
        respond 200 (AdRow (d\<lparr>d_status := Some ''active''\<rparr>))"
      unfolding twice by (simp add: once)
    with d have "\<exists>d. d \<in> set (ads s) \<and> d_id d = i \<and>
         fst (approve_ad int4in x (snd (approve_ad int4in x s))) =
           respond 200 (AdRow (d\<lparr>d_status := Some ''active''\<rparr>))"
      by blast
    moreover have "ads (snd (approve_ad int4in x (snd (approve_ad int4in x s)))) =
        map (\<lambda>d. if d_id d = i then d\<lparr>d_status := Some ''active''\<rparr> else d) (ads s)"
      unfolding twice by (simp add: once)
    ultimately show ?thesis by blast
  qed
  from twice found show ?thesis by blast
qed

theorem approve_ad_idempotent_witness:
  "integer_param decimal_int4in ''1'' = Inr 1 \<and>
   1 \<in> set (map d_id (ads demo_store)) \<and>
   approve_ad decimal_int4in ''1'' (snd (approve_ad decimal_int4in ''1'' demo_store)) =
     approve_ad decimal_int4in ''1'' demo_store \<and>
   fst (approve_ad decimal_int4in ''1'' demo_store) =
     respond 200 (AdRow (ad_one\<lparr>d_status := Some ''active''\<rparr>)) \<and>
   ads (snd (approve_ad decimal_int4in ''1''
     (snd (approve_ad decimal_int4in ''1'' demo_store)))) =
     [ad_one\<lparr>d_status := Some ''active''\<rparr>]"
proof -
  have p: "integer_param decimal_int4in ''1'' = Inr 1"
    by (simp add: sample_ids)
  have h: "1 \<in> set (map d_id (ads demo_store))"
    by (simp add: sample_defs)
  note t = approve_ad_idempotent [where int4in = decimal_int4in and x = "''1''" and i = 1
      and s = demo_store]
  have c1: "approve_ad decimal_int4in ''1'' (snd (approve_ad decimal_int4in ''1'' demo_store)) =
      approve_ad decimal_int4in ''1'' demo_store"
    using t by blast
  have c2: "fst (approve_ad decimal_int4in ''1'' demo_store) =
      respond 200 (AdRow (ad_one\<lparr>d_status := Some ''active''\<rparr>))"
    by (simp add: approve_ad_def update_ads_approve_def sample_ids sample_defs)
  have "ads (snd (approve_ad decimal_int4in ''1''
      (snd (approve_ad decimal_int4in ''1'' demo_store)))) =
      map (\<lambda>d. if d_id d = 1 then d\<lparr>d_status := Some ''active''\<rparr> else d) (ads demo_store)"
    using t p h by blast
  then have c3: "ads (snd (approve_ad decimal_int4in ''1''
      (snd (approve_ad decimal_int4in ''1'' demo_store)))) =
      [ad_one\<lparr>d_status := Some ''active''\<rparr>]"
    by (simp add: sample_defs)
  from p h c1 c2 c3 show ?thesis by blast
qed

subsection \<open>C10\<close>

text \<open>
  \<^bold>\<open>Claim C10\<close>. The required-field checks take an empty string for a missing field: a
  \<^verbatim>\<open>POST /api/articles\<close> request whose title, category or content is the empty string,
  and a \<^verbatim>\<open>POST /api/ads\<close> request whose clientName, email or plan is the empty string,
  are answered 400 and leave the store unchanged.
\<close>

theorem empty_string_counts_as_missing:
  "(title b = Some '''' \<or> category b = Some '''' \<or> content b = Some '''' \<longrightarrow>
      post_articles now b s =
        (respond 400 (Message ''Title, category, and content are required''), s)) \<and>
   (clientName b = Some '''' \<or> email b = Some '''' \<or> plan b = Some '''' \<longrightarrow>
      post_ads now b s =
        (respond 400 (Message ''Client name, email, and plan are required''), s))"
proof (intro conjI impI)
  assume "title b = Some '''' \<or> category b = Some '''' \<or> content b = Some ''''"
  then have "\<not> truthy (title b) \<or> \<not> truthy (category b) \<or> \<not> truthy (content b)"
    by (auto simp: truthy_def)
  then show "post_articles now b s =
        (respond 400 (Message ''Title, category, and content are required''), s)"
    by (rule post_articles_invalid)
next
  assume "clientName b = Some '''' \<or> email b = Some '''' \<or> plan b = Some ''''"
  then have "\<not> truthy (clientName b) \<or> \<not> truthy (email b) \<or> \<not> truthy (plan b)"
    by (auto simp: truthy_def)
  then show "post_ads now b s =
        (respond 400 (Message ''Client name, email, and plan are required''), s)"
    by (rule post_ads_invalid)
qed

theorem empty_string_counts_as_missing_witness:
  "title untitled_submission = Some '''' \<and>
   post_articles 1000 untitled_submission demo_store =
     (respond 400 (Message ''Title, category, and content are required''), demo_store) \<and>
   plan ad_with_empty_plan = Some '''' \<and>
   post_ads 1000 ad_with_empty_plan demo_store =
     (respond 400 (Message ''Client name, email, and plan are required''), demo_store)"
proof -
  have h1: "title untitled_submission = Some ''''"
    by (simp add: sample_defs)
  have h2: "plan ad_with_empty_plan = Some ''''"
    by (simp add: sample_defs)
  note t1 = empty_string_counts_as_missing [where b = untitled_submission and now = 1000 and s = demo_store]
  note t2 = empty_string_counts_as_missing [where b = ad_with_empty_plan and now = 1000 and s = demo_store]
  have c1: "post_articles 1000 untitled_submission demo_store =
     (respond 400 (Message ''Title, category, and content are required''), demo_store)"
    using t1 h1 by blast
  have c2: "post_ads 1000 ad_with_empty_plan demo_store =
     (respond 400 (Message ''Client name, email, and plan are required''), demo_store)"
    using t2 h2 by blast
  from h1 c1 h2 c2 show ?thesis by blast
qed

end
